(* ===== verification/Trace_Prelude.thy ===== *)
theory Trace_Prelude
  imports "HOL-Library.Word" "HOL-Library.Char_ord" "HOL-Library.List_Lexorder" "HOL-Library.Multiset"
begin

text \<open>
  Prelude of the development: the names of the machine types, the C library's number
  conversions (\<open>%u %d %x %o\<close> and zero padding) with their inverses, the printable characters,
  and generic facts on lists and strings that the component theories share.

  The collections: \<open>render\<close> holds, for every printing routine, the equation that reduces it to
  a single append of its text; \<open>clean\<close> holds the facts that a text is printable ASCII.
\<close>

unbundle bit_operations_syntax

named_theorems render "a printing routine is one append of its text"
named_theorems clean "texts of printable characters"

section \<open>Machine types\<close>

type_synonym u8 = "8 word"
type_synonym u16 = "16 word"
type_synonym u32 = "32 word"
type_synonym u64 = "64 word"

text \<open>
  Signed C types are kept as words of their width; \<open>sint\<close> reads their value.
\<close>

type_synonym s32 = "32 word"
type_synonym s64 = "64 word"

abbreviation NUL :: char where "NUL \<equiv> CHR 0x00"
abbreviation BACKSLASH :: char where "BACKSLASH \<equiv> CHR 0x5C"
abbreviation DQUOTE :: char where "DQUOTE \<equiv> CHR 0x22"

definition byte_char :: "u8 \<Rightarrow> char" where
  "byte_char b = char_of (unat b)"

definition char_byte :: "char \<Rightarrow> u8" where
  "char_byte c = word_of_nat (of_char c)"

lemma unat_u8_less: "unat (b :: u8) < 256"
  using unsigned_less [of b] by simp

lemma of_byte_char [simp]: "of_char (byte_char b) = unat b"
  using unat_u8_less [of b] by (simp add: byte_char_def)

lemma byte_char_inject [simp]: "byte_char a = byte_char b \<longleftrightarrow> a = b"
  by (metis of_byte_char unsigned_word_eqI)

lemma char_byte_byte_char [simp]: "char_byte (byte_char b) = b"
  by (simp add: char_byte_def)

section \<open>Reading words\<close>

lemma unat_ucast: "unat (ucast w :: 'b::len word) = unat (w :: 'a::len word) mod 2 ^ LENGTH('b)"
  by (simp add: unsigned_ucast_eq take_bit_eq_mod)

lemma unat_u32_less [simp]: "unat (w :: u32) < 4294967296"
  using unsigned_less [of w] by simp

lemma unat_u64_less [simp]: "unat (w :: u64) < 18446744073709551616"
  using unsigned_less [of w] by simp

lemma unat_word_of_nat32: "k < 2 ^ 32 \<Longrightarrow> unat (word_of_nat k :: u32) = k"
  by (simp add: unsigned_of_nat take_bit_eq_mod)

lemma word_of_nat32_eq: "j < 2 ^ 32 \<Longrightarrow> k < 2 ^ 32 \<Longrightarrow> (word_of_nat j :: u32) = word_of_nat k \<longleftrightarrow> j = k"
  by (metis unat_word_of_nat32)

lemma signed_shift_int:
  assumes "0 \<le> k" "k < 2 ^ Suc n"
  shows "signed_take_bit n (k :: int) = (if k < 2 ^ n then k else k - 2 ^ Suc n)"
proof (cases "k < 2 ^ n")
  case True
  with assms show ?thesis by (simp add: signed_take_bit_eq_take_bit_shift take_bit_eq_mod)
next
  case False
  have "(k + 2 ^ n) mod 2 ^ Suc n = (k + 2 ^ n + - 1 * 2 ^ Suc n) mod 2 ^ Suc n"
    by (simp only: mod_mult_self1)
  also have "\<dots> = k + 2 ^ n + - 1 * 2 ^ Suc n" using assms False by (intro mod_pos_pos_trivial) auto
  finally show ?thesis using False by (simp add: signed_take_bit_eq_take_bit_shift take_bit_eq_mod)
qed

lemma sint_32: "sint (w :: u32) = (if unat w < 2 ^ 31 then int (unat w) else int (unat w) - 2 ^ 32)"
proof -
  define k where "k = unat w"
  have "k < 4294967296" unfolding k_def by (rule unat_u32_less)
  then have "int k < 2 ^ Suc 31" by simp
  from signed_shift_int [OF of_nat_0_le_iff this] have
    "signed_take_bit 31 (int k) = (if k < 2 ^ 31 then int k else int k - 2 ^ 32)" by simp
  moreover have "sint w = signed_take_bit 31 (int k)" by (simp add: sint_uint k_def)
  ultimately show ?thesis by (simp only: k_def)
qed

lemma sint_64: "sint (w :: u64) = (if unat w < 2 ^ 63 then int (unat w) else int (unat w) - 2 ^ 64)"
proof -
  define k where "k = unat w"
  have "k < 18446744073709551616" unfolding k_def by (rule unat_u64_less)
  then have "int k < 2 ^ Suc 63" by simp
  from signed_shift_int [OF of_nat_0_le_iff this] have
    "signed_take_bit 63 (int k) = (if k < 2 ^ 63 then int k else int k - 2 ^ 64)" by simp
  moreover have "sint w = signed_take_bit 63 (int k)" by (simp add: sint_uint k_def)
  ultimately show ?thesis by (simp only: k_def)
qed

section \<open>Printable characters\<close>

definition printable :: "char \<Rightarrow> bool" where
  "printable c \<longleftrightarrow> 32 \<le> (of_char c :: nat) \<and> (of_char c :: nat) < 127"

definition clean :: "string \<Rightarrow> bool" where
  "clean s \<longleftrightarrow> list_all printable s"

lemma clean_Nil [clean, simp]: "clean []"
  by (simp add: clean_def)

lemma clean_append [clean, simp]: "clean (s @ t) \<longleftrightarrow> clean s \<and> clean t"
  by (simp add: clean_def)

lemma clean_Cons [clean, simp]: "clean (c # s) \<longleftrightarrow> printable c \<and> clean s"
  by (simp add: clean_def)

lemma clean_concat: "(\<And>s. s \<in> set ss \<Longrightarrow> clean s) \<Longrightarrow> clean (concat ss)"
  by (induction ss) auto

lemma clean_if [simp]: "clean (if b then s else t) = (if b then clean s else clean t)"
  by simp

lemma clean_option [simp]:
  "clean (case x of None \<Rightarrow> s | Some a \<Rightarrow> f a) = (case x of None \<Rightarrow> clean s | Some a \<Rightarrow> clean (f a))"
  by (simp split: option.split)

lemma clean_replicate: "printable c \<Longrightarrow> clean (replicate n c)"
  by (induction n) auto

lemma clean_no_nul: "clean s \<Longrightarrow> NUL \<notin> set s"
  by (auto simp: clean_def list_all_iff printable_def)

section \<open>C strings\<close>

text \<open>The bytes a \<open>char *\<close> denotes: up to the first NUL.\<close>

definition cstr :: "string \<Rightarrow> string" where
  "cstr s = takeWhile (\<lambda>c. c \<noteq> NUL) s"

lemma cstr_append_NUL: "NUL \<notin> set s \<Longrightarrow> cstr (s @ NUL # t) = s"
  by (induction s) (auto simp: cstr_def)

lemma cstr_id: "NUL \<notin> set s \<Longrightarrow> cstr s = s"
  by (induction s) (auto simp: cstr_def)

lemma cstr_no_nul: "NUL \<notin> set (cstr s)"
  by (auto simp: cstr_def dest: set_takeWhileD)

lemma takeWhile_all [simp]: "x \<notin> set xs \<Longrightarrow> takeWhile (\<lambda>b. b \<noteq> x) xs = xs"
  by (induction xs) auto

section \<open>Number conversions\<close>

definition digit_char :: "nat \<Rightarrow> char" where
  "digit_char d = ''0123456789abcdef'' ! d"

fun digits :: "nat \<Rightarrow> nat \<Rightarrow> string" where
  "digits b n = (if b < 2 \<or> n < b then [digit_char n] else digits b (n div b) @ [digit_char (n mod b)])"

declare digits.simps [simp del]

text \<open>\<open>%u\<close>, \<open>%x\<close>, \<open>%o\<close>, \<open>%d\<close> of the C library, and a field width with the \<open>0\<close> flag.\<close>

definition fmt_u :: "nat \<Rightarrow> string" where "fmt_u n = digits 10 n"
definition fmt_x :: "nat \<Rightarrow> string" where "fmt_x n = digits 16 n"
definition fmt_o :: "nat \<Rightarrow> string" where "fmt_o n = digits 8 n"

definition fmt_d :: "int \<Rightarrow> string" where
  "fmt_d i = (if i < 0 then ''-'' @ fmt_u (nat (- i)) else fmt_u (nat i))"

definition zero_pad :: "nat \<Rightarrow> string \<Rightarrow> string" where
  "zero_pad w s = replicate (w - length s) (CHR ''0'') @ s"

definition digit_val :: "char \<Rightarrow> nat" where
  "digit_val c = (if (of_char c :: nat) < 58 then of_char c - 48 else of_char c - 87)"

definition undigits :: "nat \<Rightarrow> string \<Rightarrow> nat" where
  "undigits b s = foldl (\<lambda>a c. a * b + digit_val c) 0 s"

lemma less16_cases:
  assumes "(d :: nat) < 16"
  shows "d = 0 \<or> d = 1 \<or> d = 2 \<or> d = 3 \<or> d = 4 \<or> d = 5 \<or> d = 6 \<or> d = 7 \<or> d = 8 \<or> d = 9
    \<or> d = 10 \<or> d = 11 \<or> d = 12 \<or> d = 13 \<or> d = 14 \<or> d = 15"
  using assms by presburger

lemma digit_char_facts:
  assumes "d < 16"
  shows "digit_val (digit_char d) = d" "printable (digit_char d)" "digit_char d \<noteq> CHR ''|''"
    "digit_char d \<in> set ''0123456789abcdef''"
  using less16_cases [OF assms] by (elim disjE; simp add: digit_char_def digit_val_def printable_def)+

lemma digits_small: "n < b \<Longrightarrow> digits b n = [digit_char n]"
  by (subst digits.simps) simp

lemma digits_big: "2 \<le> b \<Longrightarrow> b \<le> n \<Longrightarrow> digits b n = digits b (n div b) @ [digit_char (n mod b)]"
  by (subst digits.simps) simp

lemma undigits_snoc: "undigits b (s @ [c]) = undigits b s * b + digit_val c"
  by (simp add: undigits_def)

lemma undigits_digits: "2 \<le> b \<Longrightarrow> b \<le> 16 \<Longrightarrow> undigits b (digits b n) = n"
proof (induction n rule: less_induct)
  case (less n)
  show ?case
  proof (cases "n < b")
    case True
    with less.prems show ?thesis by (simp add: digits_small undigits_def digit_char_facts)
  next
    case False
    with less have "undigits b (digits b (n div b)) = n div b" by (simp add: div_less_dividend)
    moreover have "n mod b < 16" using less.prems by (auto intro: less_le_trans [OF mod_less_divisor])
    ultimately show ?thesis
      using False less.prems by (simp add: digits_big undigits_snoc digit_char_facts(1))
  qed
qed

lemma digits_chars: "2 \<le> b \<Longrightarrow> c \<in> set (digits b n) \<Longrightarrow> \<exists>d<b. c = digit_char d"
proof (induction n rule: less_induct)
  case (less n)
  show ?case
  proof (cases "n < b")
    case True
    with less.prems show ?thesis by (auto simp: digits_small)
  next
    case False
    with less.prems have "c \<in> set (digits b (n div b)) \<or> c = digit_char (n mod b)"
      by (auto simp: digits_big)
    moreover have "n mod b < b" using less.prems by simp
    moreover have "n div b < n" using False less.prems by (simp add: div_less_dividend)
    ultimately show ?thesis using less by blast
  qed
qed

lemma digits_clean: "2 \<le> b \<Longrightarrow> b \<le> 16 \<Longrightarrow> clean (digits b n)"
  unfolding clean_def list_all_iff using digits_chars digit_char_facts(2) by fastforce

lemma digits_set: "2 \<le> b \<Longrightarrow> b \<le> 16 \<Longrightarrow> set (digits b n) \<subseteq> set ''0123456789abcdef''"
proof
  fix c
  assume b: "2 \<le> b" "b \<le> 16" and c: "c \<in> set (digits b n)"
  obtain d where "d < b" "c = digit_char d" using digits_chars [OF b(1) c] by blast
  with b show "c \<in> set ''0123456789abcdef''" using digit_char_facts(4) by simp
qed

lemma digits_nonempty [simp]: "digits b n \<noteq> []"
  by (subst digits.simps) simp

lemma digits_length: "2 \<le> b \<Longrightarrow> n < b ^ Suc k \<Longrightarrow> length (digits b n) \<le> Suc k"
proof (induction k arbitrary: n)
  case 0
  then show ?case by (simp add: digits_small)
next
  case (Suc k)
  show ?case
  proof (cases "n < b")
    case True
    then show ?thesis by (simp add: digits_small)
  next
    case False
    from Suc.prems have "n div b < b ^ Suc k"
      by (intro less_mult_imp_div_less) (simp add: mult.commute)
    then have "length (digits b (n div b)) \<le> Suc k" using Suc by blast
    with False Suc.prems show ?thesis by (simp add: digits_big)
  qed
qed

lemma fmt_clean [clean, simp]: "clean (fmt_u n)" "clean (fmt_x n)" "clean (fmt_o n)" "clean (fmt_d i)"
  by (simp_all add: fmt_u_def fmt_x_def fmt_o_def fmt_d_def digits_clean printable_def)

lemma zero_pad_clean [clean, simp]: "clean s \<Longrightarrow> clean (zero_pad w s)"
  by (simp add: zero_pad_def clean_replicate printable_def)

lemma undigits_fmt [simp]:
  "undigits 10 (fmt_u n) = n" "undigits 16 (fmt_x n) = n" "undigits 8 (fmt_o n) = n"
  by (simp_all add: fmt_u_def fmt_x_def fmt_o_def undigits_digits)

lemma fmt_inject [simp]:
  "fmt_u m = fmt_u n \<longleftrightarrow> m = n" "fmt_x m = fmt_x n \<longleftrightarrow> m = n" "fmt_o m = fmt_o n \<longleftrightarrow> m = n"
  by (metis undigits_fmt)+

lemma undigits_zero_pad: "undigits b (zero_pad w s) = undigits b s"
proof -
  have "undigits b (replicate k (CHR ''0'') @ s) = undigits b s" for k
    by (induction k) (simp_all add: undigits_def digit_val_def)
  then show ?thesis by (simp add: zero_pad_def)
qed

end
