(* ===== verification/Syscall_Entry.thy ===== *)
theory Syscall_Entry
  imports Trace_Prelude
begin

text \<open>
  The table interface of \<open>include/syscall_parser.h\<close>: \<open>syscall_entry_t\<close>, the table size, and
  \<open>syscall_table_lookup\<close> of \<open>src/sysdecode.c\<close>.
\<close>

record syscall_entry_t =
  ent_name :: "string option"
  ent_nargs :: u8
  ent_abi_bits :: u8
  ent_reserved :: u16

text \<open>The two shapes of initialiser the generated tables use.\<close>

definition ent :: "string \<Rightarrow> u8 \<Rightarrow> u8 \<Rightarrow> syscall_entry_t" where
  "ent n k bits = \<lparr>ent_name = Some n, ent_nargs = k, ent_abi_bits = bits, ent_reserved = 0\<rparr>"

definition unassigned :: "u8 \<Rightarrow> syscall_entry_t" where
  "unassigned bits = \<lparr>ent_name = None, ent_nargs = 6, ent_abi_bits = bits, ent_reserved = 0\<rparr>"

lemma ent_simps [simp]:
  "ent_name (ent n k b) = Some n" "ent_nargs (ent n k b) = k" "ent_abi_bits (ent n k b) = b"
  "ent_name (unassigned b) = None" "ent_nargs (unassigned b) = 6" "ent_abi_bits (unassigned b) = b"
  by (simp_all add: ent_def unassigned_def)

definition SYSCALL_MAX_ARGS :: nat where "SYSCALL_MAX_ARGS = 6"
definition SYSCALL_TABLE_SIZE :: nat where "SYSCALL_TABLE_SIZE = 473"

text \<open>A null table is \<open>None\<close>; a table passed by pointer has its declared size.\<close>

definition syscall_table_lookup :: "s32 \<Rightarrow> syscall_entry_t list option \<Rightarrow> syscall_entry_t option" where
  "syscall_table_lookup syscall_id table =
     (case table of
        None \<Rightarrow> None
      | Some t \<Rightarrow>
          if sint syscall_id < 0 \<or> SYSCALL_TABLE_SIZE \<le> unat syscall_id then None
          else (case ent_name (t ! unat syscall_id) of
                  None \<Rightarrow> None
                | Some _ \<Rightarrow> Some (t ! unat syscall_id)))"

definition table_names :: "syscall_entry_t list \<Rightarrow> string list" where
  "table_names t = concat (map (\<lambda>e. case ent_name e of None \<Rightarrow> [] | Some n \<Rightarrow> [n]) t)"

lemma table_names_simps [simp]:
  "table_names [] = []"
  "table_names (ent n k b # t) = n # table_names t"
  "table_names (unassigned b # t) = table_names t"
  "table_names (t @ u) = table_names t @ table_names u"
  by (simp_all add: table_names_def)

lemma set_table_names: "set (table_names t) = {n. \<exists>e \<in> set t. ent_name e = Some n}"
  by (auto simp: table_names_def split: option.splits)

text \<open>
  The contract a table gives its users: full size, one ABI width throughout, at most six
  registers, and printable, pairwise distinct names that contain no blank and no comma.
\<close>

definition entry_ok :: "u8 \<Rightarrow> syscall_entry_t \<Rightarrow> bool" where
  "entry_ok bits e \<longleftrightarrow> ent_abi_bits e = bits \<and> ent_nargs e \<le> 6 \<and>
     (case ent_name e of None \<Rightarrow> True
      | Some n \<Rightarrow> n \<noteq> [] \<and> clean n \<and> length n \<le> 28 \<and>
          list_all (\<lambda>c. c \<noteq> CHR '','' \<and> c \<noteq> CHR '' '' \<and> c \<noteq> CHR 0x09) n)"

definition table_ok :: "u8 \<Rightarrow> syscall_entry_t list \<Rightarrow> bool" where
  "table_ok bits t \<longleftrightarrow> length t = SYSCALL_TABLE_SIZE \<and> list_all (entry_ok bits) t \<and> distinct (table_names t)"

lemma table_names_distinct_nth:
  assumes "distinct (table_names t)" "i < length t" "j < length t"
    and "ent_name (t ! i) = Some n" "ent_name (t ! j) = Some n"
  shows "i = j"
  using assms
proof (induction t arbitrary: i j)
  case (Cons e t)
  have no: False if "ent_name e = Some n" "k < length t" "ent_name (t ! k) = Some n" for k
  proof -
    have "n \<in> set (table_names t)" using that nth_mem [of k t] by (auto simp: set_table_names)
    with Cons.prems(1) that(1) show False by (simp add: table_names_def)
  qed
  have d: "distinct (table_names t)"
    using Cons.prems(1) by (auto simp: table_names_def split: option.splits)
  show ?case
    using Cons.IH [OF d] Cons.prems no by (cases i; cases j) auto
qed simp

end
