(* ===== verification/Name_Order.thy ===== *)
theory Name_Order
  imports Trace_Prelude
begin

text \<open>
  A checkable criterion for distinctness of long lists of names: a bottom-up merge of the
  lexicographically ordered names is strictly increasing. It is used on the two generated
  syscall tables, where comparing all pairs of names would take too long.
\<close>

section \<open>Evaluating a character\<close>

lemma char_less_bits [code]:
  "Char b0 b1 b2 b3 b4 b5 b6 b7 < Char c0 c1 c2 c3 c4 c5 c6 c7 \<longleftrightarrow>
   (if b7 \<noteq> c7 then c7 else if b6 \<noteq> c6 then c6 else if b5 \<noteq> c5 then c5 else if b4 \<noteq> c4 then c4
    else if b3 \<noteq> c3 then c3 else if b2 \<noteq> c2 then c2 else if b1 \<noteq> c1 then c1 else b0 \<noteq> c0 \<and> c0)"
  by auto

lemma printable_bits [code, simp]:
  "printable (Char b0 b1 b2 b3 b4 b5 b6 b7) \<longleftrightarrow>
   \<not> b7 \<and> (b5 \<or> b6) \<and> \<not> (b0 \<and> b1 \<and> b2 \<and> b3 \<and> b4 \<and> b5 \<and> b6)"
  by (cases b0; cases b1; cases b2; cases b3; cases b4; cases b5; cases b6; cases b7)
    (simp_all add: printable_def)

text \<open>Rewriting with these alone decides that a composed text is printable, without case splits.\<close>

lemmas clean_eval = clean_if clean_option clean_append clean_Cons clean_Nil printable_bits fmt_clean
  if_cancel option.case_eq_if simp_thms

section \<open>Merging\<close>

fun merge_names :: "string list \<Rightarrow> string list \<Rightarrow> string list" where
  "merge_names [] ys = ys"
| "merge_names xs [] = xs"
| "merge_names (x # xs) (y # ys) =
     (if x < y then x # merge_names xs (y # ys) else y # merge_names (x # xs) ys)"

fun merge_pairs :: "string list list \<Rightarrow> string list list" where
  "merge_pairs (xs # ys # zss) = merge_names xs ys # merge_pairs zss"
| "merge_pairs xss = xss"

definition merge_runs :: "nat \<Rightarrow> string list \<Rightarrow> string list list" where
  "merge_runs n xs = (merge_pairs ^^ n) (map (\<lambda>x. [x]) xs)"

fun increasing :: "string list \<Rightarrow> bool" where
  "increasing (x # y # ys) = (x < y \<and> increasing (y # ys))"
| "increasing xs = True"

text \<open>\<open>2 ^ 9\<close> names are merged into one run in nine rounds.\<close>

definition names_distinct :: "string list \<Rightarrow> bool" where
  "names_distinct xs = (case merge_runs 9 xs of [ys] \<Rightarrow> increasing ys | _ \<Rightarrow> False)"

lemma mset_merge_names: "mset (merge_names xs ys) = mset xs + mset ys"
  by (induction xs ys rule: merge_names.induct) auto

lemma mset_merge_pairs: "mset (concat (merge_pairs xss)) = mset (concat xss)"
  by (induction xss rule: merge_pairs.induct) (simp_all add: mset_merge_names)

lemma mset_merge_runs: "mset (concat (merge_runs n xs)) = mset xs"
proof -
  have "mset (concat ((merge_pairs ^^ n) yss)) = mset (concat yss)" for yss
    by (induction n) (simp_all add: mset_merge_pairs)
  moreover have "concat (map (\<lambda>x. [x]) xs) = xs" by (induction xs) simp_all
  ultimately show ?thesis by (simp add: merge_runs_def)
qed

lemma increasing_Cons: "increasing (x # xs) \<longleftrightarrow> (\<forall>y \<in> set xs. x < y) \<and> increasing xs"
  by (induction xs arbitrary: x) auto

lemma increasing_distinct: "increasing xs \<Longrightarrow> distinct xs"
  by (induction xs) (auto simp: increasing_Cons)

lemma names_distinctD:
  assumes "names_distinct xs"
  shows "distinct xs"
proof -
  obtain ys where ys: "merge_runs 9 xs = [ys]" "increasing ys"
    using assms by (auto simp: names_distinct_def split: list.splits)
  then have "mset ys = mset xs" using mset_merge_runs [of 9 xs] by simp
  with increasing_distinct [OF ys(2)] show ?thesis by (metis mset_eq_imp_distinct_iff)
qed

end
