(* ===== verification/Syscall_Table64.thy ===== *)
theory Syscall_Table64
  imports Syscall_Entry Name_Order
begin

text \<open>
  The generated table \<open>syscall_tables_64\<close> of \<open>src/syscall_tables_generated.c\<close>, entry by
  entry in index order (in four parts, one list each), and the facts its users need.
\<close>

definition syscall_tables_64_part1 :: "syscall_entry_t list" where
  "syscall_tables_64_part1 = [
    ent ''io_setup'' 2 64,
    ent ''io_destroy'' 1 64,
    ent ''io_submit'' 3 64,
    ent ''io_cancel'' 3 64,
    ent ''io_getevents'' 5 64,
    ent ''setxattr'' 5 64,
    ent ''lsetxattr'' 5 64,
    ent ''fsetxattr'' 5 64,
    ent ''getxattr'' 4 64,
    ent ''lgetxattr'' 4 64,
    ent ''fgetxattr'' 4 64,
    ent ''listxattr'' 3 64,
    ent ''llistxattr'' 3 64,
    ent ''flistxattr'' 3 64,
    ent ''removexattr'' 2 64,
    ent ''lremovexattr'' 2 64,
    ent ''fremovexattr'' 2 64,
    ent ''getcwd'' 2 64,
    ent ''lookup_dcookie'' 3 64,
    ent ''eventfd2'' 2 64,
    ent ''epoll_create1'' 1 64,
    ent ''epoll_ctl'' 4 64,
    ent ''epoll_pwait'' 6 64,
    ent ''dup'' 1 64,
    ent ''dup3'' 3 64,
    ent ''fcntl'' 3 64,
    ent ''inotify_init1'' 1 64,
    ent ''inotify_add_watch'' 3 64,
    ent ''inotify_rm_watch'' 2 64,
    ent ''ioctl'' 3 64,
    ent ''ioprio_set'' 3 64,
    ent ''ioprio_get'' 2 64,
    ent ''flock'' 2 64,
    ent ''mknodat'' 4 64,
    ent ''mkdirat'' 3 64,
    ent ''unlinkat'' 3 64,
    ent ''symlinkat'' 3 64,
    ent ''linkat'' 5 64,
    ent ''renameat'' 4 64,
    ent ''umount2'' 2 64,
    ent ''mount'' 5 64,
    ent ''pivot_root'' 2 64,
    ent ''nfsservctl'' 3 64,
    ent ''statfs'' 2 64,
    ent ''fstatfs'' 2 64,
    ent ''truncate'' 2 64,
    ent ''ftruncate'' 2 64,
    ent ''fallocate'' 4 64,
    ent ''faccessat'' 3 64,
    ent ''chdir'' 1 64,
    ent ''fchdir'' 1 64,
    ent ''chroot'' 1 64,
    ent ''fchmod'' 2 64,
    ent ''fchmodat'' 3 64,
    ent ''fchownat'' 5 64,
    ent ''fchown'' 3 64,
    ent ''openat'' 4 64,
    ent ''close'' 1 64,
    ent ''vhangup'' 0 64,
    ent ''pipe2'' 2 64,
    ent ''quotactl'' 4 64,
    ent ''getdents64'' 3 64,
    ent ''lseek'' 3 64,
    ent ''read'' 3 64,
    ent ''write'' 3 64,
    ent ''readv'' 3 64,
    ent ''writev'' 3 64,
    ent ''pread64'' 4 64,
    ent ''pwrite64'' 4 64,
    ent ''preadv'' 4 64,
    ent ''pwritev'' 4 64,
    ent ''sendfile'' 4 64,
    ent ''pselect6'' 6 64,
    ent ''ppoll'' 5 64,
    ent ''signalfd4'' 4 64,
    ent ''vmsplice'' 4 64,
    ent ''splice'' 6 64,
    ent ''tee'' 4 64,
    ent ''readlinkat'' 4 64,
    ent ''newfstatat'' 4 64,
    ent ''fstat'' 2 64,
    ent ''sync'' 0 64,
    ent ''fsync'' 1 64,
    ent ''fdatasync'' 1 64,
    ent ''sync_file_range'' 4 64,
    ent ''timerfd_create'' 2 64,
    ent ''timerfd_settime'' 4 64,
    ent ''timerfd_gettime'' 2 64,
    ent ''utimensat'' 4 64,
    ent ''acct'' 1 64,
    ent ''capget'' 2 64,
    ent ''capset'' 2 64,
    ent ''personality'' 1 64,
    ent ''exit'' 1 64,
    ent ''exit_group'' 1 64,
    ent ''waitid'' 5 64,
    ent ''set_tid_address'' 1 64,
    ent ''unshare'' 1 64,
    ent ''futex'' 6 64,
    ent ''set_robust_list'' 2 64,
    ent ''get_robust_list'' 3 64,
    ent ''nanosleep'' 2 64,
    ent ''getitimer'' 2 64,
    ent ''setitimer'' 3 64,
    ent ''kexec_load'' 4 64,
    ent ''init_module'' 3 64,
    ent ''delete_module'' 2 64,
    ent ''timer_create'' 3 64,
    ent ''timer_gettime'' 2 64,
    ent ''timer_getoverrun'' 1 64,
    ent ''timer_settime'' 4 64,
    ent ''timer_delete'' 1 64,
    ent ''clock_settime'' 2 64,
    ent ''clock_gettime'' 2 64,
    ent ''clock_getres'' 2 64,
    ent ''clock_nanosleep'' 4 64,
    ent ''syslog'' 3 64,
    ent ''ptrace'' 4 64]"

definition syscall_tables_64_part2 :: "syscall_entry_t list" where
  "syscall_tables_64_part2 = [
    ent ''sched_setparam'' 2 64,
    ent ''sched_setscheduler'' 3 64,
    ent ''sched_getscheduler'' 1 64,
    ent ''sched_getparam'' 2 64,
    ent ''sched_setaffinity'' 3 64,
    ent ''sched_getaffinity'' 3 64,
    ent ''sched_yield'' 0 64,
    ent ''sched_get_priority_max'' 1 64,
    ent ''sched_get_priority_min'' 1 64,
    ent ''sched_rr_get_interval'' 2 64,
    ent ''restart_syscall'' 0 64,
    ent ''kill'' 2 64,
    ent ''tkill'' 2 64,
    ent ''tgkill'' 3 64,
    ent ''sigaltstack'' 2 64,
    ent ''rt_sigsuspend'' 2 64,
    ent ''rt_sigaction'' 4 64,
    ent ''rt_sigprocmask'' 4 64,
    ent ''rt_sigpending'' 2 64,
    ent ''rt_sigtimedwait'' 4 64,
    ent ''rt_sigqueueinfo'' 3 64,
    ent ''rt_sigreturn'' 0 64,
    ent ''setpriority'' 3 64,
    ent ''getpriority'' 2 64,
    ent ''reboot'' 4 64,
    ent ''setregid'' 2 64,
    ent ''setgid'' 1 64,
    ent ''setreuid'' 2 64,
    ent ''setuid'' 1 64,
    ent ''setresuid'' 3 64,
    ent ''getresuid'' 3 64,
    ent ''setresgid'' 3 64,
    ent ''getresgid'' 3 64,
    ent ''setfsuid'' 1 64,
    ent ''setfsgid'' 1 64,
    ent ''times'' 1 64,
    ent ''setpgid'' 2 64,
    ent ''getpgid'' 1 64,
    ent ''getsid'' 1 64,
    ent ''setsid'' 0 64,
    ent ''getgroups'' 2 64,
    ent ''setgroups'' 2 64,
    ent ''uname'' 1 64,
    ent ''sethostname'' 2 64,
    ent ''setdomainname'' 2 64,
    ent ''getrlimit'' 2 64,
    ent ''setrlimit'' 2 64,
    ent ''getrusage'' 2 64,
    ent ''umask'' 1 64,
    ent ''prctl'' 5 64,
    ent ''getcpu'' 3 64,
    ent ''gettimeofday'' 2 64,
    ent ''settimeofday'' 2 64,
    ent ''adjtimex'' 1 64,
    ent ''getpid'' 0 64,
    ent ''getppid'' 0 64,
    ent ''getuid'' 0 64,
    ent ''geteuid'' 0 64,
    ent ''getgid'' 0 64,
    ent ''getegid'' 0 64,
    ent ''gettid'' 0 64,
    ent ''sysinfo'' 1 64,
    ent ''mq_open'' 4 64,
    ent ''mq_unlink'' 1 64,
    ent ''mq_timedsend'' 5 64,
    ent ''mq_timedreceive'' 5 64,
    ent ''mq_notify'' 2 64,
    ent ''mq_getsetattr'' 3 64,
    ent ''msgget'' 2 64,
    ent ''msgctl'' 3 64,
    ent ''msgrcv'' 5 64,
    ent ''msgsnd'' 4 64,
    ent ''semget'' 3 64,
    ent ''semctl'' 4 64,
    ent ''semtimedop'' 4 64,
    ent ''semop'' 3 64,
    ent ''shmget'' 3 64,
    ent ''shmctl'' 3 64,
    ent ''shmat'' 3 64,
    ent ''shmdt'' 1 64,
    ent ''socket'' 3 64,
    ent ''socketpair'' 4 64,
    ent ''bind'' 3 64,
    ent ''listen'' 2 64,
    ent ''accept'' 3 64,
    ent ''connect'' 3 64,
    ent ''getsockname'' 3 64,
    ent ''getpeername'' 3 64,
    ent ''sendto'' 6 64,
    ent ''recvfrom'' 6 64,
    ent ''setsockopt'' 5 64,
    ent ''getsockopt'' 5 64,
    ent ''shutdown'' 2 64,
    ent ''sendmsg'' 3 64,
    ent ''recvmsg'' 3 64,
    ent ''readahead'' 3 64,
    ent ''brk'' 1 64,
    ent ''munmap'' 2 64,
    ent ''mremap'' 5 64,
    ent ''add_key'' 5 64,
    ent ''request_key'' 4 64,
    ent ''keyctl'' 5 64,
    ent ''clone'' 5 64,
    ent ''execve'' 3 64,
    ent ''mmap'' 6 64,
    ent ''fadvise64'' 4 64,
    ent ''swapon'' 2 64,
    ent ''swapoff'' 1 64,
    ent ''mprotect'' 3 64,
    ent ''msync'' 3 64,
    ent ''mlock'' 2 64,
    ent ''munlock'' 2 64,
    ent ''mlockall'' 1 64,
    ent ''munlockall'' 0 64,
    ent ''mincore'' 3 64,
    ent ''madvise'' 3 64,
    ent ''remap_file_pages'' 5 64,
    ent ''mbind'' 6 64]"

definition syscall_tables_64_part3 :: "syscall_entry_t list" where
  "syscall_tables_64_part3 = [
    ent ''get_mempolicy'' 5 64,
    ent ''set_mempolicy'' 3 64,
    ent ''migrate_pages'' 4 64,
    ent ''move_pages'' 6 64,
    ent ''rt_tgsigqueueinfo'' 4 64,
    ent ''perf_event_open'' 5 64,
    ent ''accept4'' 4 64,
    ent ''recvmmsg'' 5 64,
    unassigned 64,
    unassigned 64,
    unassigned 64,
    unassigned 64,
    unassigned 64,
    unassigned 64,
    unassigned 64,
    unassigned 64,
    unassigned 64,
    unassigned 64,
    unassigned 64,
    unassigned 64,
    unassigned 64,
    unassigned 64,
    unassigned 64,
    unassigned 64,
    ent ''wait4'' 4 64,
    ent ''prlimit64'' 4 64,
    ent ''fanotify_init'' 2 64,
    ent ''fanotify_mark'' 5 64,
    ent ''name_to_handle_at'' 5 64,
    ent ''open_by_handle_at'' 3 64,
    ent ''clock_adjtime'' 2 64,
    ent ''syncfs'' 1 64,
    ent ''setns'' 2 64,
    ent ''sendmmsg'' 4 64,
    ent ''process_vm_readv'' 6 64,
    ent ''process_vm_writev'' 6 64,
    ent ''kcmp'' 5 64,
    ent ''finit_module'' 3 64,
    ent ''sched_setattr'' 3 64,
    ent ''sched_getattr'' 4 64,
    ent ''renameat2'' 5 64,
    ent ''seccomp'' 3 64,
    ent ''getrandom'' 3 64,
    ent ''memfd_create'' 2 64,
    ent ''bpf'' 3 64,
    ent ''execveat'' 5 64,
    ent ''userfaultfd'' 1 64,
    ent ''membarrier'' 3 64,
    ent ''mlock2'' 3 64,
    ent ''copy_file_range'' 6 64,
    ent ''preadv2'' 6 64,
    ent ''pwritev2'' 6 64,
    ent ''pkey_mprotect'' 4 64,
    ent ''pkey_alloc'' 2 64,
    ent ''pkey_free'' 1 64,
    ent ''statx'' 5 64,
    ent ''io_pgetevents'' 6 64,
    ent ''rseq'' 4 64,
    ent ''kexec_file_load'' 5 64,
    unassigned 64,
    unassigned 64,
    unassigned 64,
    unassigned 64,
    unassigned 64,
    unassigned 64,
    unassigned 64,
    unassigned 64,
    unassigned 64,
    unassigned 64,
    unassigned 64,
    unassigned 64,
    unassigned 64,
    unassigned 64,
    unassigned 64,
    unassigned 64,
    unassigned 64,
    unassigned 64,
    unassigned 64,
    unassigned 64,
    unassigned 64,
    unassigned 64,
    unassigned 64,
    unassigned 64,
    unassigned 64,
    unassigned 64,
    unassigned 64,
    unassigned 64,
    unassigned 64,
    unassigned 64,
    unassigned 64,
    unassigned 64,
    unassigned 64,
    unassigned 64,
    unassigned 64,
    unassigned 64,
    unassigned 64,
    unassigned 64,
    unassigned 64,
    unassigned 64,
    unassigned 64,
    unassigned 64,
    unassigned 64,
    unassigned 64,
    unassigned 64,
    unassigned 64,
    unassigned 64,
    unassigned 64,
    unassigned 64,
    unassigned 64,
    unassigned 64,
    unassigned 64,
    unassigned 64,
    unassigned 64,
    unassigned 64,
    unassigned 64,
    unassigned 64,
    unassigned 64,
    unassigned 64]"

definition syscall_tables_64_part4 :: "syscall_entry_t list" where
  "syscall_tables_64_part4 = [
    unassigned 64,
    unassigned 64,
    unassigned 64,
    unassigned 64,
    unassigned 64,
    unassigned 64,
    unassigned 64,
    unassigned 64,
    unassigned 64,
    unassigned 64,
    unassigned 64,
    unassigned 64,
    unassigned 64,
    unassigned 64,
    unassigned 64,
    unassigned 64,
    unassigned 64,
    unassigned 64,
    unassigned 64,
    unassigned 64,
    unassigned 64,
    unassigned 64,
    unassigned 64,
    unassigned 64,
    unassigned 64,
    unassigned 64,
    unassigned 64,
    unassigned 64,
    unassigned 64,
    unassigned 64,
    unassigned 64,
    unassigned 64,
    unassigned 64,
    unassigned 64,
    unassigned 64,
    unassigned 64,
    unassigned 64,
    unassigned 64,
    unassigned 64,
    unassigned 64,
    unassigned 64,
    unassigned 64,
    unassigned 64,
    unassigned 64,
    unassigned 64,
    unassigned 64,
    unassigned 64,
    unassigned 64,
    unassigned 64,
    unassigned 64,
    unassigned 64,
    unassigned 64,
    unassigned 64,
    unassigned 64,
    unassigned 64,
    unassigned 64,
    unassigned 64,
    unassigned 64,
    unassigned 64,
    unassigned 64,
    unassigned 64,
    unassigned 64,
    unassigned 64,
    unassigned 64,
    unassigned 64,
    unassigned 64,
    unassigned 64,
    unassigned 64,
    unassigned 64,
    unassigned 64,
    ent ''pidfd_send_signal'' 4 64,
    ent ''io_uring_setup'' 2 64,
    ent ''io_uring_enter'' 6 64,
    ent ''io_uring_register'' 4 64,
    ent ''open_tree'' 3 64,
    ent ''move_mount'' 5 64,
    ent ''fsopen'' 2 64,
    ent ''fsconfig'' 5 64,
    ent ''fsmount'' 3 64,
    ent ''fspick'' 3 64,
    ent ''pidfd_open'' 2 64,
    ent ''clone3'' 2 64,
    ent ''close_range'' 3 64,
    ent ''openat2'' 4 64,
    ent ''pidfd_getfd'' 3 64,
    ent ''faccessat2'' 4 64,
    ent ''process_madvise'' 5 64,
    ent ''epoll_pwait2'' 6 64,
    ent ''mount_setattr'' 5 64,
    ent ''quotactl_fd'' 4 64,
    ent ''landlock_create_ruleset'' 3 64,
    ent ''landlock_add_rule'' 4 64,
    ent ''landlock_restrict_self'' 2 64,
    ent ''memfd_secret'' 1 64,
    ent ''process_mrelease'' 2 64,
    ent ''futex_waitv'' 5 64,
    ent ''set_mempolicy_home_node'' 4 64,
    ent ''cachestat'' 4 64,
    ent ''fchmodat2'' 4 64,
    ent ''map_shadow_stack'' 3 64,
    ent ''futex_wake'' 4 64,
    ent ''futex_wait'' 6 64,
    ent ''futex_requeue'' 4 64,
    ent ''statmount'' 4 64,
    ent ''listmount'' 4 64,
    ent ''lsm_get_self_attr'' 4 64,
    ent ''lsm_set_self_attr'' 4 64,
    ent ''lsm_list_modules'' 3 64,
    ent ''mseal'' 3 64,
    ent ''setxattrat'' 6 64,
    ent ''getxattrat'' 6 64,
    ent ''listxattrat'' 5 64,
    ent ''removexattrat'' 4 64,
    ent ''open_tree_attr'' 5 64,
    ent ''file_getattr'' 5 64,
    ent ''file_setattr'' 5 64,
    ent ''listns'' 4 64,
    ent ''rseq_slice_yield'' 0 64,
    ent ''fchroot'' 2 64]"

definition syscall_tables_64 :: "syscall_entry_t list" where
  "syscall_tables_64 = syscall_tables_64_part1 @ syscall_tables_64_part2 @ syscall_tables_64_part3 @ syscall_tables_64_part4"

lemmas syscall_tables_64_parts = syscall_tables_64_part1_def syscall_tables_64_part2_def syscall_tables_64_part3_def syscall_tables_64_part4_def

lemma syscall_tables_64_part1_entries: "list_all (entry_ok 64) syscall_tables_64_part1"
  by (simp add: syscall_tables_64_part1_def entry_ok_def)

lemma syscall_tables_64_part2_entries: "list_all (entry_ok 64) syscall_tables_64_part2"
  by (simp add: syscall_tables_64_part2_def entry_ok_def)

lemma syscall_tables_64_part3_entries: "list_all (entry_ok 64) syscall_tables_64_part3"
  by (simp add: syscall_tables_64_part3_def entry_ok_def)

lemma syscall_tables_64_part4_entries: "list_all (entry_ok 64) syscall_tables_64_part4"
  by (simp add: syscall_tables_64_part4_def entry_ok_def)

lemma syscall_tables_64_length: "length syscall_tables_64 = SYSCALL_TABLE_SIZE"
  by (simp add: syscall_tables_64_def syscall_tables_64_parts SYSCALL_TABLE_SIZE_def)

lemma syscall_tables_64_names_distinct: "names_distinct (table_names syscall_tables_64)"
  by code_simp

lemma syscall_tables_64_ok: "table_ok 64 syscall_tables_64"
  unfolding table_ok_def
  using syscall_tables_64_length names_distinctD [OF syscall_tables_64_names_distinct]
  by (simp add: syscall_tables_64_def syscall_tables_64_part1_entries syscall_tables_64_part2_entries syscall_tables_64_part3_entries syscall_tables_64_part4_entries)

end
