(* ===== verification/Syscall_Table32.thy ===== *)
theory Syscall_Table32
  imports Syscall_Entry Name_Order
begin

text \<open>
  The generated table \<open>syscall_tables_32\<close> of \<open>src/syscall_tables_generated.c\<close>, entry by
  entry in index order (in four parts, one list each), and the facts its users need.
\<close>

definition syscall_tables_32_part1 :: "syscall_entry_t list" where
  "syscall_tables_32_part1 = [
    ent ''restart_syscall'' 0 32,
    ent ''exit'' 1 32,
    ent ''fork'' 0 32,
    ent ''read'' 3 32,
    ent ''write'' 3 32,
    ent ''open'' 3 32,
    ent ''close'' 1 32,
    ent ''waitpid'' 3 32,
    ent ''creat'' 2 32,
    ent ''link'' 2 32,
    ent ''unlink'' 1 32,
    ent ''execve'' 3 32,
    ent ''chdir'' 1 32,
    ent ''time'' 1 32,
    ent ''mknod'' 3 32,
    ent ''chmod'' 2 32,
    ent ''lchown'' 3 32,
    ent ''break'' 0 32,
    ent ''oldstat'' 2 32,
    ent ''lseek'' 3 32,
    ent ''getpid'' 0 32,
    ent ''mount'' 5 32,
    ent ''umount'' 1 32,
    ent ''setuid'' 1 32,
    ent ''getuid'' 0 32,
    ent ''stime'' 1 32,
    ent ''ptrace'' 4 32,
    ent ''alarm'' 1 32,
    ent ''oldfstat'' 2 32,
    ent ''pause'' 0 32,
    ent ''utime'' 2 32,
    ent ''stty'' 2 32,
    ent ''gtty'' 2 32,
    ent ''access'' 2 32,
    ent ''nice'' 1 32,
    ent ''ftime'' 0 32,
    ent ''sync'' 0 32,
    ent ''kill'' 2 32,
    ent ''rename'' 2 32,
    ent ''mkdir'' 2 32,
    ent ''rmdir'' 1 32,
    ent ''dup'' 1 32,
    ent ''pipe'' 1 32,
    ent ''times'' 1 32,
    ent ''prof'' 0 32,
    ent ''brk'' 1 32,
    ent ''setgid'' 1 32,
    ent ''getgid'' 0 32,
    ent ''signal'' 2 32,
    ent ''geteuid'' 0 32,
    ent ''getegid'' 0 32,
    ent ''acct'' 1 32,
    ent ''umount2'' 2 32,
    ent ''lock'' 0 32,
    ent ''ioctl'' 3 32,
    ent ''fcntl'' 3 32,
    ent ''mpx'' 0 32,
    ent ''setpgid'' 2 32,
    ent ''ulimit'' 2 32,
    ent ''oldolduname'' 1 32,
    ent ''umask'' 1 32,
    ent ''chroot'' 1 32,
    ent ''ustat'' 2 32,
    ent ''dup2'' 2 32,
    ent ''getppid'' 0 32,
    ent ''getpgrp'' 0 32,
    ent ''setsid'' 0 32,
    ent ''sigaction'' 3 32,
    ent ''sgetmask'' 0 32,
    ent ''ssetmask'' 1 32,
    ent ''setreuid'' 2 32,
    ent ''setregid'' 2 32,
    ent ''sigsuspend'' 3 32,
    ent ''sigpending'' 1 32,
    ent ''sethostname'' 2 32,
    ent ''setrlimit'' 2 32,
    ent ''getrlimit'' 2 32,
    ent ''getrusage'' 2 32,
    ent ''gettimeofday'' 2 32,
    ent ''settimeofday'' 2 32,
    ent ''getgroups'' 2 32,
    ent ''setgroups'' 2 32,
    ent ''select'' 1 32,
    ent ''symlink'' 2 32,
    ent ''oldlstat'' 2 32,
    ent ''readlink'' 3 32,
    ent ''uselib'' 1 32,
    ent ''swapon'' 2 32,
    ent ''reboot'' 4 32,
    ent ''readdir'' 3 32,
    ent ''mmap'' 1 32,
    ent ''munmap'' 2 32,
    ent ''truncate'' 2 32,
    ent ''ftruncate'' 2 32,
    ent ''fchmod'' 2 32,
    ent ''fchown'' 3 32,
    ent ''getpriority'' 2 32,
    ent ''setpriority'' 3 32,
    ent ''profil'' 4 32,
    ent ''statfs'' 2 32,
    ent ''fstatfs'' 2 32,
    ent ''ioperm'' 3 32,
    ent ''socketcall'' 2 32,
    ent ''syslog'' 3 32,
    ent ''setitimer'' 3 32,
    ent ''getitimer'' 2 32,
    ent ''stat'' 2 32,
    ent ''lstat'' 2 32,
    ent ''fstat'' 2 32,
    ent ''olduname'' 1 32,
    ent ''iopl'' 1 32,
    ent ''vhangup'' 0 32,
    ent ''idle'' 0 32,
    ent ''syscall'' 5 32,
    ent ''wait4'' 4 32,
    ent ''swapoff'' 1 32,
    ent ''sysinfo'' 1 32,
    ent ''ipc'' 6 32]"

definition syscall_tables_32_part2 :: "syscall_entry_t list" where
  "syscall_tables_32_part2 = [
    ent ''fsync'' 1 32,
    ent ''sigreturn'' 0 32,
    ent ''clone'' 5 32,
    ent ''setdomainname'' 2 32,
    ent ''uname'' 1 32,
    ent ''modify_ldt'' 3 32,
    ent ''adjtimex'' 1 32,
    ent ''mprotect'' 3 32,
    ent ''sigprocmask'' 3 32,
    ent ''create_module'' 2 32,
    ent ''init_module'' 3 32,
    ent ''delete_module'' 2 32,
    ent ''get_kernel_syms'' 1 32,
    ent ''quotactl'' 4 32,
    ent ''getpgid'' 1 32,
    ent ''fchdir'' 1 32,
    ent ''bdflush'' 2 32,
    ent ''sysfs'' 3 32,
    ent ''personality'' 1 32,
    ent ''afs_syscall'' 5 32,
    ent ''setfsuid'' 1 32,
    ent ''setfsgid'' 1 32,
    ent ''_llseek'' 5 32,
    ent ''getdents'' 3 32,
    ent ''_newselect'' 5 32,
    ent ''flock'' 2 32,
    ent ''msync'' 3 32,
    ent ''readv'' 3 32,
    ent ''writev'' 3 32,
    ent ''getsid'' 1 32,
    ent ''fdatasync'' 1 32,
    ent ''_sysctl'' 1 32,
    ent ''mlock'' 2 32,
    ent ''munlock'' 2 32,
    ent ''mlockall'' 1 32,
    ent ''munlockall'' 0 32,
    ent ''sched_setparam'' 2 32,
    ent ''sched_getparam'' 2 32,
    ent ''sched_setscheduler'' 3 32,
    ent ''sched_getscheduler'' 1 32,
    ent ''sched_yield'' 0 32,
    ent ''sched_get_priority_max'' 1 32,
    ent ''sched_get_priority_min'' 1 32,
    ent ''sched_rr_get_interval'' 2 32,
    ent ''nanosleep'' 2 32,
    ent ''mremap'' 5 32,
    ent ''setresuid'' 3 32,
    ent ''getresuid'' 3 32,
    ent ''vm86'' 5 32,
    ent ''query_module'' 5 32,
    ent ''poll'' 3 32,
    ent ''nfsservctl'' 3 32,
    ent ''setresgid'' 3 32,
    ent ''getresgid'' 3 32,
    ent ''prctl'' 5 32,
    ent ''rt_sigreturn'' 0 32,
    ent ''rt_sigaction'' 4 32,
    ent ''rt_sigprocmask'' 4 32,
    ent ''rt_sigpending'' 2 32,
    ent ''rt_sigtimedwait'' 4 32,
    ent ''rt_sigqueueinfo'' 3 32,
    ent ''rt_sigsuspend'' 2 32,
    ent ''pread64'' 6 32,
    ent ''pwrite64'' 6 32,
    ent ''chown'' 3 32,
    ent ''getcwd'' 2 32,
    ent ''capget'' 2 32,
    ent ''capset'' 2 32,
    ent ''sigaltstack'' 2 32,
    ent ''sendfile'' 4 32,
    ent ''getpmsg'' 5 32,
    ent ''putpmsg'' 5 32,
    ent ''vfork'' 0 32,
    ent ''ugetrlimit'' 2 32,
    ent ''mmap2'' 6 32,
    ent ''truncate64'' 4 32,
    ent ''ftruncate64'' 4 32,
    ent ''stat64'' 2 32,
    ent ''lstat64'' 2 32,
    ent ''fstat64'' 2 32,
    ent ''lchown32'' 3 32,
    ent ''getuid32'' 0 32,
    ent ''getgid32'' 0 32,
    ent ''geteuid32'' 0 32,
    ent ''getegid32'' 0 32,
    ent ''setreuid32'' 2 32,
    ent ''setregid32'' 2 32,
    ent ''getgroups32'' 2 32,
    ent ''setgroups32'' 2 32,
    ent ''fchown32'' 3 32,
    ent ''setresuid32'' 3 32,
    ent ''getresuid32'' 3 32,
    ent ''setresgid32'' 3 32,
    ent ''getresgid32'' 3 32,
    ent ''chown32'' 3 32,
    ent ''setuid32'' 1 32,
    ent ''setgid32'' 1 32,
    ent ''setfsuid32'' 1 32,
    ent ''setfsgid32'' 1 32,
    ent ''getdents64'' 3 32,
    ent ''pivot_root'' 2 32,
    ent ''mincore'' 3 32,
    ent ''madvise'' 3 32,
    ent ''fcntl64'' 3 32,
    unassigned 32,
    unassigned 32,
    ent ''gettid'' 0 32,
    ent ''readahead'' 5 32,
    ent ''setxattr'' 5 32,
    ent ''lsetxattr'' 5 32,
    ent ''fsetxattr'' 5 32,
    ent ''getxattr'' 4 32,
    ent ''lgetxattr'' 4 32,
    ent ''fgetxattr'' 4 32,
    ent ''listxattr'' 3 32,
    ent ''llistxattr'' 3 32,
    ent ''flistxattr'' 3 32,
    ent ''removexattr'' 2 32]"

definition syscall_tables_32_part3 :: "syscall_entry_t list" where
  "syscall_tables_32_part3 = [
    ent ''lremovexattr'' 2 32,
    ent ''fremovexattr'' 2 32,
    ent ''tkill'' 2 32,
    ent ''sendfile64'' 4 32,
    ent ''futex'' 6 32,
    ent ''sched_setaffinity'' 3 32,
    ent ''sched_getaffinity'' 3 32,
    ent ''io_setup'' 2 32,
    ent ''io_destroy'' 1 32,
    ent ''io_getevents'' 5 32,
    ent ''io_submit'' 3 32,
    ent ''io_cancel'' 3 32,
    ent ''exit_group'' 1 32,
    ent ''lookup_dcookie'' 4 32,
    ent ''epoll_create'' 1 32,
    ent ''epoll_ctl'' 4 32,
    ent ''epoll_wait'' 4 32,
    ent ''remap_file_pages'' 5 32,
    unassigned 32,
    unassigned 32,
    ent ''set_tid_address'' 1 32,
    ent ''timer_create'' 3 32,
    ent ''timer_settime'' 4 32,
    ent ''timer_gettime'' 2 32,
    ent ''timer_getoverrun'' 1 32,
    ent ''timer_delete'' 1 32,
    ent ''clock_settime'' 2 32,
    ent ''clock_gettime'' 2 32,
    ent ''clock_getres'' 2 32,
    ent ''clock_nanosleep'' 4 32,
    ent ''statfs64'' 3 32,
    ent ''fstatfs64'' 3 32,
    ent ''tgkill'' 3 32,
    ent ''utimes'' 2 32,
    ent ''fadvise64_64'' 6 32,
    ent ''pciconfig_iobase'' 3 32,
    ent ''pciconfig_read'' 5 32,
    ent ''pciconfig_write'' 5 32,
    ent ''mq_open'' 4 32,
    ent ''mq_unlink'' 1 32,
    ent ''mq_timedsend'' 5 32,
    ent ''mq_timedreceive'' 5 32,
    ent ''mq_notify'' 2 32,
    ent ''mq_getsetattr'' 3 32,
    ent ''waitid'' 5 32,
    ent ''socket'' 3 32,
    ent ''bind'' 3 32,
    ent ''connect'' 3 32,
    ent ''listen'' 2 32,
    ent ''accept'' 3 32,
    ent ''getsockname'' 3 32,
    ent ''getpeername'' 3 32,
    ent ''socketpair'' 4 32,
    ent ''send'' 4 32,
    ent ''sendto'' 6 32,
    ent ''recv'' 4 32,
    ent ''recvfrom'' 6 32,
    ent ''shutdown'' 2 32,
    ent ''setsockopt'' 5 32,
    ent ''getsockopt'' 5 32,
    ent ''sendmsg'' 3 32,
    ent ''recvmsg'' 3 32,
    ent ''semop'' 3 32,
    ent ''semget'' 3 32,
    ent ''semctl'' 4 32,
    ent ''msgsnd'' 4 32,
    ent ''msgrcv'' 5 32,
    ent ''msgget'' 2 32,
    ent ''msgctl'' 3 32,
    ent ''shmat'' 3 32,
    ent ''shmdt'' 1 32,
    ent ''shmget'' 3 32,
    ent ''shmctl'' 3 32,
    ent ''add_key'' 5 32,
    ent ''request_key'' 4 32,
    ent ''keyctl'' 5 32,
    ent ''semtimedop'' 4 32,
    ent ''vserver'' 5 32,
    ent ''ioprio_set'' 3 32,
    ent ''ioprio_get'' 2 32,
    ent ''inotify_init'' 0 32,
    ent ''inotify_add_watch'' 3 32,
    ent ''inotify_rm_watch'' 2 32,
    ent ''mbind'' 6 32,
    ent ''get_mempolicy'' 5 32,
    ent ''set_mempolicy'' 3 32,
    ent ''openat'' 4 32,
    ent ''mkdirat'' 3 32,
    ent ''mknodat'' 4 32,
    ent ''fchownat'' 5 32,
    ent ''futimesat'' 3 32,
    ent ''fstatat64'' 4 32,
    ent ''unlinkat'' 3 32,
    ent ''renameat'' 4 32,
    ent ''linkat'' 5 32,
    ent ''symlinkat'' 3 32,
    ent ''readlinkat'' 4 32,
    ent ''fchmodat'' 3 32,
    ent ''faccessat'' 3 32,
    ent ''pselect6'' 6 32,
    ent ''ppoll'' 5 32,
    ent ''unshare'' 1 32,
    ent ''set_robust_list'' 2 32,
    ent ''get_robust_list'' 3 32,
    ent ''splice'' 6 32,
    ent ''sync_file_range2'' 6 32,
    ent ''tee'' 4 32,
    ent ''vmsplice'' 4 32,
    ent ''move_pages'' 6 32,
    ent ''getcpu'' 3 32,
    ent ''epoll_pwait'' 6 32,
    ent ''kexec_load'' 4 32,
    ent ''utimensat'' 4 32,
    ent ''signalfd'' 3 32,
    ent ''timerfd_create'' 2 32,
    ent ''eventfd'' 1 32,
    ent ''fallocate'' 6 32,
    ent ''timerfd_settime'' 4 32]"

definition syscall_tables_32_part4 :: "syscall_entry_t list" where
  "syscall_tables_32_part4 = [
    ent ''timerfd_gettime'' 2 32,
    ent ''signalfd4'' 4 32,
    ent ''eventfd2'' 2 32,
    ent ''epoll_create1'' 1 32,
    ent ''dup3'' 3 32,
    ent ''pipe2'' 2 32,
    ent ''inotify_init1'' 1 32,
    ent ''preadv'' 5 32,
    ent ''pwritev'' 5 32,
    ent ''rt_tgsigqueueinfo'' 4 32,
    ent ''perf_event_open'' 5 32,
    ent ''recvmmsg'' 5 32,
    ent ''accept4'' 4 32,
    ent ''fanotify_init'' 2 32,
    ent ''fanotify_mark'' 6 32,
    ent ''prlimit64'' 4 32,
    ent ''name_to_handle_at'' 5 32,
    ent ''open_by_handle_at'' 3 32,
    ent ''clock_adjtime'' 2 32,
    ent ''syncfs'' 1 32,
    ent ''sendmmsg'' 4 32,
    ent ''setns'' 2 32,
    ent ''process_vm_readv'' 6 32,
    ent ''process_vm_writev'' 6 32,
    ent ''kcmp'' 5 32,
    ent ''finit_module'' 3 32,
    ent ''sched_setattr'' 3 32,
    ent ''sched_getattr'' 4 32,
    ent ''renameat2'' 5 32,
    ent ''seccomp'' 3 32,
    ent ''getrandom'' 3 32,
    ent ''memfd_create'' 2 32,
    ent ''bpf'' 3 32,
    ent ''execveat'' 5 32,
    ent ''userfaultfd'' 1 32,
    ent ''membarrier'' 3 32,
    ent ''mlock2'' 3 32,
    ent ''copy_file_range'' 6 32,
    ent ''preadv2'' 6 32,
    ent ''pwritev2'' 6 32,
    ent ''pkey_mprotect'' 4 32,
    ent ''pkey_alloc'' 2 32,
    ent ''pkey_free'' 1 32,
    ent ''statx'' 5 32,
    ent ''rseq'' 4 32,
    ent ''io_pgetevents'' 6 32,
    ent ''migrate_pages'' 4 32,
    ent ''kexec_file_load'' 5 32,
    unassigned 32,
    ent ''clock_gettime64'' 2 32,
    ent ''clock_settime64'' 2 32,
    ent ''clock_adjtime64'' 2 32,
    ent ''clock_getres_time64'' 2 32,
    ent ''clock_nanosleep_time64'' 4 32,
    ent ''timer_gettime64'' 2 32,
    ent ''timer_settime64'' 4 32,
    ent ''timerfd_gettime64'' 2 32,
    ent ''timerfd_settime64'' 4 32,
    ent ''utimensat_time64'' 4 32,
    ent ''pselect6_time64'' 6 32,
    ent ''ppoll_time64'' 5 32,
    unassigned 32,
    ent ''io_pgetevents_time64'' 6 32,
    ent ''recvmmsg_time64'' 5 32,
    ent ''mq_timedsend_time64'' 5 32,
    ent ''mq_timedreceive_time64'' 5 32,
    ent ''semtimedop_time64'' 4 32,
    ent ''rt_sigtimedwait_time64'' 4 32,
    ent ''futex_time64'' 6 32,
    ent ''sched_rr_get_interval_time64'' 2 32,
    ent ''pidfd_send_signal'' 4 32,
    ent ''io_uring_setup'' 2 32,
    ent ''io_uring_enter'' 6 32,
    ent ''io_uring_register'' 4 32,
    ent ''open_tree'' 3 32,
    ent ''move_mount'' 5 32,
    ent ''fsopen'' 2 32,
    ent ''fsconfig'' 5 32,
    ent ''fsmount'' 3 32,
    ent ''fspick'' 3 32,
    ent ''pidfd_open'' 2 32,
    ent ''clone3'' 2 32,
    ent ''close_range'' 3 32,
    ent ''openat2'' 4 32,
    ent ''pidfd_getfd'' 3 32,
    ent ''faccessat2'' 4 32,
    ent ''process_madvise'' 5 32,
    ent ''epoll_pwait2'' 6 32,
    ent ''mount_setattr'' 5 32,
    ent ''quotactl_fd'' 4 32,
    ent ''landlock_create_ruleset'' 3 32,
    ent ''landlock_add_rule'' 4 32,
    ent ''landlock_restrict_self'' 2 32,
    ent ''memfd_secret'' 1 32,
    ent ''process_mrelease'' 2 32,
    ent ''futex_waitv'' 5 32,
    ent ''set_mempolicy_home_node'' 4 32,
    ent ''cachestat'' 4 32,
    ent ''fchmodat2'' 4 32,
    ent ''map_shadow_stack'' 3 32,
    ent ''futex_wake'' 4 32,
    ent ''futex_wait'' 6 32,
    ent ''futex_requeue'' 4 32,
    ent ''statmount'' 4 32,
    ent ''listmount'' 4 32,
    ent ''lsm_get_self_attr'' 4 32,
    ent ''lsm_set_self_attr'' 4 32,
    ent ''lsm_list_modules'' 3 32,
    ent ''mseal'' 3 32,
    ent ''setxattrat'' 6 32,
    ent ''getxattrat'' 6 32,
    ent ''listxattrat'' 5 32,
    ent ''removexattrat'' 4 32,
    ent ''open_tree_attr'' 5 32,
    ent ''file_getattr'' 5 32,
    ent ''file_setattr'' 5 32,
    ent ''listns'' 4 32,
    ent ''rseq_slice_yield'' 0 32,
    ent ''fchroot'' 2 32]"

definition syscall_tables_32 :: "syscall_entry_t list" where
  "syscall_tables_32 = syscall_tables_32_part1 @ syscall_tables_32_part2 @ syscall_tables_32_part3 @ syscall_tables_32_part4"

lemmas syscall_tables_32_parts = syscall_tables_32_part1_def syscall_tables_32_part2_def syscall_tables_32_part3_def syscall_tables_32_part4_def

lemma syscall_tables_32_part1_entries: "list_all (entry_ok 32) syscall_tables_32_part1"
  by (simp add: syscall_tables_32_part1_def entry_ok_def)

lemma syscall_tables_32_part2_entries: "list_all (entry_ok 32) syscall_tables_32_part2"
  by (simp add: syscall_tables_32_part2_def entry_ok_def)

lemma syscall_tables_32_part3_entries: "list_all (entry_ok 32) syscall_tables_32_part3"
  by (simp add: syscall_tables_32_part3_def entry_ok_def)

lemma syscall_tables_32_part4_entries: "list_all (entry_ok 32) syscall_tables_32_part4"
  by (simp add: syscall_tables_32_part4_def entry_ok_def)

lemma syscall_tables_32_length: "length syscall_tables_32 = SYSCALL_TABLE_SIZE"
  by (simp add: syscall_tables_32_def syscall_tables_32_parts SYSCALL_TABLE_SIZE_def)

lemma syscall_tables_32_names_distinct: "names_distinct (table_names syscall_tables_32)"
  by code_simp

lemma syscall_tables_32_ok: "table_ok 32 syscall_tables_32"
  unfolding table_ok_def
  using syscall_tables_32_length names_distinctD [OF syscall_tables_32_names_distinct]
  by (simp add: syscall_tables_32_def syscall_tables_32_part1_entries syscall_tables_32_part2_entries syscall_tables_32_part3_entries syscall_tables_32_part4_entries)

end
