(* ===== verification/Sd_Values.thy ===== *)
theory Sd_Values
  imports Trace_Prelude
begin

text \<open>
  Scalars of \<open>src/sysdecode.c\<close>: the ABI, the decoder's event, and the conversions of raw
  register values (narrowing to 32 bits, sign extension, pointers and their tags, register
  pairs), with their bounds, the error range of return values and the round trip of a 64-bit
  argument through an aligned register pair.
\<close>

unbundle bit_operations_syntax

section \<open>The ABI and the decoder's event\<close>

datatype sd_abi = SD_ABI_ARM64 | SD_ABI_ARM_EABI

instantiation sd_abi :: enum
begin

definition enum_sd_abi :: "sd_abi list" where
  "enum_sd_abi = [SD_ABI_ARM64, SD_ABI_ARM_EABI]"

definition enum_all_sd_abi :: "(sd_abi \<Rightarrow> bool) \<Rightarrow> bool" where
  "enum_all_sd_abi P \<longleftrightarrow> P SD_ABI_ARM64 \<and> P SD_ABI_ARM_EABI"

definition enum_ex_sd_abi :: "(sd_abi \<Rightarrow> bool) \<Rightarrow> bool" where
  "enum_ex_sd_abi P \<longleftrightarrow> P SD_ABI_ARM64 \<or> P SD_ABI_ARM_EABI"

instance
proof
  have two: "a = SD_ABI_ARM64 \<or> a = SD_ABI_ARM_EABI" for a :: sd_abi by (cases a) simp_all
  show "(UNIV :: sd_abi set) = set (enum_class.enum :: sd_abi list)" using two by (auto simp: enum_sd_abi_def)
  show "distinct (enum_class.enum :: sd_abi list)" by (simp add: enum_sd_abi_def)
  show "enum_class.enum_all P \<longleftrightarrow> Ball UNIV P" for P :: "sd_abi \<Rightarrow> bool"
    unfolding enum_all_sd_abi_def using two by (metis UNIV_I)
  show "enum_class.enum_ex P \<longleftrightarrow> Bex UNIV P" for P :: "sd_abi \<Rightarrow> bool"
    unfolding enum_ex_sd_abi_def using two by (metis UNIV_I)
qed

end

record sd_event =
  ev_abi :: sd_abi
  ev_nr :: u32
  ev_pid :: u32
  ev_tid :: u32
  ev_args :: "u64 list"
  ev_retval :: s64
  ev_timestamp_ns :: u64
  ev_duration_ns :: u64

text \<open>
  \<open>ev->args[i]\<close>. The array has six elements and every index of the code is a literal or an
  \<open>aux\<close> of the call table, which \<open>Sd_Calls\<close> proves to be in range; an index outside the
  array, undefined in C, reads 0 here.
\<close>

definition arg :: "sd_event \<Rightarrow> int \<Rightarrow> u64" where
  "arg ev i = (if 0 \<le> i \<and> i < 6 then ev_args ev ! nat i else 0)"

section \<open>Casts\<close>

definition to_u32 :: "u64 \<Rightarrow> u32" where "to_u32 v = ucast v"

text \<open>\<open>(int32_t)(uint32_t)v\<close> and \<open>(int64_t)v\<close> as integers.\<close>

definition as_i32 :: "u64 \<Rightarrow> int" where "as_i32 v = sint (to_u32 v)"
definition as_i64 :: "u64 \<Rightarrow> int" where "as_i64 v = sint v"

lemma unat_to_u32: "unat (to_u32 v) = unat v mod 2 ^ 32"
  by (simp add: to_u32_def unat_ucast)

section \<open>Normalisation\<close>

definition syscall_normalize_arg :: "u32 \<Rightarrow> u64 \<Rightarrow> u64" where
  "syscall_normalize_arg abi_bits raw = (if abi_bits = 32 then ucast (to_u32 raw) else raw)"

definition syscall_normalize_retval :: "u32 \<Rightarrow> u64 \<Rightarrow> s64" where
  "syscall_normalize_retval abi_bits raw = (if abi_bits = 32 then scast (to_u32 raw) else raw)"

definition syscall_ret_is_error :: "s64 \<Rightarrow> bool" where
  "syscall_ret_is_error r \<longleftrightarrow> sint r < 0 \<and> - 4095 \<le> sint r"

definition sd_normalize_arg :: "sd_abi \<Rightarrow> u64 \<Rightarrow> u64" where
  "sd_normalize_arg abi raw = syscall_normalize_arg (if abi = SD_ABI_ARM_EABI then 32 else 64) raw"

definition sd_normalize_retval :: "sd_abi \<Rightarrow> u64 \<Rightarrow> s64" where
  "sd_normalize_retval abi raw = syscall_normalize_retval (if abi = SD_ABI_ARM_EABI then 32 else 64) raw"

definition sd_is_linux_error :: "s64 \<Rightarrow> bool" where
  "sd_is_linux_error r = syscall_ret_is_error r"

lemma sd_normalize_arg_simps [simp]:
  "sd_normalize_arg SD_ABI_ARM64 v = v"
  "sd_normalize_arg SD_ABI_ARM_EABI v = ucast (to_u32 v)"
  by (simp_all add: sd_normalize_arg_def syscall_normalize_arg_def)

lemma unat_normalize_arg:
  "unat (sd_normalize_arg abi v) = (case abi of SD_ABI_ARM64 \<Rightarrow> unat v | SD_ABI_ARM_EABI \<Rightarrow> unat v mod 2 ^ 32)"
  by (cases abi) (simp_all add: unat_ucast unat_to_u32)

lemma sint_normalize_retval_32: "sint (syscall_normalize_retval 32 raw) = as_i32 raw"
proof -
  have "signed_take_bit 63 (sint (w :: u32)) = sint w" for w
    using sint_greater_eq [of w] sint_less [of w] by (simp add: signed_take_bit_int_eq_self)
  then show ?thesis by (simp add: syscall_normalize_retval_def as_i32_def signed_scast_eq)
qed

text \<open>
  A 32-bit return register denotes an error exactly when it lies in the last 4095
  values of its own width, whatever the upper half of the 64-bit register holds.
\<close>

lemma compat_retval_error:
  "syscall_ret_is_error (sd_normalize_retval SD_ABI_ARM_EABI raw) \<longleftrightarrow> 2 ^ 32 - 4095 \<le> unat (to_u32 raw)"
proof -
  have "unat (to_u32 raw) < 2 ^ 32" by simp
  then show ?thesis
    by (auto simp del: of_nat_unat simp: syscall_ret_is_error_def sd_normalize_retval_def sint_normalize_retval_32
        as_i32_def sint_32)
qed

section \<open>Pointers\<close>

definition ptr_value :: "sd_abi \<Rightarrow> u64 \<Rightarrow> u64" where
  "ptr_value abi v = (if abi = SD_ABI_ARM_EABI then ucast (to_u32 v) else v)"

definition read_addr :: "sd_abi \<Rightarrow> u64 \<Rightarrow> u64" where
  "read_addr abi value =
     (let v = ptr_value abi value
      in if abi = SD_ABI_ARM64 then v AND 0x00ffffffffffffff else v)"

lemma ptr_value_eq: "ptr_value abi v = sd_normalize_arg abi v"
  by (cases abi) (simp_all add: ptr_value_def)

lemma unat_and_low56: "unat (v AND 0x00ffffffffffffff :: u64) = unat v mod 2 ^ 56"
proof -
  have m: "(0x00ffffffffffffff :: u64) = mask 56" by (simp add: mask_eq_exp_minus_1)
  show ?thesis unfolding m by (simp only: take_bit_eq_mask [symmetric] unsigned_take_bit_eq) (simp add: take_bit_eq_mod)
qed

lemma unat_read_addr:
  "unat (read_addr abi v) = unat v mod 2 ^ (case abi of SD_ABI_ARM64 \<Rightarrow> 56 | SD_ABI_ARM_EABI \<Rightarrow> 32)"
  by (cases abi) (simp_all add: read_addr_def ptr_value_def Let_def unat_and_low56 unat_ucast unat_to_u32)

lemma read_addr_idem: "read_addr abi (read_addr abi v) = read_addr abi v"
  by (rule unsigned_word_eqI [where 'a = nat]) (simp add: unat_read_addr split: sd_abi.split)

section \<open>Register pairs\<close>

text \<open>The little-endian branch of \<open>arm_eabi_u64\<close>: the target is AArch64 Linux.\<close>

definition arm_eabi_u64 :: "u64 \<Rightarrow> u64 \<Rightarrow> u64" where
  "arm_eabi_u64 first second = push_bit 32 (ucast (to_u32 second)) OR ucast (to_u32 first)"

lemma unat_arm_eabi_u64: "unat (arm_eabi_u64 a b) = unat (to_u32 b) * 2 ^ 32 + unat (to_u32 a)"
proof -
  have d: "arm_eabi_u64 a b = push_bit 32 (ucast (to_u32 b)) + ucast (to_u32 a)"
    unfolding arm_eabi_u64_def
    by (rule disjunctive_add_eq_or [symmetric])
      (auto simp: bit_simps bit_eq_iff dest: bit_imp_le_length)
  have lt: "unat (to_u32 b) < 2 ^ 32" "unat (to_u32 a) < 2 ^ 32" by simp_all
  have "unat (to_u32 b) * 4294967296 + unat (to_u32 a) < 18446744073709551616"
    using unat_u32_less [of "to_u32 b"] unat_u32_less [of "to_u32 a"] by linarith
  with lt show ?thesis
    by (simp add: d unat_word_ariths push_bit_eq_mult unat_ucast)
qed

text \<open>
  A 64-bit argument passed in an aligned pair of 32-bit registers (low word first) is
  put back together exactly, whatever the upper halves of the two 64-bit slots contain.
\<close>

lemma arm_eabi_u64_pair:
  "to_u32 lo = ucast v \<Longrightarrow> to_u32 hi = ucast (drop_bit 32 v) \<Longrightarrow> arm_eabi_u64 lo hi = v"
proof (rule unsigned_word_eqI [where 'a = nat])
  assume "to_u32 lo = ucast v" "to_u32 hi = ucast (drop_bit 32 v)"
  then have "unat (to_u32 lo) = unat v mod 2 ^ 32" "unat (to_u32 hi) = unat v div 2 ^ 32 mod 2 ^ 32"
    by (simp_all only: unat_ucast unsigned_drop_bit_eq) (simp_all add: drop_bit_eq_div take_bit_eq_mod)
  moreover have "unat v div 2 ^ 32 < 2 ^ 32"
    using unsigned_less [of v] by (simp add: less_mult_imp_div_less)
  ultimately show "unat (arm_eabi_u64 lo hi) = unat v"
    by (simp add: unat_arm_eabi_u64)
qed

lemma arm_eabi_u64_pair_witness: "arm_eabi_u64 0xDEADBEEF00000010 0x2 = 0x200000010"
  by (rule arm_eabi_u64_pair) (simp_all add: to_u32_def)

end
