(* ===== verification/Out_Buffer.thy ===== *)
theory Out_Buffer
  imports Trace_Prelude
begin

text \<open>
  \<open>struct out\<close> of \<open>src/sysdecode.c\<close>: the destination buffer, its capacity and the length of
  everything printed so far, and \<open>out_vprintf\<close> / \<open>out_printf\<close>, the only routines that write
  it. The interface the printing routines rely on is the locale \<open>text_sink\<close>: printing twice is
  printing the concatenation. Its interpretation on \<open>out_printf\<close> is what turns every printing
  routine of the later theories into one append of its text (collection \<open>render\<close>).

  A \<open>size_t\<close> length is a \<open>nat\<close> here: the texts are bounded far below \<open>2^31\<close> (theory
  \<open>Sd_Decode\<close> proves the bound of the longest arguments).
\<close>

section \<open>The buffer\<close>

record out =
  o_buf :: string
  o_cap :: nat
  o_len :: nat

text \<open>
  \<open>vsnprintf(buf + at, n, ...)\<close> for a text \<open>s\<close>: with \<open>n = 0\<close> nothing is written, otherwise
  at most \<open>n - 1\<close> characters and a NUL. The returned length is that of the whole text.
\<close>

definition vsnprintf_at :: "string \<Rightarrow> nat \<Rightarrow> nat \<Rightarrow> string \<Rightarrow> string" where
  "vsnprintf_at buf at n s =
     (if n = 0 then buf
      else take at buf @ take (n - 1) s @ [NUL] @ drop (at + length (take (n - 1) s) + 1) buf)"

definition out_vprintf :: "out \<Rightarrow> string \<Rightarrow> out" where
  "out_vprintf ob s =
     (let avail = (if o_len ob < o_cap ob then o_cap ob - o_len ob else 0);
          n = length s;
          o1 = ob\<lparr>o_buf := vsnprintf_at (o_buf ob) (o_len ob) avail s\<rparr>
      in if n > 0 then o1\<lparr>o_len := o_len o1 + n\<rparr> else o1)"

definition out_printf :: "out \<Rightarrow> string \<Rightarrow> out" where
  "out_printf ob s = out_vprintf ob s"

text \<open>
  The buffer invariant: the array has its capacity, and while the text still fits it is
  NUL-terminated right after the printed characters.
\<close>

definition wf_out :: "out \<Rightarrow> bool" where
  "wf_out ob \<longleftrightarrow> length (o_buf ob) = o_cap ob \<and> (o_len ob < o_cap ob \<longrightarrow> o_buf ob ! o_len ob = NUL)"

lemma out_printf_eq:
  "out_printf ob s = ob\<lparr>o_buf := vsnprintf_at (o_buf ob) (o_len ob) (o_cap ob - o_len ob) s,
     o_len := o_len ob + length s\<rparr>"
  by (cases s) (simp_all add: out_printf_def out_vprintf_def)

lemma out_printf_fields [simp]:
  "o_len (out_printf ob s) = o_len ob + length s"
  "o_cap (out_printf ob s) = o_cap ob"
  by (simp_all add: out_printf_eq)

lemma length_vsnprintf_at:
  "at + n \<le> length buf \<Longrightarrow> length (vsnprintf_at buf at n s) = length buf"
  by (auto simp: vsnprintf_at_def)

lemma wf_out_printf [simp]: "wf_out ob \<Longrightarrow> wf_out (out_printf ob s)"
  by (auto simp: wf_out_def out_printf_eq length_vsnprintf_at vsnprintf_at_def nth_append)

lemma vsnprintf_at_Nil:
  "length buf = c \<Longrightarrow> (l < c \<Longrightarrow> buf ! l = NUL) \<Longrightarrow> vsnprintf_at buf l (c - l) [] = buf"
  using id_take_nth_drop [of l buf] by (cases "l < c") (auto simp: vsnprintf_at_def)

lemma out_printf_Nil: "wf_out ob \<Longrightarrow> out_printf ob [] = ob"
  by (simp add: out_printf_eq wf_out_def vsnprintf_at_Nil)

lemma vsnprintf_at_append:
  assumes "length buf = c"
  shows "vsnprintf_at (vsnprintf_at buf l (c - l) s) (l + length s) (c - (l + length s)) t
    = vsnprintf_at buf l (c - l) (s @ t)"
proof (cases "l + length s < c")
  case True
  with assms show ?thesis by (simp add: vsnprintf_at_def ac_simps)
next
  case False
  with assms show ?thesis by (auto simp: vsnprintf_at_def)
qed

lemma out_printf_append: "wf_out ob \<Longrightarrow> out_printf (out_printf ob s) t = out_printf ob (s @ t)"
  by (simp add: out_printf_eq wf_out_def vsnprintf_at_append add.assoc)

section \<open>The interface: a sink for text\<close>

locale text_sink =
  fixes emit :: "'o \<Rightarrow> string \<Rightarrow> 'o" and inv :: "'o \<Rightarrow> bool"
  assumes inv_emit: "inv k \<Longrightarrow> inv (emit k s)"
    and emit_append: "inv k \<Longrightarrow> emit (emit k s) t = emit k (s @ t)"
    and emit_empty: "inv k \<Longrightarrow> emit k [] = k"
begin

lemma emit_foldl: "inv k \<Longrightarrow> foldl emit k ss = emit k (concat ss)"
  by (induction ss arbitrary: k) (simp_all add: emit_empty emit_append inv_emit)

text \<open>A loop that appends one text per element appends their concatenation.\<close>

lemma emit_loop:
  assumes "inv k"
    and "\<And>k. loop k [] = k"
    and "\<And>k x xs. inv k \<Longrightarrow> loop k (x # xs) = loop (emit k (g x)) xs"
  shows "loop k xs = emit k (concat (map g xs))"
  using assms(1) by (induction xs arbitrary: k) (simp_all add: assms(2,3) emit_empty emit_append inv_emit)

text \<open>Two clients that each append a text append both in order.\<close>

lemma emit_seq:
  assumes "inv k" "\<And>k. inv k \<Longrightarrow> f k = emit k s" "\<And>k. inv k \<Longrightarrow> g k = emit k t"
  shows "g (f k) = emit k (s @ t)"
  using assms by (simp add: inv_emit emit_append)

end

interpretation outs: text_sink out_printf wf_out
  by unfold_locales (simp_all add: out_printf_append out_printf_Nil)

lemmas sink [simp] = outs.emit_append outs.emit_empty

text \<open>Branches of the code become branches of the text.\<close>

lemma out_branches [render]:
  "(if c then out_printf k s else out_printf k t) = out_printf k (if c then s else t)"
  "(case x of None \<Rightarrow> out_printf k s | Some a \<Rightarrow> out_printf k (f a)) = out_printf k (case x of None \<Rightarrow> s | Some a \<Rightarrow> f a)"
  by (auto split: option.split)

section \<open>What the caller of a printing run gets\<close>

text \<open>
  The state \<open>decode_with_table\<close> starts with: a destination of \<open>dst_size\<close> bytes (none for a
  null pointer), terminated at once when there is room.
\<close>

definition out_init :: "string \<Rightarrow> nat \<Rightarrow> out" where
  "out_init dst dst_size = \<lparr>o_buf = (if dst_size > 0 then dst[0 := NUL] else dst), o_cap = dst_size, o_len = 0\<rparr>"

lemma wf_out_init [simp]: "length dst = n \<Longrightarrow> wf_out (out_init dst n)"
  by (auto simp: wf_out_def out_init_def)

lemma out_init_len [simp]: "o_len (out_init dst n) = 0"
  by (simp add: out_init_def)

definition render_into :: "string \<Rightarrow> nat \<Rightarrow> string \<Rightarrow> string" where
  "render_into dst n s = (if n = 0 then dst else take (n - 1) s @ [NUL] @ drop (min (length s) (n - 1) + 1) dst)"

lemma out_init_printf:
  assumes "length dst = n"
  shows "o_buf (out_printf (out_init dst n) s) = render_into dst n s"
    and "o_len (out_printf (out_init dst n) s) = length s"
proof -
  have "drop (Suc k) (dst[0 := x]) = drop (Suc k) dst" for k x
    by (cases dst) simp_all
  then show "o_buf (out_printf (out_init dst n) s) = render_into dst n s"
    using assms by (simp add: out_printf_eq vsnprintf_at_def out_init_def render_into_def min.commute)
qed (simp add: out_init_def)

lemma render_into_cstr:
  assumes "length dst = n" "0 < n" "NUL \<notin> set s"
  shows "cstr (render_into dst n s) = take (n - 1) s"
proof -
  have "NUL \<notin> set (take (n - 1) s)" using assms(3) by (meson in_set_takeD)
  with assms show ?thesis by (simp add: render_into_def cstr_append_NUL)
qed

lemma render_into_length: "length dst = n \<Longrightarrow> length (render_into dst n s) = n"
  by (auto simp: render_into_def)

end
