(* ===== verification/Sd_Memory.thy ===== *)
theory Sd_Memory
  imports Sd_Values Out_Buffer
begin

text \<open>
  The decoder's options and its access to the traced process: \<open>syscall_parse_options_t\<close>,
  \<open>syscall_memory_reader_t\<close>, \<open>syscall_parser_t\<close> (\<open>include/syscall_parser.h\<close>), \<open>can_read\<close>,
  \<open>read_mem\<close> and \<open>syscall_process_vm_reader\<close> (\<open>src/sysdecode.c\<close>).

  A reader returns the bytes it copied or a negative errno-style value. What the decoder relies
  on is the locale \<open>mem_reader\<close>: never more bytes than asked for, and only bytes the process
  really has at that address.
\<close>

section \<open>Options, reader, parser\<close>

type_synonym read_fn = "u32 \<Rightarrow> u64 \<Rightarrow> nat \<Rightarrow> int + u8 list"

record syscall_parse_options =
  max_string :: nat
  max_buffer :: nat
  max_array :: nat
  dereference :: int
  symbolic :: int

text \<open>
  The reader's function pointer may be null; its \<open>opaque\<close> argument is ignored by the only reader
  of the program and left out.
\<close>

record syscall_parser =
  opt :: syscall_parse_options
  reader_read :: "read_fn option"

text \<open>
  The C library and kernel calls the decoder makes beyond printing: whether \<open>malloc\<close> of a size
  succeeds, \<open>strerror\<close>, and \<open>inet_ntop\<close> (family and address bytes; none when it fails).
\<close>

record platform =
  sys_malloc :: "nat \<Rightarrow> bool"
  sys_strerror :: "nat \<Rightarrow> string"
  sys_inet_ntop :: "nat \<Rightarrow> u8 list \<Rightarrow> string option"

definition EFAULT :: int where "EFAULT = 14"
definition EINVAL :: int where "EINVAL = 22"

definition can_read :: "syscall_parser \<Rightarrow> bool" where
  "can_read d \<longleftrightarrow> dereference (opt d) \<noteq> 0 \<and> reader_read d \<noteq> None"

definition read_mem :: "syscall_parser \<Rightarrow> sd_event \<Rightarrow> u64 \<Rightarrow> nat \<Rightarrow> int + u8 list" where
  "read_mem d ev addr sz =
     (if \<not> can_read d \<or> addr = 0 then Inl (- EFAULT)
      else the (reader_read d) (ev_pid ev) (read_addr (ev_abi ev) addr) sz)"

text \<open>
  \<open>process_vm_readv(2)\<close> with one local and one remote vector of the same length is the parameter
  \<open>readv\<close>: an errno, or the bytes transferred.
\<close>

definition syscall_process_vm_reader :: "(u32 \<Rightarrow> u64 \<Rightarrow> nat \<Rightarrow> nat + u8 list) \<Rightarrow> read_fn" where
  "syscall_process_vm_reader readv pid remote_addr len =
     (case readv pid remote_addr len of Inl errno \<Rightarrow> Inl (- int errno) | Inr bs \<Rightarrow> Inr bs)"

text \<open>
  The parser \<open>main\<close> of \<open>src/mini_etrace.c\<close> sets up after its \<open>calloc\<close>. It is also the parser of
  the witnesses.
\<close>

definition main_options :: syscall_parse_options where
  "main_options = \<lparr>max_string = 256, max_buffer = 64, max_array = 16, dereference = 1, symbolic = 1\<rparr>"

definition main_parser :: "(u32 \<Rightarrow> u64 \<Rightarrow> nat \<Rightarrow> nat + u8 list) \<Rightarrow> syscall_parser" where
  "main_parser readv = \<lparr>opt = main_options, reader_read = Some (syscall_process_vm_reader readv)\<rparr>"

lemma main_parser_simps [simp]:
  "opt (main_parser readv) = main_options"
  "reader_read (main_parser readv) = Some (syscall_process_vm_reader readv)"
  "max_string main_options = 256" "max_buffer main_options = 64" "max_array main_options = 16"
  "dereference main_options = 1" "symbolic main_options = 1"
  by (simp_all add: main_parser_def main_options_def)

section \<open>The reader's contract\<close>

locale mem_reader =
  fixes read :: read_fn and mem :: "u32 \<Rightarrow> u64 \<Rightarrow> u8 option"
  assumes read_bounded: "read pid a n = Inr bs \<Longrightarrow> length bs \<le> n"
    and read_true: "read pid a n = Inr bs \<Longrightarrow> i < length bs \<Longrightarrow> mem pid (a + of_nat i) = Some (bs ! i)"
begin

lemma read_mem_bounded:
  assumes "reader_read d = Some read" "read_mem d ev addr n = Inr bs"
  shows "length bs \<le> n"
  using assms read_bounded by (auto simp: read_mem_def split: if_splits)

lemma read_mem_true:
  assumes "reader_read d = Some read" "read_mem d ev addr n = Inr bs" "i < length bs"
  shows "mem (ev_pid ev) (read_addr (ev_abi ev) addr + of_nat i) = Some (bs ! i)"
  using assms read_true by (auto simp: read_mem_def split: if_splits)

end

section \<open>A kernel that copies what is mapped\<close>

text \<open>
  The documented behaviour of \<open>process_vm_readv\<close> on an address space \<open>m\<close>: the bytes from the
  given address up to the first unmapped one, \<open>EFAULT\<close> when there is none. It is the instance
  the witnesses evaluate; the definitions above take any \<open>readv\<close>.
\<close>

fun mapped_prefix :: "(u64 \<Rightarrow> u8 option) \<Rightarrow> u64 \<Rightarrow> nat \<Rightarrow> u8 list" where
  "mapped_prefix m a 0 = []"
| "mapped_prefix m a (Suc n) = (case m a of None \<Rightarrow> [] | Some b \<Rightarrow> b # mapped_prefix m (a + 1) n)"

definition mapped_readv :: "(u32 \<Rightarrow> u64 \<Rightarrow> u8 option) \<Rightarrow> u32 \<Rightarrow> u64 \<Rightarrow> nat \<Rightarrow> nat + u8 list" where
  "mapped_readv m pid a n =
     (if n = 0 then Inr []
      else case mapped_prefix (m pid) a n of [] \<Rightarrow> Inl 14 | bs \<Rightarrow> Inr bs)"

text \<open>A process with the four bytes \<open>hi\<close>, NUL, \<open>!\<close> at \<open>0x1000\<close> and nothing else mapped, and an event of it.\<close>

definition demo_mem :: "u32 \<Rightarrow> u64 \<Rightarrow> u8 option" where
  "demo_mem pid a = (if a = 0x1000 then Some 0x68 else if a = 0x1001 then Some 0x69
     else if a = 0x1002 then Some 0 else if a = 0x1003 then Some 0x21 else None)"

definition demo_event :: "u32 \<Rightarrow> u64 list \<Rightarrow> s64 \<Rightarrow> sd_event" where
  "demo_event nr as ret = \<lparr>ev_abi = SD_ABI_ARM64, ev_nr = nr, ev_pid = 7, ev_tid = 8, ev_args = as,
     ev_retval = ret, ev_timestamp_ns = 0, ev_duration_ns = 1500000\<rparr>"

definition demo_out :: out where
  "demo_out = out_init (replicate 80 NUL) 80"

lemma wf_demo_out [simp]: "wf_out demo_out"
  by (simp add: demo_out_def)

definition demo_platform :: platform where
  "demo_platform = \<lparr>sys_malloc = (\<lambda>n. True), sys_strerror = (\<lambda>e. ''error'' @ fmt_u e), sys_inet_ntop = (\<lambda>f bs. None)\<rparr>"

lemma demo_simps [simp]:
  "ev_abi (demo_event nr as r) = SD_ABI_ARM64" "ev_nr (demo_event nr as r) = nr"
  "ev_pid (demo_event nr as r) = 7" "ev_tid (demo_event nr as r) = 8"
  "ev_args (demo_event nr as r) = as" "ev_retval (demo_event nr as r) = r"
  "ev_duration_ns (demo_event nr as r) = 1500000"
  "sys_malloc demo_platform n" "sys_inet_ntop demo_platform f bs = None"
  "sys_strerror demo_platform e = ''error'' @ fmt_u e"
  by (simp_all add: demo_event_def demo_platform_def)

lemma mapped_prefix_length: "length (mapped_prefix m a n) \<le> n"
  by (induction m a n rule: mapped_prefix.induct) (auto split: option.splits)

lemma mapped_prefix_nth:
  "i < length (mapped_prefix m a n) \<Longrightarrow> m (a + of_nat i) = Some (mapped_prefix m a n ! i)"
proof (induction m a n arbitrary: i rule: mapped_prefix.induct)
  case (2 m a n)
  show ?case
  proof (cases "m a")
    case (Some b)
    with 2 show ?thesis by (cases i) (auto simp: add.assoc)
  qed (use 2 in simp)
qed simp

lemma take_mapped_prefix: "k \<le> n \<Longrightarrow> take k (mapped_prefix m a n) = mapped_prefix m a k"
proof (induction m a n arbitrary: k rule: mapped_prefix.induct)
  case (2 m a n)
  show ?case
  proof (cases k)
    case (Suc j)
    with 2 show ?thesis by (cases "m a") simp_all
  qed simp
qed simp

lemma mapped_prefix_add:
  "length (mapped_prefix m a j) = j \<Longrightarrow>
   mapped_prefix m a (j + n) = mapped_prefix m a j @ mapped_prefix m (a + of_nat j) n"
proof (induction m a j rule: mapped_prefix.induct)
  case (2 m a j)
  show ?case
  proof (cases "m a")
    case (Some b)
    with 2 show ?thesis by (simp add: add.assoc)
  qed (use 2 in simp)
qed simp

lemma mapped_prefix_short:
  assumes "length (mapped_prefix m a k) < k" "k \<le> n"
  shows "mapped_prefix m a n = mapped_prefix m a k"
  using assms
proof (induction m a n arbitrary: k rule: mapped_prefix.induct)
  case (2 m a n)
  show ?case
  proof (cases k)
    case (Suc j)
    with 2 show ?thesis by (cases "m a") auto
  qed (use 2 in simp)
qed simp

lemma mapped_prefix_numeral:
  "mapped_prefix m a (numeral k) = (case m a of None \<Rightarrow> [] | Some b \<Rightarrow> b # mapped_prefix m (a + 1) (pred_numeral k))"
  by (simp add: numeral_eq_Suc)

lemma demo_prefix: "5 \<le> n \<Longrightarrow> mapped_prefix (demo_mem p) 0x1000 n = [0x68, 0x69, 0, 0x21]"
proof -
  have five: "mapped_prefix (demo_mem p) 0x1000 5 = [0x68, 0x69, 0, 0x21]"
    by (simp add: demo_mem_def mapped_prefix_numeral)
  assume "5 \<le> n"
  then show ?thesis using mapped_prefix_short [of "demo_mem p" "0x1000" 5 n] five by simp
qed

interpretation vm: mem_reader "syscall_process_vm_reader (mapped_readv m)" m
  for m :: "u32 \<Rightarrow> u64 \<Rightarrow> u8 option"
proof
  fix pid a n bs
  assume "syscall_process_vm_reader (mapped_readv m) pid a n = Inr bs"
  then have bs: "bs = [] \<or> bs = mapped_prefix (m pid) a n"
    by (auto simp: syscall_process_vm_reader_def mapped_readv_def split: if_splits list.splits)
  then show "length bs \<le> n" using mapped_prefix_length [of "m pid" a n] by auto
  show "m pid (a + of_nat i) = Some (bs ! i)" if "i < length bs" for i
    using bs that mapped_prefix_nth [of i "m pid" a n] by auto
qed

end
