(* ===== verification/Sd_Strings.thy ===== *)
theory Sd_Strings
  imports Sd_Memory Out_Buffer Name_Order
begin

text \<open>
  Pointers, quoted data and strings of \<open>src/sysdecode.c\<close>: \<open>print_ptr\<close>, \<open>print_quoted\<close>,
  \<open>print_cstring\<close>, \<open>print_buffer\<close>. Each routine is modelled on the output state as the code
  writes it; next to it stands the text it appends (\<open>..._text\<close>), and the collection \<open>render\<close>
  holds the equation between the two.

  Results: the quoting is injective and self-delimiting (a reader gets the bytes back), every
  text is printable, the 32-byte chunked string read equals one pass over the mapped bytes, and
  never more than \<open>max_string\<close> or \<open>max_buffer\<close> bytes are shown.
\<close>

section \<open>Pointers\<close>

definition print_ptr :: "out \<Rightarrow> sd_abi \<Rightarrow> u64 \<Rightarrow> out" where
  "print_ptr ob abi value =
     (let v = ptr_value abi value
      in if v = 0 then out_printf ob ''NULL'' else out_printf ob (''0x'' @ fmt_x (unat v)))"

definition ptr_text :: "sd_abi \<Rightarrow> u64 \<Rightarrow> string" where
  "ptr_text abi v = (if ptr_value abi v = 0 then ''NULL'' else ''0x'' @ fmt_x (unat (ptr_value abi v)))"

lemma print_ptr_render [render, simp]: "print_ptr ob abi v = out_printf ob (ptr_text abi v)"
  by (simp add: print_ptr_def ptr_text_def Let_def)

lemma ptr_text_clean [clean, simp]: "clean (ptr_text abi v)"
  by (simp add: ptr_text_def)

section \<open>Quoted bytes\<close>

text \<open>What the \<open>switch\<close> prints for one byte.\<close>

definition escape :: "u8 \<Rightarrow> string" where
  "escape c =
     (if c = 0x5C then [BACKSLASH, BACKSLASH]
      else if c = 0x22 then [BACKSLASH, DQUOTE]
      else if c = 0x0A then BACKSLASH # ''n''
      else if c = 0x0D then BACKSLASH # ''r''
      else if c = 0x09 then BACKSLASH # ''t''
      else if 0x20 \<le> c \<and> c < 0x7F then [byte_char c]
      else BACKSLASH # ''x'' @ zero_pad 2 (fmt_x (unat c)))"

fun print_quoted_loop :: "out \<Rightarrow> u8 list \<Rightarrow> out" where
  "print_quoted_loop ob [] = ob"
| "print_quoted_loop ob (c # p) = print_quoted_loop (out_printf ob (escape c)) p"

definition print_quoted :: "out \<Rightarrow> u8 list \<Rightarrow> bool \<Rightarrow> out" where
  "print_quoted ob p ellipsis =
     (let ob1 = out_printf ob [DQUOTE];
          ob2 = print_quoted_loop ob1 p;
          ob3 = out_printf ob2 [DQUOTE]
      in if ellipsis then out_printf ob3 ''...'' else ob3)"

definition quoted_text :: "u8 list \<Rightarrow> bool \<Rightarrow> string" where
  "quoted_text p ellipsis = DQUOTE # concat (map escape p) @ DQUOTE # (if ellipsis then ''...'' else [])"

lemma print_quoted_loop_render: "wf_out ob \<Longrightarrow> print_quoted_loop ob p = out_printf ob (concat (map escape p))"
  by (rule outs.emit_loop) simp_all

lemma print_quoted_render [render, simp]:
  "wf_out ob \<Longrightarrow> print_quoted ob p e = out_printf ob (quoted_text p e)"
  by (simp add: print_quoted_def quoted_text_def print_quoted_loop_render Let_def)

lemma printable_byte_char: "0x20 \<le> c \<Longrightarrow> c < 0x7F \<Longrightarrow> printable (byte_char c)"
  by (simp add: printable_def word_le_nat_alt word_less_nat_alt)

lemma escape_clean: "clean (escape c)"
  by (simp add: escape_def printable_byte_char)

lemma quoted_text_clean [clean, simp]: "clean (quoted_text p e)"
  using escape_clean by (auto simp: quoted_text_def intro!: clean_concat)

subsection \<open>Reading quoted bytes back\<close>

fun unquote_body :: "string \<Rightarrow> (u8 list \<times> string) option" where
  "unquote_body [] = None"
| "unquote_body (c # s) =
     (if c = DQUOTE then Some ([], s)
      else if c \<noteq> BACKSLASH then map_option (apfst (Cons (char_byte c))) (unquote_body s)
      else case s of
          [] \<Rightarrow> None
        | e # r \<Rightarrow>
            if e = CHR ''x'' then
              (case r of h # l # r' \<Rightarrow> map_option (apfst (Cons (word_of_nat (undigits 16 [h, l])))) (unquote_body r')
               | _ \<Rightarrow> None)
            else map_option (apfst (Cons (if e = CHR ''n'' then 0x0A else if e = CHR ''r'' then 0x0D
                                          else if e = CHR ''t'' then 0x09 else char_byte e)))
                   (unquote_body r))"

definition unquote :: "string \<Rightarrow> (u8 list \<times> string) option" where
  "unquote s = (case s of c # t \<Rightarrow> if c = DQUOTE then unquote_body t else None | [] \<Rightarrow> None)"

lemma two_hex_digits:
  assumes "n < 256"
  shows "zero_pad 2 (fmt_x n) = [digit_char (n div 16), digit_char (n mod 16)]"
proof (cases "n < 16")
  case True
  then show ?thesis by (simp add: fmt_x_def digits_small zero_pad_def digit_char_def)
next
  case False
  with assms have "digits 16 n = [digit_char (n div 16), digit_char (n mod 16)]"
    by (simp add: digits_big digits_small)
  then show ?thesis by (simp add: fmt_x_def zero_pad_def)
qed

lemma undigits_two: "n < 256 \<Longrightarrow> undigits 16 [digit_char (n div 16), digit_char (n mod 16)] = n"
  by (simp add: undigits_def digit_char_facts)

lemma char_byte_consts: "char_byte BACKSLASH = 0x5C" "char_byte DQUOTE = 0x22"
  by (simp_all add: char_byte_def)

lemma byte_char_eq: "byte_char c = x \<longleftrightarrow> c = char_byte x"
proof
  assume "c = char_byte x"
  moreover have "of_char x < (256 :: nat)" by simp
  ultimately have "unat c = of_char x"
    by (simp add: char_byte_def unsigned_of_nat take_bit_eq_mod)
  then show "byte_char c = x" by (simp add: byte_char_def)
qed auto

lemma unquote_escape: "unquote_body (escape c @ s) = map_option (apfst (Cons c)) (unquote_body s)"
proof -
  consider "c = 0x5C" | "c = 0x22" | "c = 0x0A" | "c = 0x0D" | "c = 0x09"
    | (plain) "c \<noteq> 0x5C" "c \<noteq> 0x22" "0x20 \<le> c" "c < 0x7F" "escape c = [byte_char c]"
    | (hex) "escape c = BACKSLASH # ''x'' @ zero_pad 2 (fmt_x (unat c))"
    by (metis escape_def)
  then show ?thesis
  proof cases
    case plain
    then show ?thesis by (simp add: byte_char_eq char_byte_consts)
  next
    case hex
    then show ?thesis by (simp add: two_hex_digits undigits_two unat_u8_less)
  qed (simp_all add: escape_def char_byte_consts)
qed

lemma unquote_escapes: "unquote_body (concat (map escape p) @ DQUOTE # s) = Some (p, s)"
  by (induction p) (simp_all add: unquote_escape)

text \<open>
  Claim C25. What \<open>print_quoted\<close> appends can be read back: the bytes are recovered exactly and
  the closing quote is found, whatever follows, so two different buffers never print alike and
  data can not run over into the next argument.
\<close>

lemma print_quoted_roundtrip:
  assumes "wf_out ob"
  shows "\<exists>t. print_quoted ob p e = out_printf ob t \<and>
    (\<forall>rest. unquote (t @ rest) = Some (p, (if e then ''...'' else []) @ rest))"
proof (intro exI conjI allI)
  show "print_quoted ob p e = out_printf ob (quoted_text p e)" using assms by simp
  show "unquote (quoted_text p e @ rest) = Some (p, (if e then ''...'' else []) @ rest)" for rest
    by (simp add: unquote_def quoted_text_def unquote_escapes)
qed

lemma print_quoted_roundtrip_witness:
  "\<exists>t. print_quoted (out_init ''........'' 8) [0x41, 0x22, 0, 0x0A] False = out_printf (out_init ''........'' 8) t \<and>
    (\<forall>rest. unquote (t @ rest) = Some ([0x41, 0x22, 0, 0x0A], rest))"
  using print_quoted_roundtrip [of "out_init ''........'' 8" "[0x41, 0x22, 0, 0x0A]" False] by simp

section \<open>Strings in the traced process\<close>

text \<open>
  The loop of \<open>print_cstring\<close>: \<open>buf\<close> holds the \<open>used\<close> bytes read so far. It stops at a NUL
  (terminated), at a failed or short read, or at the limit.
\<close>

definition chunk_size :: "nat \<Rightarrow> nat \<Rightarrow> nat" where
  "chunk_size mx used = (if mx - used > 32 then 32 else mx - used)"

lemma chunk_size_bounds: "used < mx \<Longrightarrow> 0 < chunk_size mx used" "used < mx \<Longrightarrow> used + chunk_size mx used \<le> mx"
  by (auto simp: chunk_size_def)

function cstring_loop :: "syscall_parser \<Rightarrow> sd_event \<Rightarrow> u64 \<Rightarrow> nat \<Rightarrow> u8 list \<Rightarrow> u8 list \<times> bool" where
  "cstring_loop d ev addr mx buf =
     (if length buf < mx then
        (let used = length buf; chunk = chunk_size mx used
         in case read_mem d ev (addr + of_nat used) chunk of
              Inl _ \<Rightarrow> (buf, False)
            | Inr got \<Rightarrow>
                if got = [] then (buf, False)
                else if 0 \<in> set got then (buf @ takeWhile (\<lambda>b. b \<noteq> 0) got, True)
                else if length got < chunk then (buf @ got, False)
                else cstring_loop d ev addr mx (buf @ got))
      else (buf, False))"
  by pat_completeness auto
termination
  by (relation "measure (\<lambda>(d, ev, addr, mx, buf). mx - length buf)") (auto simp: neq_Nil_conv)

declare cstring_loop.simps [simp del]

definition string_max :: "syscall_parser \<Rightarrow> nat" where
  "string_max d = (if max_string (opt d) \<noteq> 0 then max_string (opt d) else 1)"

definition print_cstring :: "platform \<Rightarrow> syscall_parser \<Rightarrow> sd_event \<Rightarrow> out \<Rightarrow> u64 \<Rightarrow> out" where
  "print_cstring P d ev ob addr =
     (if addr = 0 then out_printf ob ''NULL''
      else if \<not> can_read d then print_ptr ob (ev_abi ev) addr
      else
        let mx = string_max d
        in if \<not> sys_malloc P mx then print_ptr ob (ev_abi ev) addr
           else
             let (buf, terminated) = cstring_loop d ev addr mx []
             in if buf = [] \<and> \<not> terminated
                then out_printf (print_ptr ob (ev_abi ev) addr) '' /* unreadable */''
                else print_quoted ob buf (\<not> terminated))"

definition cstring_text :: "platform \<Rightarrow> syscall_parser \<Rightarrow> sd_event \<Rightarrow> u64 \<Rightarrow> string" where
  "cstring_text P d ev addr =
     (let mx = string_max d; (buf, terminated) = cstring_loop d ev addr mx []
      in if addr = 0 then ''NULL''
         else if \<not> can_read d \<or> \<not> sys_malloc P mx then ptr_text (ev_abi ev) addr
         else if buf = [] \<and> \<not> terminated then ptr_text (ev_abi ev) addr @ '' /* unreadable */''
         else quoted_text buf (\<not> terminated))"

lemma print_cstring_render [render, simp]:
  "wf_out ob \<Longrightarrow> print_cstring P d ev ob addr = out_printf ob (cstring_text P d ev addr)"
  by (simp add: print_cstring_def cstring_text_def Let_def split: prod.split)

lemma clean_unreadable: "clean '' /* unreadable */''"
  by simp

lemma cstring_text_clean [clean, simp]: "clean (cstring_text P d ev addr)"
  by (simp add: cstring_text_def Let_def split: prod.split)

text \<open>What one pass over the first \<open>mx\<close> mapped bytes finds.\<close>

definition cstring_ref :: "(u64 \<Rightarrow> u8 option) \<Rightarrow> u64 \<Rightarrow> nat \<Rightarrow> u8 list \<times> bool" where
  "cstring_ref m a mx = (takeWhile (\<lambda>b. b \<noteq> 0) (mapped_prefix m a mx), 0 \<in> set (mapped_prefix m a mx))"

text \<open>Reading below the end of the address space the ABI can name, addresses do not wrap.\<close>

definition addr_room :: "sd_abi \<Rightarrow> u64 \<Rightarrow> nat \<Rightarrow> bool" where
  "addr_room abi a n \<longleftrightarrow> unat (read_addr abi a) + n \<le> 2 ^ (case abi of SD_ABI_ARM64 \<Rightarrow> 56 | SD_ABI_ARM_EABI \<Rightarrow> 32)"

lemma read_addr_add:
  assumes "addr_room abi a n" "i < n"
  shows "read_addr abi (a + of_nat i) = read_addr abi a + of_nat i"
proof (rule unsigned_word_eqI [where 'a = nat])
  define w :: nat where "w = (case abi of SD_ABI_ARM64 \<Rightarrow> 56 | SD_ABI_ARM_EABI \<Rightarrow> 32)"
  have w: "w \<le> 64" by (simp add: w_def split: sd_abi.split)
  have ra: "unat (read_addr abi v) = unat v mod 2 ^ w" for v by (simp add: unat_read_addr w_def)
  have room: "unat a mod 2 ^ w + i < 2 ^ w" using assms by (simp add: addr_room_def ra flip: w_def)
  moreover have "(2 :: nat) ^ w \<le> 2 ^ 64" using w by (intro power_increasing) auto
  ultimately have lt: "unat a mod 2 ^ w + i < 2 ^ 64" by linarith
  then have i: "unat (of_nat i :: u64) = i" by (simp add: unsigned_of_nat take_bit_eq_mod)
  have d: "(2 :: nat) ^ w dvd 2 ^ 64" using w by (rule le_imp_power_dvd)
  have "unat (a + of_nat i) mod 2 ^ w = (unat a + i) mod 2 ^ w"
    using d by (simp add: unat_word_ariths i mod_mod_cancel)
  also have "\<dots> = (unat a mod 2 ^ w + i) mod 2 ^ w" by (simp add: mod_add_left_eq)
  also have "\<dots> = unat a mod 2 ^ w + i" using room by simp
  also have "\<dots> = unat (read_addr abi a + of_nat i)" using lt by (simp add: unat_word_ariths i ra)
  finally show "unat (read_addr abi (a + of_nat i)) = unat (read_addr abi a + of_nat i)" by (simp add: ra)
qed

lemma addr_room_nonzero:
  assumes "addr_room abi a n" "i < n" "a \<noteq> 0"
  shows "a + of_nat i \<noteq> 0"
proof
  assume z: "a + of_nat i = 0"
  have "read_addr abi 0 = 0" by (simp add: read_addr_def ptr_value_def to_u32_def)
  with z have "read_addr abi a + of_nat i = 0" using read_addr_add [OF assms(1,2)] by simp
  moreover have "unat (read_addr abi a) + i < 2 ^ 64"
    using assms(1,2) by (auto simp: addr_room_def split: sd_abi.splits)
  ultimately have "i = 0" by (auto simp: unat_eq_0 [symmetric] unat_word_ariths unsigned_of_nat take_bit_eq_mod simp flip: unat_eq_0)
  with z assms(3) show False by simp
qed

lemma read_mem_mapped:
  assumes "reader_read d = Some (syscall_process_vm_reader (mapped_readv m))" "dereference (opt d) \<noteq> 0"
    and "addr_room (ev_abi ev) a n" "i < n" "a \<noteq> 0" "0 < k"
  shows "read_mem d ev (a + of_nat i) k =
    (case mapped_prefix (m (ev_pid ev)) (read_addr (ev_abi ev) a + of_nat i) k of [] \<Rightarrow> Inl (- 14) | bs \<Rightarrow> Inr bs)"
  using assms addr_room_nonzero [OF assms(3-5)] read_addr_add [OF assms(3,4)]
  by (simp add: read_mem_def can_read_def syscall_process_vm_reader_def mapped_readv_def split: list.split)

lemma cstring_loop_mapped:
  fixes d ev a m
  defines "M \<equiv> m (ev_pid ev)" and "A \<equiv> read_addr (ev_abi ev) a"
  assumes rd: "reader_read d = Some (syscall_process_vm_reader (mapped_readv m))" "dereference (opt d) \<noteq> 0"
    and a: "addr_room (ev_abi ev) a mx" "a \<noteq> 0"
  shows "mapped_prefix M A (length buf) = buf \<Longrightarrow> 0 \<notin> set buf \<Longrightarrow> length buf \<le> mx \<Longrightarrow>
    cstring_loop d ev a mx buf = cstring_ref M A mx"
proof (induction "mx - length buf" arbitrary: buf rule: less_induct)
  case less
  show ?case
  proof (cases "length buf < mx")
    case False
    with less.prems show ?thesis
      by (subst cstring_loop.simps) (auto simp: cstring_ref_def)
  next
    case True
    define used where "used = length buf"
    define chunk where "chunk = chunk_size mx used"
    define R where "R = mapped_prefix M (A + of_nat used) chunk"
    have chunk: "0 < chunk" "used + chunk \<le> mx"
      using True chunk_size_bounds [of used mx] by (auto simp: chunk_def used_def)
    have upto: "mapped_prefix M A (used + chunk) = buf @ R"
      using mapped_prefix_add [of M A used chunk] less.prems(1) by (simp add: R_def used_def)
    have loop: "cstring_loop d ev a mx buf =
        (if R = [] then (buf, False)
         else if 0 \<in> set R then (buf @ takeWhile (\<lambda>b. b \<noteq> 0) R, True)
         else if length R < chunk then (buf @ R, False)
         else cstring_loop d ev a mx (buf @ R))"
      using True chunk(1) read_mem_mapped [OF rd a(1) True a(2) chunk(1)]
      by (subst cstring_loop.simps) (simp add: Let_def R_def M_def A_def chunk_def used_def split: list.split)
    have whole: "mapped_prefix M A mx = buf @ R" if "length R < chunk"
      using mapped_prefix_short [of M A "used + chunk" mx] upto chunk(2) that by (simp add: used_def)
    obtain rest where rest: "mapped_prefix M A mx = buf @ R @ rest"
      using take_mapped_prefix [OF chunk(2), of M A] upto by (metis append.assoc append_take_drop_id)
    have no0: "takeWhile (\<lambda>b. b \<noteq> 0) (buf @ ys) = buf @ takeWhile (\<lambda>b. b \<noteq> 0) ys" for ys
      using less.prems(2) by (induction buf) auto
    show ?thesis
    proof (cases "R \<noteq> [] \<and> 0 \<notin> set R \<and> \<not> length R < chunk")
      case True
      have "length R \<le> chunk" by (simp add: R_def mapped_prefix_length)
      with True have len: "length (buf @ R) = used + chunk" by (simp add: used_def)
      have "cstring_loop d ev a mx (buf @ R) = cstring_ref M A mx"
        using less.hyps [of "buf @ R"] less.prems True len upto chunk by (simp add: used_def)
      with True loop show ?thesis by simp
    next
      case False
      with loop whole rest no0 less.prems(2) chunk(1) show ?thesis
        by (auto simp: cstring_ref_def)
    qed
  qed
qed


lemma demo_cstring_ref: "cstring_ref (demo_mem 7) 0x1000 256 = ([0x68, 0x69], True)"
  by (simp add: cstring_ref_def demo_prefix)

lemma demo_room: "addr_room SD_ABI_ARM64 0xB400000000001000 256" "addr_room SD_ABI_ARM64 0x1000 256"
  "read_addr SD_ABI_ARM64 0xB400000000001000 = 0x1000" "read_addr SD_ABI_ARM64 0x1000 = 0x1000"
  by (simp_all add: addr_room_def read_addr_def ptr_value_def)

lemma main_string_max [simp]: "string_max (main_parser readv) = 256"
  by (simp add: string_max_def)


context mem_reader
begin

lemma cstring_loop_true:
  assumes rd: "reader_read d = Some read" and room: "addr_room (ev_abi ev) addr mx"
  shows "length buf \<le> mx \<Longrightarrow> 0 \<notin> set buf \<Longrightarrow>
    \<forall>i < length buf. mem (ev_pid ev) (read_addr (ev_abi ev) addr + of_nat i) = Some (buf ! i) \<Longrightarrow>
    cstring_loop d ev addr mx buf = (s, t) \<Longrightarrow>
    length s \<le> mx \<and> 0 \<notin> set s \<and>
    (\<forall>i < length s. mem (ev_pid ev) (read_addr (ev_abi ev) addr + of_nat i) = Some (s ! i))"
proof (induction "mx - length buf" arbitrary: buf rule: less_induct)
  case less
  define used where "used = length buf"
  define chunk where "chunk = chunk_size mx used"
  let ?good = "\<lambda>ys. length ys \<le> mx \<and>
    (\<forall>i < length ys. mem (ev_pid ev) (read_addr (ev_abi ev) addr + of_nat i) = Some (ys ! i))"
  have ext: "?good (buf @ ys)"
    if u: "used < mx" and got: "read_mem d ev (addr + of_nat used) chunk = Inr got" and ys: "ys @ zs = got"
    for got ys zs
  proof -
    have "length got \<le> chunk" using read_mem_bounded [OF rd got] .
    then have "length (buf @ ys) \<le> mx"
      using ys chunk_size_bounds(2) [OF u] by (auto simp: chunk_def used_def)
    moreover have tail: "mem (ev_pid ev) (read_addr (ev_abi ev) addr + of_nat (used + j)) = Some (ys ! j)"
      if "j < length ys" for j
      using read_mem_true [OF rd got, of j] read_addr_add [OF room u] that ys
      by (auto simp: nth_append add.assoc)
    have "mem (ev_pid ev) (read_addr (ev_abi ev) addr + of_nat i) = Some ((buf @ ys) ! i)"
      if "i < length (buf @ ys)" for i
    proof (cases "i < used")
      case True
      with less.prems(3) show ?thesis by (simp add: nth_append used_def)
    next
      case False
      then obtain j where "i = used + j" by (metis le_add_diff_inverse not_less)
      with that tail [of j] show ?thesis by (simp add: nth_append used_def)
    qed
    ultimately show ?thesis by blast
  qed
  from less.prems(4) consider (stop) "s = buf"
    | (nul) got where "used < mx" "read_mem d ev (addr + of_nat used) chunk = Inr got"
        "s = buf @ takeWhile (\<lambda>b. b \<noteq> 0) got"
    | (short) got where "used < mx" "read_mem d ev (addr + of_nat used) chunk = Inr got"
        "0 \<notin> set got" "s = buf @ got"
    | (more) got where "used < mx" "read_mem d ev (addr + of_nat used) chunk = Inr got"
        "0 \<notin> set got" "got \<noteq> []" "cstring_loop d ev addr mx (buf @ got) = (s, t)"
    by (subst (asm) cstring_loop.simps)
      (auto simp: Let_def used_def chunk_def split: if_splits sum.splits)
  then show ?case
  proof cases
    case stop
    with less.prems show ?thesis by blast
  next
    case nul
    then have "?good s" using ext [OF nul(1,2) takeWhile_dropWhile_id] by simp
    with nul(3) less.prems(2) show ?thesis by (auto dest: set_takeWhileD)
  next
    case short
    with ext [OF short(1,2), of got "[]"] less.prems(2) show ?thesis by simp
  next
    case more
    have "mx - length (buf @ got) < mx - length buf" using more(1,4) by (auto simp: used_def neq_Nil_conv)
    with less.hyps [of "buf @ got"] ext [OF more(1,2), of got "[]"] more less.prems(2) show ?thesis by simp
  qed
qed

end

text \<open>
  With any reader that honours its contract, every byte a string argument shows is
  the byte the process has at that offset, no NUL is among them, and there are at most
  \<open>max_string\<close> (one if that is 0).
\<close>

theorem cstring_bytes_true:
  assumes "mem_reader rd mem" "reader_read d = Some rd" "addr_room (ev_abi ev) addr (string_max d)"
    and "cstring_loop d ev addr (string_max d) [] = (s, t)"
  shows "length s \<le> string_max d \<and> 0 \<notin> set s \<and>
    (\<forall>i < length s. mem (ev_pid ev) (read_addr (ev_abi ev) addr + of_nat i) = Some (s ! i))"
  using mem_reader.cstring_loop_true [OF assms(1-3) _ _ _ assms(4)] by simp

lemma cstring_bytes_true_witness:
  "cstring_loop (main_parser (mapped_readv demo_mem)) (demo_event 56 [] 0) 0x1000 256 [] = ([0x68, 0x69], True) \<and>
   demo_mem 7 0x1001 = Some 0x69"
proof -
  have run: "cstring_loop (main_parser (mapped_readv demo_mem)) (demo_event 56 [] 0) 0x1000 256 [] = ([0x68, 0x69], True)"
    using cstring_loop_mapped [of "main_parser (mapped_readv demo_mem)" demo_mem "demo_event 56 [] 0" "0x1000" 256 "[]"]
    by (simp add: demo_room demo_cstring_ref)
  have "\<forall>i < length [0x68, 0x69 :: u8]. demo_mem 7 (0x1000 + of_nat i) = Some ([0x68, 0x69] ! i)"
    using cstring_bytes_true [of "syscall_process_vm_reader (mapped_readv demo_mem)" demo_mem
        "main_parser (mapped_readv demo_mem)" "demo_event 56 [] 0" "0x1000" "[0x68, 0x69]" True]
      vm.mem_reader_axioms [of demo_mem] run
    by (simp add: demo_room)
  then have "demo_mem 7 (0x1000 + of_nat 1) = Some ([0x68, 0x69] ! 1)" by (rule allE [of _ 1]) simp
  with run show ?thesis by simp
qed

section \<open>Buffers in the traced process\<close>

definition buffer_want :: "syscall_parser \<Rightarrow> u64 \<Rightarrow> nat" where
  "buffer_want d requested =
     (if unat requested > max_buffer (opt d) then max_buffer (opt d) else unat requested)"

lemma buffer_want_min: "buffer_want d req = min (unat req) (max_buffer (opt d))"
  by (simp add: buffer_want_def)

definition print_buffer :: "platform \<Rightarrow> syscall_parser \<Rightarrow> sd_event \<Rightarrow> out \<Rightarrow> u64 \<Rightarrow> u64 \<Rightarrow> out" where
  "print_buffer P d ev ob addr requested =
     (if addr = 0 then out_printf ob ''NULL''
      else if \<not> can_read d then print_ptr ob (ev_abi ev) addr
      else
        let want = buffer_want d requested
        in if want = 0 then out_printf ob [DQUOTE, DQUOTE]
           else if \<not> sys_malloc P want then print_ptr ob (ev_abi ev) addr
           else
             let got = (case read_mem d ev addr want of Inl _ \<Rightarrow> [] | Inr bs \<Rightarrow> bs)
             in if got = [] then out_printf (print_ptr ob (ev_abi ev) addr) '' /* unreadable */''
                else print_quoted ob got (unat requested > length got))"

definition buffer_text :: "platform \<Rightarrow> syscall_parser \<Rightarrow> sd_event \<Rightarrow> u64 \<Rightarrow> u64 \<Rightarrow> string" where
  "buffer_text P d ev addr requested =
     (let want = buffer_want d requested;
          got = (case read_mem d ev addr want of Inl _ \<Rightarrow> [] | Inr bs \<Rightarrow> bs)
      in if addr = 0 then ''NULL''
         else if \<not> can_read d then ptr_text (ev_abi ev) addr
         else if want = 0 then [DQUOTE, DQUOTE]
         else if \<not> sys_malloc P want then ptr_text (ev_abi ev) addr
         else if got = [] then ptr_text (ev_abi ev) addr @ '' /* unreadable */''
         else quoted_text got (length got < unat requested))"

lemma print_buffer_render [render, simp]:
  "wf_out ob \<Longrightarrow> print_buffer P d ev ob addr req = out_printf ob (buffer_text P d ev addr req)"
  by (simp add: print_buffer_def buffer_text_def Let_def)

lemma buffer_text_clean [clean, simp]: "clean (buffer_text P d ev addr req)"
  by (simp add: buffer_text_def Let_def)



end
