(* ===== verification/Sd_Flags.thy ===== *)
theory Sd_Flags
  imports Sd_Strings
begin

text \<open>
  Symbolic values of \<open>src/sysdecode.c\<close>: flag sets (\<open>print_flags\<close>, \<open>print_open_flags\<close> and their
  tables), signals, directory descriptors, and the name tables of errors, \<open>bpf\<close> and \<open>fcntl\<close>
  commands. The constants of the system headers have their values on AArch64 Linux with the GNU
  C library, the target of the Makefile.

  Results: the flag rendering loses nothing (parsing the names and the residual hexadecimal part
  gives the value back), for every value and each of the three flag tables.
\<close>

unbundle bit_operations_syntax

section \<open>Flag tables\<close>

record flag_name =
  fl_value :: u64
  fl_name :: string

definition flag :: "u64 \<Rightarrow> string \<Rightarrow> flag_name" where
  "flag v n = \<lparr>fl_value = v, fl_name = n\<rparr>"

lemma flag_simps [simp]: "fl_value (flag v n) = v" "fl_name (flag v n) = n"
  by (simp_all add: flag_def)

definition open_flags :: "flag_name list" where
  "open_flags = [
     flag 0x1 ''O_WRONLY'', flag 0x2 ''O_RDWR'',
     flag 0x40 ''O_CREAT'', flag 0x80 ''O_EXCL'',
     flag 0x200 ''O_TRUNC'', flag 0x400 ''O_APPEND'',
     flag 0x800 ''O_NONBLOCK'', flag 0x80000 ''O_CLOEXEC'',
     flag 0x4000 ''O_DIRECTORY'',
     flag 0x8000 ''O_NOFOLLOW'',
     flag 0x200000 ''O_PATH'']"

definition prot_flags :: "flag_name list" where
  "prot_flags = [
     flag 0x1 ''PROT_READ'', flag 0x2 ''PROT_WRITE'',
     flag 0x4 ''PROT_EXEC'',
     flag 0x1000000 ''PROT_GROWSDOWN'']"

definition map_flags :: "flag_name list" where
  "map_flags = [
     flag 0x1 ''MAP_SHARED'', flag 0x2 ''MAP_PRIVATE'',
     flag 0x10 ''MAP_FIXED'',
     flag 0x20 ''MAP_ANONYMOUS'',
     flag 0x8000 ''MAP_POPULATE'',
     flag 0x20000 ''MAP_STACK'']"

definition O_ACCMODE :: u64 where "O_ACCMODE = 3"
definition O_CREAT :: u64 where "O_CREAT = 0x40"

definition hex64 :: "u64 \<Rightarrow> string" where
  "hex64 v = ''0x'' @ fmt_x (unat v)"

lemma hex64_clean [clean, simp]: "clean (hex64 v)"
  by (simp add: hex64_def)

section \<open>Printing flags\<close>

fun print_flags_loop :: "out \<Rightarrow> u64 \<Rightarrow> bool \<Rightarrow> flag_name list \<Rightarrow> out \<times> u64 \<times> bool" where
  "print_flags_loop ob rest any [] = (ob, rest, any)"
| "print_flags_loop ob rest any (f # fs) =
     (if fl_value f \<noteq> 0 \<and> rest AND fl_value f = fl_value f
      then print_flags_loop (out_printf ob ((if any then ''|'' else []) @ fl_name f))
             (rest AND NOT (fl_value f)) True fs
      else print_flags_loop ob rest any fs)"

definition print_flags :: "out \<Rightarrow> u64 \<Rightarrow> flag_name list \<Rightarrow> int \<Rightarrow> string option \<Rightarrow> out" where
  "print_flags ob v table symb zero =
     (if symb = 0 then out_printf ob (hex64 v)
      else if v = 0 \<and> zero \<noteq> None then out_printf ob (the zero)
      else
        let (ob1, rest, any) = print_flags_loop ob v False table
        in if rest \<noteq> 0 \<or> \<not> any then out_printf ob1 ((if any then ''|'' else []) @ hex64 rest) else ob1)"

fun print_open_loop :: "out \<Rightarrow> u64 \<Rightarrow> flag_name list \<Rightarrow> out \<times> u64" where
  "print_open_loop ob rest [] = (ob, rest)"
| "print_open_loop ob rest (f # fs) =
     (if fl_value f AND O_ACCMODE \<noteq> 0 \<or> fl_value f = 0 then print_open_loop ob rest fs
      else if rest AND fl_value f = fl_value f
      then print_open_loop (out_printf ob (CHR ''|'' # fl_name f)) (rest AND NOT (fl_value f)) fs
      else print_open_loop ob rest fs)"

definition open_access :: "u64 \<Rightarrow> string option" where
  "open_access v =
     (let access = to_u32 v AND 3
      in if access = 0 then Some ''O_RDONLY'' else if access = 1 then Some ''O_WRONLY''
         else if access = 2 then Some ''O_RDWR'' else None)"

definition print_open_flags :: "out \<Rightarrow> u64 \<Rightarrow> int \<Rightarrow> out" where
  "print_open_flags ob v symb =
     (if symb = 0 then out_printf ob (hex64 v)
      else
        let ob1 = (case open_access v of
                     Some n \<Rightarrow> out_printf ob n
                   | None \<Rightarrow> out_printf ob (''0x'' @ fmt_x (unat (to_u32 v AND 3))));
            (ob2, rest) = print_open_loop ob1 (v AND NOT O_ACCMODE) open_flags
        in if rest \<noteq> 0 then out_printf ob2 (CHR ''|'' # hex64 rest) else ob2)"

section \<open>The text of a flag set\<close>

text \<open>The names taken out of a value by a table, and what is left.\<close>

fun flags_taken :: "u64 \<Rightarrow> flag_name list \<Rightarrow> flag_name list \<times> u64" where
  "flags_taken rest [] = ([], rest)"
| "flags_taken rest (f # fs) =
     (if fl_value f \<noteq> 0 \<and> rest AND fl_value f = fl_value f
      then apfst (Cons f) (flags_taken (rest AND NOT (fl_value f)) fs)
      else flags_taken rest fs)"

fun join_bar :: "string list \<Rightarrow> string" where
  "join_bar [] = []"
| "join_bar [t] = t"
| "join_bar (t # u # ts) = t @ CHR ''|'' # join_bar (u # ts)"

definition bars :: "string list \<Rightarrow> string" where
  "bars ts = concat (map (Cons (CHR ''|'')) ts)"

lemma join_bar_Cons: "join_bar (t # ts) = t @ bars ts"
  by (induction ts arbitrary: t) (simp_all add: bars_def)

lemma bars_simps [simp]: "bars [] = []" "bars (t # ts) = CHR ''|'' # t @ bars ts" "bars (ts @ us) = bars ts @ bars us"
  by (simp_all add: bars_def)

lemma join_bar_snoc: "join_bar (ts @ [u]) = (if ts = [] then u else join_bar ts @ CHR ''|'' # u)"
  by (cases ts) (simp_all add: join_bar_Cons)

definition flag_tokens :: "u64 \<Rightarrow> flag_name list \<Rightarrow> string list" where
  "flag_tokens v table =
     (let (fs, rest) = flags_taken v table
      in map fl_name fs @ (if rest \<noteq> 0 \<or> fs = [] then [hex64 rest] else []))"

definition flags_text :: "u64 \<Rightarrow> flag_name list \<Rightarrow> int \<Rightarrow> string option \<Rightarrow> string" where
  "flags_text v table symb zero =
     (if symb = 0 then hex64 v
      else if v = 0 \<and> zero \<noteq> None then the zero
      else join_bar (flag_tokens v table))"

definition open_text :: "u64 \<Rightarrow> int \<Rightarrow> string" where
  "open_text v symb =
     (if symb = 0 then hex64 v
      else
        let (fs, rest) = flags_taken (v AND NOT O_ACCMODE) (filter (\<lambda>f. fl_value f AND O_ACCMODE = 0) open_flags)
        in join_bar ((case open_access v of Some n \<Rightarrow> n | None \<Rightarrow> ''0x'' @ fmt_x (unat (to_u32 v AND 3)))
             # map fl_name fs @ (if rest \<noteq> 0 then [hex64 rest] else [])))"

lemma print_flags_loop_render:
  "wf_out ob \<Longrightarrow> print_flags_loop ob rest any fs =
    (let (gs, rest') = flags_taken rest fs
     in (out_printf ob (if any then bars (map fl_name gs) else join_bar (map fl_name gs)), rest', any \<or> gs \<noteq> []))"
  by (induction fs arbitrary: ob rest any)
    (auto simp: Let_def join_bar_Cons split: prod.splits)

lemma print_flags_render [render, simp]:
  "wf_out ob \<Longrightarrow> print_flags ob v table symb zero = out_printf ob (flags_text v table symb zero)"
  by (auto simp: print_flags_def flags_text_def flag_tokens_def print_flags_loop_render Let_def join_bar_snoc
      split: prod.splits)

lemma print_open_loop_render:
  "wf_out ob \<Longrightarrow> print_open_loop ob rest fs =
    (let (gs, rest') = flags_taken rest (filter (\<lambda>f. fl_value f AND O_ACCMODE = 0) fs)
     in (out_printf ob (bars (map fl_name gs)), rest'))"
  by (induction fs arbitrary: ob rest) (auto simp: Let_def split: prod.splits)

lemma print_open_flags_render [render, simp]:
  "wf_out ob \<Longrightarrow> print_open_flags ob v symb = out_printf ob (open_text v symb)"
  by (auto simp: print_open_flags_def open_text_def print_open_loop_render Let_def join_bar_Cons
      split: prod.splits option.splits)

section \<open>Reading a flag set back\<close>

fun split_bar :: "string \<Rightarrow> string list" where
  "split_bar [] = [[]]"
| "split_bar (c # s) =
     (if c = CHR ''|'' then [] # split_bar s
      else case split_bar s of [] \<Rightarrow> [[c]] | t # ts \<Rightarrow> (c # t) # ts)"

definition or_all :: "u64 list \<Rightarrow> u64" where
  "or_all vs = foldr (OR) vs 0"

lemma or_all_simps [simp]:
  "or_all [] = 0" "or_all (v # vs) = v OR or_all vs" "or_all (us @ vs) = or_all us OR or_all vs"
proof -
  show "or_all (us @ vs) = or_all us OR or_all vs" by (induction us) (simp_all add: or_all_def or.assoc)
qed (simp_all add: or_all_def)

definition token_value :: "flag_name list \<Rightarrow> string \<Rightarrow> u64" where
  "token_value table t =
     (if take 2 t = ''0x'' then word_of_nat (undigits 16 (drop 2 t))
      else case find (\<lambda>f. fl_name f = t) table of None \<Rightarrow> 0 | Some f \<Rightarrow> fl_value f)"

definition flags_value :: "flag_name list \<Rightarrow> string \<Rightarrow> u64" where
  "flags_value table s = or_all (map (token_value table) (split_bar s))"

definition token_ok :: "string \<Rightarrow> bool" where
  "token_ok t \<longleftrightarrow> CHR ''|'' \<notin> set t"

definition flags_ok :: "flag_name list \<Rightarrow> bool" where
  "flags_ok table \<longleftrightarrow> distinct (map fl_name table) \<and>
     list_all (\<lambda>f. token_ok (fl_name f) \<and> take 2 (fl_name f) \<noteq> ''0x'' \<and> clean (fl_name f)) table"

lemma flag_tables_ok: "flags_ok open_flags" "flags_ok prot_flags" "flags_ok map_flags"
  by (simp_all add: flags_ok_def open_flags_def prot_flags_def map_flags_def token_ok_def)

lemma split_bar_token: "token_ok t \<Longrightarrow> split_bar t = [t]"
  by (induction t) (auto simp: token_ok_def)

lemma split_bar_append: "token_ok t \<Longrightarrow> split_bar (t @ CHR ''|'' # s) = t # split_bar s"
  by (induction t) (auto simp: token_ok_def)

lemma split_join_bar: "ts \<noteq> [] \<Longrightarrow> list_all token_ok ts \<Longrightarrow> split_bar (join_bar ts) = ts"
  by (induction ts rule: join_bar.induct) (simp_all add: split_bar_token split_bar_append)

lemma hex_token_ok: "token_ok (''0x'' @ fmt_x n)"
  using digits_set [of 16 n] by (auto simp: token_ok_def fmt_x_def)

lemma token_value_hex64 [simp]: "token_value table (hex64 v) = v"
  by (simp add: token_value_def hex64_def)

lemma token_ok_hex64 [simp]: "token_ok (hex64 v)"
  unfolding hex64_def by (rule hex_token_ok)

lemma token_value_name:
  assumes "flags_ok table" "f \<in> set table"
  shows "token_value table (fl_name f) = fl_value f"
proof -
  have "find (\<lambda>g. fl_name g = fl_name f) table = Some f"
    using assms by (induction table) (auto simp: flags_ok_def)
  moreover have "take 2 (fl_name f) \<noteq> ''0x''" using assms by (auto simp: flags_ok_def list_all_iff)
  ultimately show ?thesis by (simp add: token_value_def)
qed

lemma and_not_or: "r AND v = v \<Longrightarrow> v OR (r AND NOT v) = (r :: u64)"
  by (rule bit_word_eqI) (auto simp: bit_simps dest: arg_cong [where f = "\<lambda>w. bit w n" for n])

lemma flags_taken_value:
  "flags_taken v fs = (gs, rest) \<Longrightarrow> or_all (map fl_value gs) OR rest = v \<and> set gs \<subseteq> set fs"
proof (induction fs arbitrary: v gs)
  case (Cons f fs)
  show ?case
  proof (cases "fl_value f \<noteq> 0 \<and> v AND fl_value f = fl_value f")
    case True
    with Cons.prems obtain hs where hs: "flags_taken (v AND NOT (fl_value f)) fs = (hs, rest)" "gs = f # hs"
      by (cases "flags_taken (v AND NOT (fl_value f)) fs") simp
    from Cons.IH [OF hs(1)] hs(2) True and_not_or [of v "fl_value f"] show ?thesis
      by (auto simp: or.assoc)
  next
    case False
    with Cons.prems have "flags_taken v fs = (gs, rest)" by (simp split: if_splits)
    from Cons.IH [OF this] show ?thesis by auto
  qed
qed simp

lemma names_value:
  assumes "flags_ok table" "set gs \<subseteq> set table"
  shows "or_all (map (token_value table) (map fl_name gs)) = or_all (map fl_value gs)"
    and "list_all token_ok (map fl_name gs)"
proof -
  show "or_all (map (token_value table) (map fl_name gs)) = or_all (map fl_value gs)"
    using assms(2) by (induction gs) (simp_all add: token_value_name [OF assms(1)])
  show "list_all token_ok (map fl_name gs)" using assms by (auto simp: flags_ok_def list_all_iff)
qed

lemma flag_tokens_value:
  assumes "flags_ok table"
  shows "flags_value table (join_bar (flag_tokens v table)) = v"
proof -
  obtain gs rest where t: "flags_taken v table = (gs, rest)" by fastforce
  note g = flags_taken_value [OF t]
  have toks: "flag_tokens v table = map fl_name gs @ (if rest \<noteq> 0 \<or> gs = [] then [hex64 rest] else [])"
    by (simp add: flag_tokens_def t)
  then have "flag_tokens v table \<noteq> []" "list_all token_ok (flag_tokens v table)"
    using names_value(2) [OF assms, of gs] g by auto
  then show ?thesis
    using names_value(1) [OF assms, of gs] g by (auto simp: flags_value_def split_join_bar toks)
qed

lemma low_two_bits: "ucast (to_u32 v AND 3) = v AND O_ACCMODE"
proof -
  have m: "(3 :: u32) = mask 2" "(3 :: u64) = mask 2" by (simp_all add: mask_eq_exp_minus_1)
  show ?thesis
    unfolding O_ACCMODE_def to_u32_def m take_bit_eq_mask [symmetric]
    by (rule bit_word_eqI) (auto simp: bit_simps)
qed

lemma two_bit_cases: "(w :: u32) AND 3 = 0 \<or> w AND 3 = 1 \<or> w AND 3 = 2 \<or> w AND 3 = 3"
proof -
  have m: "w AND 3 = take_bit 2 w" by (simp add: take_bit_eq_mask mask_eq_exp_minus_1)
  have "unat (take_bit 2 w) = unat w mod 4" by (simp only: unsigned_take_bit_eq) (simp add: take_bit_eq_mod)
  then have "unat (take_bit 2 w) < 4" by simp
  then have "unat (take_bit 2 w) \<in> {0, 1, 2, 3}" by auto
  then show ?thesis unfolding m by (auto simp: word_eq_iff_unsigned [where 'a = nat])
qed

definition access_text :: "u64 \<Rightarrow> string" where
  "access_text v = (case open_access v of Some n \<Rightarrow> n | None \<Rightarrow> ''0x'' @ fmt_x (unat (to_u32 v AND 3)))"

lemma access_text_value:
  "token_value open_flags (access_text v) = v AND O_ACCMODE" "token_ok (access_text v)" "clean (access_text v)"
proof -
  have "token_value open_flags (access_text v) = ucast (to_u32 v AND 3) \<and> token_ok (access_text v) \<and> clean (access_text v)"
    using two_bit_cases [of "to_u32 v"] hex_token_ok [of 3]
    by (elim disjE) (auto simp: access_text_def open_access_def token_value_def open_flags_def token_ok_def Let_def)
  then show "token_value open_flags (access_text v) = v AND O_ACCMODE" "token_ok (access_text v)" "clean (access_text v)"
    by (simp_all add: low_two_bits)
qed

lemma open_text_value:
  assumes "symb \<noteq> 0"
  shows "flags_value open_flags (open_text v symb) = v"
proof -
  let ?fs = "filter (\<lambda>f. fl_value f AND O_ACCMODE = 0) open_flags"
  obtain gs rest where t: "flags_taken (v AND NOT O_ACCMODE) ?fs = (gs, rest)" by fastforce
  note g = flags_taken_value [OF t]
  then have sub: "set gs \<subseteq> set open_flags" by auto
  note n = names_value [OF flag_tables_ok(1) sub]
  let ?toks = "access_text v # map fl_name gs @ (if rest \<noteq> 0 then [hex64 rest] else [])"
  have text_eq: "open_text v symb = join_bar ?toks"
    using assms by (simp add: open_text_def t access_text_def)
  have "list_all token_ok ?toks" using n(2) access_text_value(2) by simp
  then have "flags_value open_flags (join_bar ?toks) = or_all (map (token_value open_flags) ?toks)"
    by (simp add: flags_value_def split_join_bar del: join_bar.simps)
  also have "\<dots> = (v AND O_ACCMODE) OR (v AND NOT O_ACCMODE)"
    using n(1) g by (auto simp: access_text_value)
  also have "\<dots> = v" by (rule bit_word_eqI) (auto simp: bit_simps)
  finally show ?thesis by (simp only: text_eq)
qed

text \<open>
  Claim C28. A flag argument printed symbolically loses nothing: the mapping flags, the protection
  flags (with \<open>PROT_NONE\<close> for 0) and the flags of \<open>open\<close> can each be read back from the printed
  names, access mode and residual hexadecimal part, for every 64-bit value.
\<close>

theorem flag_arguments_lossless:
  assumes "wf_out ob" "symb \<noteq> 0"
  shows "(\<exists>t. print_flags ob v map_flags symb None = out_printf ob t \<and> flags_value map_flags t = v) \<and>
    (\<exists>t. print_flags ob v prot_flags symb (Some ''PROT_NONE'') = out_printf ob t \<and> flags_value prot_flags t = v) \<and>
    (\<exists>t. print_open_flags ob v symb = out_printf ob t \<and> flags_value open_flags t = v)"
proof (intro conjI exI)
  show "print_flags ob v map_flags symb None = out_printf ob (flags_text v map_flags symb None)"
    "print_flags ob v prot_flags symb (Some ''PROT_NONE'') =
      out_printf ob (flags_text v prot_flags symb (Some ''PROT_NONE''))"
    "print_open_flags ob v symb = out_printf ob (open_text v symb)"
    using assms(1) by simp_all
  show "flags_value map_flags (flags_text v map_flags symb None) = v"
    using assms(2) by (simp add: flags_text_def flag_tokens_value flag_tables_ok)
  have "flags_value prot_flags ''PROT_NONE'' = 0"
    by (simp add: flags_value_def token_value_def prot_flags_def)
  then show "flags_value prot_flags (flags_text v prot_flags symb (Some ''PROT_NONE'')) = v"
    using assms(2) by (simp add: flags_text_def flag_tokens_value flag_tables_ok)
  show "flags_value open_flags (open_text v symb) = v" using assms(2) by (rule open_text_value)
qed

lemma flag_arguments_lossless_witness:
  "\<exists>t. print_open_flags (out_init [] 0) 0x101241 1 = out_printf (out_init [] 0) t \<and> flags_value open_flags t = 0x101241"
  using flag_arguments_lossless [of "out_init [] 0" 1 "0x101241"] by simp

lemma join_bar_clean: "list_all clean ts \<Longrightarrow> clean (join_bar ts)"
  by (induction ts rule: join_bar.induct) (simp_all add: printable_def)

lemma taken_names_clean:
  "flags_ok table \<Longrightarrow> flags_taken v fs = (gs, rest) \<Longrightarrow> set fs \<subseteq> set table \<Longrightarrow> list_all clean (map fl_name gs)"
  using flags_taken_value [of v fs gs rest] by (auto simp: flags_ok_def list_all_iff)

lemma flags_text_clean [clean]:
  "flags_ok table \<Longrightarrow> (\<And>z. zero = Some z \<Longrightarrow> clean z) \<Longrightarrow> clean (flags_text v table symb zero)"
  using taken_names_clean [of table v table]
  by (auto simp: flags_text_def flag_tokens_def intro!: join_bar_clean split: prod.splits)

lemma open_text_clean [clean, simp]: "clean (open_text v symb)"
  using taken_names_clean [OF flag_tables_ok(1), of "v AND NOT O_ACCMODE" "filter (\<lambda>f. fl_value f AND O_ACCMODE = 0) open_flags"]
    access_text_value(3) [of v]
  by (auto simp: open_text_def access_text_def intro!: join_bar_clean split: prod.splits option.splits)

section \<open>Signals, descriptors and name tables\<close>

definition signal_name :: "u32 \<Rightarrow> string option" where
  "signal_name sig = map_of [
     (1, ''SIGHUP''), (2, ''SIGINT''), (3, ''SIGQUIT''), (4, ''SIGILL''),
     (6, ''SIGABRT''), (8, ''SIGFPE''), (9, ''SIGKILL''), (11, ''SIGSEGV''),
     (13, ''SIGPIPE''), (14, ''SIGALRM''), (15, ''SIGTERM''), (17, ''SIGCHLD''),
     (18, ''SIGCONT''), (19, ''SIGSTOP''), (20, ''SIGTSTP''), (21, ''SIGTTIN''),
     (22, ''SIGTTOU'')] sig"

definition print_signal :: "out \<Rightarrow> u64 \<Rightarrow> int \<Rightarrow> out" where
  "print_signal ob v symb =
     (case signal_name (to_u32 v) of
        Some n \<Rightarrow> if symb \<noteq> 0 then out_printf ob n else out_printf ob (fmt_u (unat v))
      | None \<Rightarrow> out_printf ob (fmt_u (unat v)))"

definition signal_text :: "u64 \<Rightarrow> int \<Rightarrow> string" where
  "signal_text v symb =
     (case signal_name (to_u32 v) of Some n \<Rightarrow> if symb \<noteq> 0 then n else fmt_u (unat v) | None \<Rightarrow> fmt_u (unat v))"

lemma print_signal_render [render, simp]: "print_signal ob v symb = out_printf ob (signal_text v symb)"
  by (simp add: print_signal_def signal_text_def split: option.split)

lemma map_of_clean: "map_of xs k = Some n \<Longrightarrow> list_all (clean \<circ> snd) xs \<Longrightarrow> clean n"
  by (auto simp: list_all_iff dest!: map_of_SomeD)

lemma signal_text_clean [clean, simp]: "clean (signal_text v symb)"
proof -
  have "clean n" if "signal_name s = Some n" for s n
    using that unfolding signal_name_def by (rule map_of_clean) simp
  then show ?thesis by (auto simp: signal_text_def split: option.split)
qed

definition AT_FDCWD :: int where "AT_FDCWD = - 100"

definition print_dirfd :: "out \<Rightarrow> u64 \<Rightarrow> int \<Rightarrow> out" where
  "print_dirfd ob v symb =
     (let fd = as_i32 v
      in if symb \<noteq> 0 \<and> fd = AT_FDCWD then out_printf ob ''AT_FDCWD'' else out_printf ob (fmt_d fd))"

definition dirfd_text :: "u64 \<Rightarrow> int \<Rightarrow> string" where
  "dirfd_text v symb = (if symb \<noteq> 0 \<and> as_i32 v = AT_FDCWD then ''AT_FDCWD'' else fmt_d (as_i32 v))"

lemma print_dirfd_render [render, simp]: "print_dirfd ob v symb = out_printf ob (dirfd_text v symb)"
  by (simp add: print_dirfd_def dirfd_text_def Let_def)

lemma dirfd_text_clean [clean, simp]: "clean (dirfd_text v symb)"
  by (simp add: dirfd_text_def)

definition bpf_cmd_names :: "string list" where
  "bpf_cmd_names = [
     ''BPF_MAP_CREATE'', ''BPF_MAP_LOOKUP_ELEM'', ''BPF_MAP_UPDATE_ELEM'',
     ''BPF_MAP_DELETE_ELEM'', ''BPF_MAP_GET_NEXT_KEY'', ''BPF_PROG_LOAD'',
     ''BPF_OBJ_PIN'', ''BPF_OBJ_GET'', ''BPF_PROG_ATTACH'', ''BPF_PROG_DETACH'',
     ''BPF_PROG_TEST_RUN'', ''BPF_PROG_GET_NEXT_ID'', ''BPF_MAP_GET_NEXT_ID'',
     ''BPF_PROG_GET_FD_BY_ID'', ''BPF_MAP_GET_FD_BY_ID'', ''BPF_OBJ_GET_INFO_BY_FD'']"

definition bpf_cmd_name :: "u64 \<Rightarrow> string option" where
  "bpf_cmd_name cmd = (if unat cmd < length bpf_cmd_names then Some (bpf_cmd_names ! unat cmd) else None)"

definition fcntl_cmd_name :: "int \<Rightarrow> string option" where
  "fcntl_cmd_name cmd = map_of [
     (0, ''F_DUPFD''), (1, ''F_GETFD''), (2, ''F_SETFD''), (3, ''F_GETFL''),
     (4, ''F_SETFL''), (5, ''F_GETLK''), (6, ''F_SETLK''), (7, ''F_SETLKW''),
     (1030, ''F_DUPFD_CLOEXEC'')] cmd"

definition errno_name :: "u32 \<Rightarrow> string option" where
  "errno_name e = map_of [
     (1, ''EPERM''), (2, ''ENOENT''), (3, ''ESRCH''),
     (4, ''EINTR''), (5, ''EIO''), (6, ''ENXIO''),
     (7, ''E2BIG''), (8, ''ENOEXEC''), (9, ''EBADF''),
     (10, ''ECHILD''), (11, ''EAGAIN''), (12, ''ENOMEM''),
     (13, ''EACCES''), (14, ''EFAULT''), (16, ''EBUSY''),
     (17, ''EEXIST''), (18, ''EXDEV''), (19, ''ENODEV''),
     (20, ''ENOTDIR''), (21, ''EISDIR''), (22, ''EINVAL''),
     (23, ''ENFILE''), (24, ''EMFILE''), (25, ''ENOTTY''),
     (27, ''EFBIG''), (28, ''ENOSPC''), (29, ''ESPIPE''),
     (30, ''EROFS''), (32, ''EPIPE''), (34, ''ERANGE''),
     (38, ''ENOSYS''), (75, ''EOVERFLOW''),
     (110, ''ETIMEDOUT''), (111, ''ECONNREFUSED'')] e"

lemma bpf_cmd_name_clean: "bpf_cmd_name c = Some n \<Longrightarrow> clean n"
proof -
  assume "bpf_cmd_name c = Some n"
  then have "n \<in> set bpf_cmd_names" by (auto simp: bpf_cmd_name_def split: if_splits)
  moreover have "list_all clean bpf_cmd_names" by (simp add: bpf_cmd_names_def)
  ultimately show "clean n" by (auto simp: list_all_iff)
qed

lemma fcntl_cmd_name_clean: "fcntl_cmd_name c = Some n \<Longrightarrow> clean n"
  unfolding fcntl_cmd_name_def by (erule map_of_clean) simp

lemma errno_name_clean: "errno_name e = Some n \<Longrightarrow> clean n"
  unfolding errno_name_def by (erule map_of_clean) simp

end
