(* ===== verification/Sd_Structs.thy ===== *)
theory Sd_Structs
  imports Sd_Flags
begin

text \<open>
  Structured arguments of \<open>src/sysdecode.c\<close>: socket addresses (\<open>print_sockaddr\<close>), times
  (\<open>print_timespec\<close>), string vectors (\<open>print_strv\<close>) and I/O vectors (\<open>print_iov\<close>). Structures are
  decoded from the bytes the reader returned, at the offsets and with the byte order of
  little-endian Linux.
\<close>

section \<open>Bytes as integers\<close>

definition le_nat :: "u8 list \<Rightarrow> nat" where
  "le_nat bs = foldr (\<lambda>b a. unat b + 256 * a) bs 0"

definition le_u64 :: "u8 list \<Rightarrow> u64" where "le_u64 bs = word_of_nat (le_nat bs)"
definition le_u32 :: "u8 list \<Rightarrow> u32" where "le_u32 bs = word_of_nat (le_nat bs)"

text \<open>\<open>ntohs\<close> of the two bytes in memory order.\<close>

definition ntohs_bytes :: "u8 list \<Rightarrow> nat" where
  "ntohs_bytes bs = 256 * unat (bs ! 0) + unat (bs ! 1)"

definition slice :: "nat \<Rightarrow> nat \<Rightarrow> u8 list \<Rightarrow> u8 list" where
  "slice i n bs = take n (drop i bs)"

text \<open>A read that must return exactly \<open>n\<close> bytes, as \<open>read_mem(...) == (ssize_t)n\<close>.\<close>

definition read_exact :: "syscall_parser \<Rightarrow> sd_event \<Rightarrow> u64 \<Rightarrow> nat \<Rightarrow> u8 list option" where
  "read_exact d ev addr n =
     (case read_mem d ev addr n of Inl _ \<Rightarrow> None | Inr bs \<Rightarrow> if length bs = n then Some bs else None)"

lemma le_nat_less: "le_nat bs < 256 ^ length bs"
proof (induction bs)
  case (Cons b bs)
  have "unat b + 256 * le_nat bs < 256 * 256 ^ length bs"
    using unat_u8_less [of b] Cons by linarith
  then show ?case by (simp add: le_nat_def)
qed (simp add: le_nat_def)

section \<open>Socket addresses\<close>

definition AF_UNIX :: nat where "AF_UNIX = 1"
definition AF_INET :: nat where "AF_INET = 2"
definition AF_INET6 :: nat where "AF_INET6 = 10"

lemmas af_defs = AF_UNIX_def AF_INET_def AF_INET6_def

definition strip_nul :: "u8 list \<Rightarrow> u8 list" where
  "strip_nul bs = rev (dropWhile (\<lambda>b. b = 0) (rev bs))"

definition ntop :: "platform \<Rightarrow> nat \<Rightarrow> u8 list \<Rightarrow> string" where
  "ntop P family bs = (case sys_inet_ntop P family bs of None \<Rightarrow> ''?'' | Some s \<Rightarrow> s)"

definition print_sockaddr ::
  "platform \<Rightarrow> syscall_parser \<Rightarrow> sd_event \<Rightarrow> out \<Rightarrow> u64 \<Rightarrow> nat \<Rightarrow> out" where
  "print_sockaddr P d ev ob addr supplied_len =
     (let want = (if supplied_len < 128 then supplied_len else 128)
      in if addr = 0 \<or> \<not> can_read d \<or> want < 2 then print_ptr ob (ev_abi ev) addr
         else
           let raw = (case read_mem d ev addr want of Inl _ \<Rightarrow> [] | Inr bs \<Rightarrow> bs); n = length raw
           in if n < 2 then out_printf (print_ptr ob (ev_abi ev) addr) '' /* unreadable sockaddr */''
              else
                let family = le_nat (take 2 raw)
                in if family = AF_INET \<and> 16 \<le> n then
                     out_printf ob (''{sa_family=AF_INET, sin_port=htons('' @ fmt_u (ntohs_bytes (slice 2 2 raw)) @
                       ''), sin_addr='' @ DQUOTE # ntop P AF_INET (slice 4 4 raw) @ DQUOTE # ''}'')
                   else if family = AF_INET6 \<and> 28 \<le> n then
                     out_printf ob (''{sa_family=AF_INET6, sin6_port=htons('' @ fmt_u (ntohs_bytes (slice 2 2 raw)) @
                       ''), sin6_addr='' @ DQUOTE # ntop P AF_INET6 (slice 8 16 raw) @ DQUOTE # ''}'')
                   else if family = AF_UNIX \<and> 2 < n then
                     let path = strip_nul (drop 2 raw);
                         ob1 = out_printf ob ''{sa_family=AF_UNIX, sun_path='';
                         ob2 = (if path \<noteq> [] \<and> hd path = 0
                                then print_quoted (out_printf ob1 ''@'') (tl path) False
                                else print_quoted ob1 path False)
                     in out_printf ob2 ''}''
                   else out_printf ob (''{sa_family='' @ fmt_u family @ '', ...}''))"

definition sockaddr_text :: "platform \<Rightarrow> syscall_parser \<Rightarrow> sd_event \<Rightarrow> u64 \<Rightarrow> nat \<Rightarrow> string" where
  "sockaddr_text P d ev addr supplied_len =
     (let want = (if supplied_len < 128 then supplied_len else 128);
          raw = (case read_mem d ev addr want of Inl _ \<Rightarrow> [] | Inr bs \<Rightarrow> bs);
          family = le_nat (take 2 raw);
          path = strip_nul (drop 2 raw)
      in if addr = 0 \<or> \<not> can_read d \<or> want < 2 then ptr_text (ev_abi ev) addr
         else if length raw < 2 then ptr_text (ev_abi ev) addr @ '' /* unreadable sockaddr */''
         else if family = AF_INET \<and> 16 \<le> length raw then
           ''{sa_family=AF_INET, sin_port=htons('' @ fmt_u (ntohs_bytes (slice 2 2 raw)) @
             ''), sin_addr='' @ DQUOTE # ntop P AF_INET (slice 4 4 raw) @ DQUOTE # ''}''
         else if family = AF_INET6 \<and> 28 \<le> length raw then
           ''{sa_family=AF_INET6, sin6_port=htons('' @ fmt_u (ntohs_bytes (slice 2 2 raw)) @
             ''), sin6_addr='' @ DQUOTE # ntop P AF_INET6 (slice 8 16 raw) @ DQUOTE # ''}''
         else if family = AF_UNIX \<and> 2 < length raw then
           (if path \<noteq> [] \<and> hd path = 0 then ''{sa_family=AF_UNIX, sun_path=@'' @ quoted_text (tl path) False
            else ''{sa_family=AF_UNIX, sun_path='' @ quoted_text path False) @ ''}''
         else ''{sa_family='' @ fmt_u family @ '', ...}'')"

lemma print_sockaddr_render [render, simp]:
  "wf_out ob \<Longrightarrow> print_sockaddr P d ev ob addr n = out_printf ob (sockaddr_text P d ev addr n)"
  unfolding print_sockaddr_def sockaddr_text_def Let_def
  by (simp add: render split del: if_split cong: if_cong)

text \<open>What the platform's own texts must be for a printable line.\<close>

definition platform_clean :: "platform \<Rightarrow> bool" where
  "platform_clean P \<longleftrightarrow> (\<forall>e. clean (sys_strerror P e)) \<and> (\<forall>f bs s. sys_inet_ntop P f bs = Some s \<longrightarrow> clean s)"

lemma ntop_clean [clean]: "platform_clean P \<Longrightarrow> clean (ntop P f bs)"
  by (auto simp: platform_clean_def ntop_def split: option.split)

lemma sockaddr_text_clean [clean]: "platform_clean P \<Longrightarrow> clean (sockaddr_text P d ev addr n)"
  by (simp only: sockaddr_text_def Let_def clean_eval ntop_clean ptr_text_clean quoted_text_clean)

section \<open>Times\<close>

definition print_timespec :: "syscall_parser \<Rightarrow> sd_event \<Rightarrow> out \<Rightarrow> u64 \<Rightarrow> bool \<Rightarrow> out" where
  "print_timespec d ev ob addr time64 =
     (if addr = 0 then out_printf ob ''NULL''
      else if ev_abi ev = SD_ABI_ARM64 \<or> time64 then
        (case read_exact d ev addr 16 of
           Some ts \<Rightarrow> out_printf ob (''{tv_sec='' @ fmt_d (sint (le_u64 (slice 0 8 ts))) @
                        '', tv_nsec='' @ fmt_d (sint (le_u64 (slice 8 8 ts))) @ ''}'')
         | None \<Rightarrow> print_ptr ob (ev_abi ev) addr)
      else
        (case read_exact d ev addr 8 of
           Some ts \<Rightarrow> out_printf ob (''{tv_sec='' @ fmt_d (sint (le_u32 (slice 0 4 ts))) @
                        '', tv_nsec='' @ fmt_d (sint (le_u32 (slice 4 4 ts))) @ ''}'')
         | None \<Rightarrow> print_ptr ob (ev_abi ev) addr))"

definition timespec_text :: "syscall_parser \<Rightarrow> sd_event \<Rightarrow> u64 \<Rightarrow> bool \<Rightarrow> string" where
  "timespec_text d ev addr time64 =
     (let w = (if ev_abi ev = SD_ABI_ARM64 \<or> time64 then 8 else 4);
          val = (\<lambda>bs. if w = 8 then sint (le_u64 bs) else sint (le_u32 bs))
      in if addr = 0 then ''NULL''
         else case read_exact d ev addr (2 * w) of
                Some ts \<Rightarrow> ''{tv_sec='' @ fmt_d (val (slice 0 w ts)) @ '', tv_nsec='' @ fmt_d (val (slice w w ts)) @ ''}''
              | None \<Rightarrow> ptr_text (ev_abi ev) addr)"

lemma print_timespec_render [render, simp]:
  "print_timespec d ev ob addr t64 = out_printf ob (timespec_text d ev addr t64)"
  by (simp add: print_timespec_def timespec_text_def Let_def split: option.split)

lemma timespec_text_clean [clean, simp]: "clean (timespec_text d ev addr t64)"
  by (simp only: timespec_text_def Let_def clean_eval ptr_text_clean)

section \<open>String vectors\<close>

text \<open>Texts separated by commas; the flag says whether the first one opens the list.\<close>

primrec commas :: "bool \<Rightarrow> string list \<Rightarrow> string" where
  "commas first [] = []"
| "commas first (t # ts) = (if first then [] else '', '') @ t @ commas False ts"

lemma commas_clean: "(\<forall>t \<in> set ts. clean t) \<Longrightarrow> clean (commas b ts)"
  by (induction ts arbitrary: b) simp_all

definition ptr_width :: "sd_abi \<Rightarrow> nat" where
  "ptr_width abi = (if abi = SD_ABI_ARM64 then 8 else 4)"

function print_strv_loop ::
  "platform \<Rightarrow> syscall_parser \<Rightarrow> sd_event \<Rightarrow> u64 \<Rightarrow> out \<Rightarrow> nat \<Rightarrow> out \<times> nat" where
  "print_strv_loop P d ev addr ob i =
     (if i < max_array (opt d) then
        (case read_exact d ev (addr + of_nat i * of_nat (ptr_width (ev_abi ev))) (ptr_width (ev_abi ev)) of
           None \<Rightarrow> (out_printf ob ((if i \<noteq> 0 then '', '' else []) @ ''... /* unreadable */''), i)
         | Some bs \<Rightarrow>
             let p = ptr_value (ev_abi ev) (le_u64 bs)
             in if p = 0 then (ob, i)
                else
                  let ob1 = (if i \<noteq> 0 then out_printf ob '', '' else ob)
                  in print_strv_loop P d ev addr (print_cstring P d ev ob1 p) (i + 1))
      else (ob, i))"
  by pat_completeness auto
termination by (relation "measure (\<lambda>(P, d, ev, addr, ob, i). max_array (opt d) - i)") auto

declare print_strv_loop.simps [simp del]

definition print_strv :: "platform \<Rightarrow> syscall_parser \<Rightarrow> sd_event \<Rightarrow> out \<Rightarrow> u64 \<Rightarrow> out" where
  "print_strv P d ev ob addr =
     (if addr = 0 then out_printf ob ''NULL''
      else if \<not> can_read d then print_ptr ob (ev_abi ev) addr
      else
        (case print_strv_loop P d ev addr (out_printf ob ''['') 0 of
           (ob1, i) \<Rightarrow>
             let ob2 = (if i = max_array (opt d) then out_printf ob1 '', ...'' else ob1)
             in out_printf ob2 '']''))"

text \<open>
  What the loop is to show: the non-null pointers of the vector up to its end, and how the
  listing ended.
\<close>

datatype vec_end = Vec_null | Vec_unreadable | Vec_full

primrec strv_ref :: "syscall_parser \<Rightarrow> sd_event \<Rightarrow> u64 \<Rightarrow> nat \<Rightarrow> nat \<Rightarrow> u64 list \<times> vec_end" where
  "strv_ref d ev addr i 0 = ([], Vec_full)"
| "strv_ref d ev addr i (Suc n) =
     (case read_exact d ev (addr + of_nat i * of_nat (ptr_width (ev_abi ev))) (ptr_width (ev_abi ev)) of
        None \<Rightarrow> ([], Vec_unreadable)
      | Some bs \<Rightarrow>
          if ptr_value (ev_abi ev) (le_u64 bs) = 0 then ([], Vec_null)
          else (ptr_value (ev_abi ev) (le_u64 bs) # fst (strv_ref d ev addr (i + 1) n), snd (strv_ref d ev addr (i + 1) n)))"

definition vec_end_text :: "bool \<Rightarrow> vec_end \<Rightarrow> string" where
  "vec_end_text none e = (case e of Vec_null \<Rightarrow> [] | Vec_full \<Rightarrow> '', ...''
     | Vec_unreadable \<Rightarrow> (if none then [] else '', '') @ ''... /* unreadable */'')"

definition strv_text :: "platform \<Rightarrow> syscall_parser \<Rightarrow> sd_event \<Rightarrow> u64 \<Rightarrow> string" where
  "strv_text P d ev addr =
     (if addr = 0 then ''NULL''
      else if \<not> can_read d then ptr_text (ev_abi ev) addr
      else case strv_ref d ev addr 0 (max_array (opt d)) of
             (ps, e) \<Rightarrow> ''['' @ commas True (map (cstring_text P d ev) ps) @ vec_end_text (ps = []) e @ '']'')"

lemma strv_ref_full:
  "length (fst (strv_ref d ev addr i n)) \<le> n \<and>
   (snd (strv_ref d ev addr i n) = Vec_full \<longleftrightarrow> length (fst (strv_ref d ev addr i n)) = n)"
  by (induction n arbitrary: i) (auto split: option.split)

lemma print_strv_loop_render:
  assumes "wf_out ob" "i + n = max_array (opt d)"
  shows "print_strv_loop P d ev addr ob i =
    (case strv_ref d ev addr i n of (ps, e) \<Rightarrow>
      (out_printf ob (commas (i = 0) (map (cstring_text P d ev) ps) @
         (if e = Vec_unreadable then vec_end_text (i = 0 \<and> ps = []) e else [])), i + length ps))"
  using assms
proof (induction n arbitrary: i ob)
  case 0
  then show ?case by (subst print_strv_loop.simps) simp
next
  case (Suc n)
  have "Suc i + n = max_array (opt d)" "i < max_array (opt d)" using Suc.prems(2) by linarith+
  with Suc show ?case
    by (subst print_strv_loop.simps)
      (auto simp: Let_def vec_end_text_def case_prod_beta split: option.split)
qed

lemma print_strv_render [render, simp]:
  "wf_out ob \<Longrightarrow> print_strv P d ev ob addr = out_printf ob (strv_text P d ev addr)"
  using print_strv_loop_render [of "out_printf ob ''[''" 0 "max_array (opt d)" d P ev addr]
    strv_ref_full [of d ev addr 0 "max_array (opt d)"]
  by (auto simp: print_strv_def strv_text_def vec_end_text_def case_prod_beta Let_def split: vec_end.split)

lemma strv_text_clean [clean, simp]: "clean (strv_text P d ev addr)"
  by (auto simp: strv_text_def vec_end_text_def case_prod_beta intro!: commas_clean split: vec_end.split)

section \<open>I/O vectors\<close>

text \<open>One element: its base and length words, and how many of its bytes are within the limit.\<close>

definition iov_words :: "sd_abi \<Rightarrow> u8 list \<Rightarrow> u64 \<times> u64" where
  "iov_words abi raw =
     (ptr_value abi (le_u64 (slice 0 (ptr_width abi) raw)),
      ptr_value abi (le_u64 (slice (ptr_width abi) (ptr_width abi) raw)))"

function print_iov_loop ::
  "platform \<Rightarrow> syscall_parser \<Rightarrow> sd_event \<Rightarrow> u64 \<Rightarrow> bool \<Rightarrow> nat \<Rightarrow> out \<Rightarrow> nat \<Rightarrow> u64 \<Rightarrow> out" where
  "print_iov_loop P d ev addr show_data cnt ob i total_limit =
     (if i < cnt then
        (case read_exact d ev (addr + of_nat i * of_nat (2 * ptr_width (ev_abi ev))) (2 * ptr_width (ev_abi ev)) of
           None \<Rightarrow> out_printf ob ((if i \<noteq> 0 then '', '' else []) @ ''... /* unreadable */'')
         | Some raw \<Rightarrow>
             (case iov_words (ev_abi ev) raw of
                (base, len) \<Rightarrow>
                  let ob1 = (if i \<noteq> 0 then out_printf ob '', '' else ob);
                      ob2 = out_printf ob1 ''{iov_base='';
                      shown = (if len < total_limit then len else total_limit);
                      ob3 = (if show_data then print_buffer P d ev ob2 base shown
                             else print_ptr ob2 (ev_abi ev) base);
                      ob4 = out_printf ob3 ('', iov_len='' @ fmt_u (unat len) @ ''}'')
                  in print_iov_loop P d ev addr show_data cnt ob4 (i + 1)
                       (if total_limit > shown then total_limit - shown else 0)))
      else ob)"
  by pat_completeness auto
termination by (relation "measure (\<lambda>(P, d, ev, addr, sh, cnt, ob, i, room). cnt - i)") auto

declare print_iov_loop.simps [simp del]

definition print_iov ::
  "platform \<Rightarrow> syscall_parser \<Rightarrow> sd_event \<Rightarrow> out \<Rightarrow> u64 \<Rightarrow> u64 \<Rightarrow> bool \<Rightarrow> u64 \<Rightarrow> out" where
  "print_iov P d ev ob addr cnt show_data total_limit =
     (if addr = 0 \<or> \<not> can_read d then print_ptr ob (ev_abi ev) addr
      else
        let ob1 = out_printf ob ''['';
            n = (if unat cnt > max_array (opt d) then max_array (opt d) else unat cnt)
        in out_printf (print_iov_loop P d ev addr show_data n ob1 0 total_limit) '']'')"

text \<open>The elements to show as base, length and shown bytes; the flag marks an unreadable one.\<close>

primrec iov_ref ::
  "syscall_parser \<Rightarrow> sd_event \<Rightarrow> u64 \<Rightarrow> nat \<Rightarrow> u64 \<Rightarrow> nat \<Rightarrow> (u64 \<times> u64 \<times> u64) list \<times> bool" where
  "iov_ref d ev addr i room 0 = ([], False)"
| "iov_ref d ev addr i room (Suc n) =
     (case read_exact d ev (addr + of_nat i * of_nat (2 * ptr_width (ev_abi ev))) (2 * ptr_width (ev_abi ev)) of
        None \<Rightarrow> ([], True)
      | Some raw \<Rightarrow>
          let base = fst (iov_words (ev_abi ev) raw); len = snd (iov_words (ev_abi ev) raw); shown = min len room
          in ((base, len, shown) # fst (iov_ref d ev addr (i + 1) (room - shown) n),
              snd (iov_ref d ev addr (i + 1) (room - shown) n)))"

definition iov_item_text :: "platform \<Rightarrow> syscall_parser \<Rightarrow> sd_event \<Rightarrow> bool \<Rightarrow> u64 \<times> u64 \<times> u64 \<Rightarrow> string" where
  "iov_item_text P d ev show_data = (\<lambda>(base, len, shown).
     ''{iov_base='' @ (if show_data then buffer_text P d ev base shown else ptr_text (ev_abi ev) base) @
     '', iov_len='' @ fmt_u (unat len) @ ''}'')"

definition iov_text :: "platform \<Rightarrow> syscall_parser \<Rightarrow> sd_event \<Rightarrow> u64 \<Rightarrow> u64 \<Rightarrow> bool \<Rightarrow> u64 \<Rightarrow> string" where
  "iov_text P d ev addr cnt show_data room =
     (if addr = 0 \<or> \<not> can_read d then ptr_text (ev_abi ev) addr
      else case iov_ref d ev addr 0 room (min (unat cnt) (max_array (opt d))) of
             (items, bad) \<Rightarrow>
               ''['' @ commas True (map (iov_item_text P d ev show_data) items) @
               (if bad then vec_end_text (items = []) Vec_unreadable else []) @ '']'')"

lemma print_iov_loop_step:
  assumes "wf_out ob" "i < cnt"
  shows "print_iov_loop P d ev addr show_data cnt ob i room =
    (case read_exact d ev (addr + of_nat i * of_nat (2 * ptr_width (ev_abi ev))) (2 * ptr_width (ev_abi ev)) of
       None \<Rightarrow> out_printf ob ((if i \<noteq> 0 then '', '' else []) @ ''... /* unreadable */'')
     | Some raw \<Rightarrow>
         (case iov_words (ev_abi ev) raw of (base, len) \<Rightarrow>
            print_iov_loop P d ev addr show_data cnt
              (out_printf ob ((if i = 0 then [] else '', '') @ iov_item_text P d ev show_data (base, len, min len room)))
              (i + 1) (room - min len room)))"
proof -
  have m: "(if len < room then len else room) = min len room" for len :: u64
    by (auto simp: min_def)
  have r: "(if room > min len room then room - min len room else 0) = room - min len room" for len :: u64
    by (auto simp: min_def)
  show ?thesis
    using assms by (subst print_iov_loop.simps)
      (simp add: Let_def m r iov_item_text_def split: option.split prod.split)
qed

lemma print_iov_loop_render:
  assumes "wf_out ob" "i + n = cnt"
  shows "print_iov_loop P d ev addr show_data cnt ob i room =
    (case iov_ref d ev addr i room n of (items, bad) \<Rightarrow>
      out_printf ob (commas (i = 0) (map (iov_item_text P d ev show_data) items) @
        (if bad then vec_end_text (i = 0 \<and> items = []) Vec_unreadable else [])))"
  using assms
proof (induction n arbitrary: i ob room)
  case 0
  then show ?case by (subst print_iov_loop.simps) simp
next
  case (Suc n)
  have n: "Suc i + n = cnt" "i < cnt" using Suc.prems(2) by linarith+
  show ?case
    by (simp add: print_iov_loop_step [OF Suc.prems(1) n(2)] Suc.IH [OF _ n(1)] Suc.prems(1)
        case_prod_beta Let_def split: option.split split del: if_split)
      (simp add: vec_end_text_def Let_def)
qed

lemma print_iov_render [render, simp]:
  "wf_out ob \<Longrightarrow> print_iov P d ev ob addr cnt show_data room = out_printf ob (iov_text P d ev addr cnt show_data room)"
  using print_iov_loop_render [of "out_printf ob ''[''" 0 "min (unat cnt) (max_array (opt d))"
      "min (unat cnt) (max_array (opt d))" P d ev addr show_data room]
  by (auto simp: print_iov_def iov_text_def case_prod_beta Let_def min_def split: if_splits)

lemma iov_text_clean [clean, simp]: "clean (iov_text P d ev addr cnt show_data room)"
  by (auto simp: iov_text_def vec_end_text_def iov_item_text_def case_prod_beta intro!: commas_clean)

lemma iov_ref_bounds:
  "length (fst (iov_ref d ev addr i room n)) \<le> n \<and>
   list_all (\<lambda>(base, len, shown). shown \<le> len) (fst (iov_ref d ev addr i room n)) \<and>
   sum_list (map (\<lambda>(base, len, shown). unat shown) (fst (iov_ref d ev addr i room n))) \<le> unat room"
proof (induction n arbitrary: i room)
  case (Suc n)
  have "unat (min len room) + unat (room - min len room) = unat room" for len :: u64
    by (simp add: unat_sub min_def word_le_nat_alt)
  then have "unat (min len room) + x \<le> unat room" if "x \<le> unat (room - min len room)" for x and len :: u64
    using that by (metis add_le_cancel_left)
  with Suc show ?case by (auto simp: Let_def split: option.split)
qed simp

text \<open>
  Claim C31. Whatever the vector in the traced process says, an I/O vector argument lists at
  most \<open>max_array\<close> elements, no element shows more bytes than its own length, and all elements
  together show no more bytes than the limit (the system call's result for an output vector).
\<close>

theorem iov_shown_bounded:
  assumes "wf_out ob" "addr \<noteq> 0" "can_read d"
  shows "\<exists>items tail. print_iov P d ev ob addr cnt show_data room =
      out_printf ob (''['' @ commas True (map (iov_item_text P d ev show_data) items) @ tail @ '']'') \<and>
    (tail = [] \<or> tail = vec_end_text (items = []) Vec_unreadable) \<and>
    length items \<le> min (unat cnt) (max_array (opt d)) \<and> list_all (\<lambda>(base, len, shown). shown \<le> len) items \<and>
    sum_list (map (\<lambda>(base, len, shown). unat shown) items) \<le> unat room"
proof -
  obtain items bad where r: "iov_ref d ev addr 0 room (min (unat cnt) (max_array (opt d))) = (items, bad)" by force
  then show ?thesis
    using iov_ref_bounds [of d ev addr 0 room "min (unat cnt) (max_array (opt d))"] assms
    by (intro exI [of _ items] exI [of _ "if bad then vec_end_text (items = []) Vec_unreadable else []"])
      (simp add: iov_text_def)
qed

lemma iov_shown_bounded_witness:
  "\<exists>items tail. print_iov demo_platform (main_parser (mapped_readv demo_mem)) (demo_event 65 [3, 0x2000, 2, 0, 0, 0] 6) demo_out
      0x2000 2 True 6 =
    out_printf demo_out (''['' @ commas True (map (iov_item_text demo_platform (main_parser (mapped_readv demo_mem))
      (demo_event 65 [3, 0x2000, 2, 0, 0, 0] 6) True) items) @ tail @ '']'') \<and>
    length items \<le> 2 \<and> sum_list (map (\<lambda>(base, len, shown). unat shown) items) \<le> 6"
  using iov_shown_bounded [OF wf_demo_out, of "0x2000" "main_parser (mapped_readv demo_mem)" demo_platform
      "demo_event 65 [3, 0x2000, 2, 0, 0, 0] 6" 2 True 6]
  by (simp add: can_read_def del: print_iov_render) blast

section \<open>Times, written and read back\<close>

primrec le_bytes :: "nat \<Rightarrow> nat \<Rightarrow> u8 list" where
  "le_bytes 0 v = []"
| "le_bytes (Suc n) v = word_of_nat (v mod 256) # le_bytes n (v div 256)"

lemma length_le_bytes [simp]: "length (le_bytes n v) = n"
  by (induction n arbitrary: v) simp_all

lemma le_nat_le_bytes: "le_nat (le_bytes n v) = v mod 256 ^ n"
proof (induction n arbitrary: v)
  case (Suc n)
  have "v mod 256 + 256 * (v div 256 mod 256 ^ n) = v mod 256 ^ Suc n"
    by (simp add: mod_mult2_eq)
  with Suc show ?case by (simp add: le_nat_def unsigned_of_nat take_bit_eq_mod)
qed (simp add: le_nat_def)

lemma slice_append: "length a = n \<Longrightarrow> slice 0 n (a @ b) = a" "length a = n \<Longrightarrow> length b = n \<Longrightarrow> slice n n (a @ b) = b"
  by (simp_all add: slice_def)

lemma word_of_nat_mod: "(word_of_nat (nat (v mod 2 ^ LENGTH('a))) :: 'a::len word) = word_of_int v"
proof -
  have "(word_of_nat (nat (v mod 2 ^ LENGTH('a))) :: 'a word) = word_of_int (v mod 2 ^ LENGTH('a))"
    by (simp add: of_nat_nat)
  then show ?thesis by (simp add: word_of_int_eq_iff take_bit_eq_mod)
qed

lemma sint_word_of_nat_mod:
  fixes v :: int
  shows "- (2 ^ 63) \<le> v \<Longrightarrow> v < 2 ^ 63 \<Longrightarrow> sint (word_of_nat (nat (v mod 2 ^ 64)) :: u64) = v"
    and "- (2 ^ 31) \<le> v \<Longrightarrow> v < 2 ^ 31 \<Longrightarrow> sint (word_of_nat (nat (v mod 2 ^ 32)) :: u32) = v"
  using word_of_nat_mod [of v, where 'a = 64] word_of_nat_mod [of v, where 'a = 32]
  by (simp_all add: signed_of_int signed_take_bit_int_eq_self)

definition le_field :: "nat \<Rightarrow> int \<Rightarrow> u8 list" where
  "le_field w v = le_bytes w (nat (v mod 256 ^ w))"

lemma length_le_field [simp]: "length (le_field w v) = w"
  by (simp add: le_field_def)

lemma le_field_value:
  "- (2 ^ 63) \<le> v \<Longrightarrow> v < 2 ^ 63 \<Longrightarrow> sint (le_u64 (le_field 8 v)) = v"
  "- (2 ^ 31) \<le> v \<Longrightarrow> v < 2 ^ 31 \<Longrightarrow> sint (le_u32 (le_field 4 v)) = v"
  using sint_word_of_nat_mod [of v]
  by (simp_all add: le_u64_def le_u32_def le_field_def le_nat_le_bytes nat_mod_distrib [symmetric])

text \<open>
  A \<open>struct timespec\<close> of the traced process is shown with the very numbers its two
  signed fields hold: eight bytes each for arm64 and for the \<open>time64\<close> calls, four for the other
  arm32 calls.
\<close>

theorem timespec_shown:
  assumes "addr \<noteq> 0" "w = (if ev_abi ev = SD_ABI_ARM64 \<or> time64 then 8 else 4)"
    and "- (2 ^ (8 * w - 1)) \<le> sec" "sec < 2 ^ (8 * w - 1)"
    and "- (2 ^ (8 * w - 1)) \<le> nsec" "nsec < 2 ^ (8 * w - 1)"
    and "read_exact d ev addr (2 * w) = Some (le_field w sec @ le_field w nsec)"
  shows "print_timespec d ev ob addr time64 =
    out_printf ob (''{tv_sec='' @ fmt_d sec @ '', tv_nsec='' @ fmt_d nsec @ ''}'')"
proof (cases "ev_abi ev = SD_ABI_ARM64 \<or> time64")
  case True
  with assms show ?thesis
    by (simp add: print_timespec_def slice_append le_field_value del: print_timespec_render)
next
  case False
  with assms show ?thesis
    by (simp add: print_timespec_def slice_append le_field_value del: print_timespec_render)
qed

lemma timespec_shown_witness:
  "print_timespec \<lparr>opt = main_options, reader_read = Some (\<lambda>pid a n. Inr (le_field 8 (- 5) @ le_field 8 250))\<rparr>
     (demo_event 115 [] 0) demo_out 0x1000 False = out_printf demo_out ''{tv_sec=-5, tv_nsec=250}''"
  using timespec_shown [of "0x1000" 8 "demo_event 115 [] 0" False "- 5" 250
      "\<lparr>opt = main_options, reader_read = Some (\<lambda>pid a n. Inr (le_field 8 (- 5) @ le_field 8 250))\<rparr>" demo_out]
  by (simp add: read_exact_def read_mem_def can_read_def fmt_d_def fmt_u_def digits.simps digit_char_def
    del: print_timespec_render)

end
