(* ===== verification/Sd_Calls.thy ===== *)
theory Sd_Calls
  imports Sd_Structs Name_Order
begin

text \<open>
  Typed arguments of \<open>src/sysdecode.c\<close>: the argument kinds, the table \<open>calls\<close> that gives the
  kinds of the known system calls, its search \<open>find_call\<close>, and \<open>print_arg\<close>, which renders one
  argument by its kind. The table is shown to be well formed: an argument that refers to
  another one (a buffer to its length, an address to its size) refers to one that exists.
\<close>

section \<open>The table\<close>

datatype arg_kind =
  A_HEX | A_INT | A_LONG | A_UINT | A_FD | A_DIRFD | A_PID | A_PTR | A_STR | A_PATH |
  A_STRV | A_SIZE | A_MODE | A_OPEN | A_PROT | A_MAP | A_SIG | A_BUF_IN | A_BUF_OUT |
  A_SOCKADDR | A_TIMESPEC | A_TIME64 | A_TIMESPEC_OUT | A_TIME64_OUT | A_IOV_IN |
  A_IOV_OUT

record arg_desc =
  ad_kind :: arg_kind
  ad_aux :: int

record call_desc =
  call_name :: string
  call_nargs :: nat
  call_arg :: "arg_desc list"

definition AD :: "arg_kind \<Rightarrow> arg_desc" where "AD k = \<lparr>ad_kind = k, ad_aux = - 1\<rparr>"
definition AL :: "arg_kind \<Rightarrow> int \<Rightarrow> arg_desc" where "AL k n = \<lparr>ad_kind = k, ad_aux = n\<rparr>"

text \<open>The unnamed elements of a C initialiser are zero: kind \<open>A_HEX\<close>, aux 0.\<close>

definition CALL :: "string \<Rightarrow> nat \<Rightarrow> arg_desc list \<Rightarrow> call_desc" where
  "CALL n c as = \<lparr>call_name = n, call_nargs = c, call_arg = as @ replicate (6 - length as) (AL A_HEX 0)\<rparr>"

definition calls :: "call_desc list" where
  "calls = [
     CALL ''read'' 3 [AD A_FD, AL A_BUF_OUT 2, AD A_SIZE],
     CALL ''write'' 3 [AD A_FD, AL A_BUF_IN 2, AD A_SIZE],
     CALL ''pread64'' 4 [AD A_FD, AL A_BUF_OUT 2, AD A_SIZE, AD A_HEX],
     CALL ''pwrite64'' 4 [AD A_FD, AL A_BUF_IN 2, AD A_SIZE, AD A_HEX],
     CALL ''readv'' 3 [AD A_FD, AL A_IOV_OUT 2, AD A_UINT],
     CALL ''writev'' 3 [AD A_FD, AL A_IOV_IN 2, AD A_UINT],
     CALL ''open'' 3 [AD A_PATH, AD A_OPEN, AD A_MODE],
     CALL ''openat'' 4 [AD A_DIRFD, AD A_PATH, AD A_OPEN, AD A_MODE],
     CALL ''creat'' 2 [AD A_PATH, AD A_MODE],
     CALL ''close'' 1 [AD A_FD],
     CALL ''dup'' 1 [AD A_FD],
     CALL ''dup2'' 2 [AD A_FD, AD A_FD],
     CALL ''dup3'' 3 [AD A_FD, AD A_FD, AD A_HEX],
     CALL ''lseek'' 3 [AD A_FD, AD A_LONG, AD A_UINT],
     CALL ''access'' 2 [AD A_PATH, AD A_HEX],
     CALL ''faccessat'' 3 [AD A_DIRFD, AD A_PATH, AD A_HEX],
     CALL ''faccessat2'' 4 [AD A_DIRFD, AD A_PATH, AD A_HEX, AD A_HEX],
     CALL ''chdir'' 1 [AD A_PATH],
     CALL ''chroot'' 1 [AD A_PATH],
     CALL ''fchdir'' 1 [AD A_FD],
     CALL ''mkdir'' 2 [AD A_PATH, AD A_MODE],
     CALL ''mkdirat'' 3 [AD A_DIRFD, AD A_PATH, AD A_MODE],
     CALL ''rmdir'' 1 [AD A_PATH],
     CALL ''unlink'' 1 [AD A_PATH],
     CALL ''unlinkat'' 3 [AD A_DIRFD, AD A_PATH, AD A_HEX],
     CALL ''rename'' 2 [AD A_PATH, AD A_PATH],
     CALL ''renameat'' 4 [AD A_DIRFD, AD A_PATH, AD A_DIRFD, AD A_PATH],
     CALL ''renameat2'' 5 [AD A_DIRFD, AD A_PATH, AD A_DIRFD, AD A_PATH, AD A_HEX],
     CALL ''link'' 2 [AD A_PATH, AD A_PATH],
     CALL ''symlink'' 2 [AD A_PATH, AD A_PATH],
     CALL ''readlink'' 3 [AD A_PATH, AL A_BUF_OUT 2, AD A_SIZE],
     CALL ''readlinkat'' 4 [AD A_DIRFD, AD A_PATH, AL A_BUF_OUT 3, AD A_SIZE],
     CALL ''chmod'' 2 [AD A_PATH, AD A_MODE],
     CALL ''fchmod'' 2 [AD A_FD, AD A_MODE],
     CALL ''fchmodat'' 3 [AD A_DIRFD, AD A_PATH, AD A_MODE],
     CALL ''truncate'' 2 [AD A_PATH, AD A_SIZE],
     CALL ''ftruncate'' 2 [AD A_FD, AD A_SIZE],
     CALL ''stat'' 2 [AD A_PATH, AD A_PTR],
     CALL ''lstat'' 2 [AD A_PATH, AD A_PTR],
     CALL ''fstat'' 2 [AD A_FD, AD A_PTR],
     CALL ''newfstatat'' 4 [AD A_DIRFD, AD A_PATH, AD A_PTR, AD A_HEX],
     CALL ''statx'' 5 [AD A_DIRFD, AD A_PATH, AD A_HEX, AD A_HEX, AD A_PTR],
     CALL ''getcwd'' 2 [AL A_BUF_OUT 1, AD A_SIZE],
     CALL ''execve'' 3 [AD A_PATH, AD A_STRV, AD A_STRV],
     CALL ''execveat'' 5 [AD A_DIRFD, AD A_PATH, AD A_STRV, AD A_STRV, AD A_HEX],
     CALL ''exit'' 1 [AD A_INT],
     CALL ''exit_group'' 1 [AD A_INT],
     CALL ''kill'' 2 [AD A_PID, AD A_SIG],
     CALL ''tgkill'' 3 [AD A_PID, AD A_PID, AD A_SIG],
     CALL ''tkill'' 2 [AD A_PID, AD A_SIG],
     CALL ''wait4'' 4 [AD A_PID, AD A_PTR, AD A_HEX, AD A_PTR],
     CALL ''mmap'' 6 [AD A_PTR, AD A_SIZE, AD A_PROT, AD A_MAP, AD A_FD, AD A_HEX],
     CALL ''mmap2'' 6 [AD A_PTR, AD A_SIZE, AD A_PROT, AD A_MAP, AD A_FD, AD A_HEX],
     CALL ''munmap'' 2 [AD A_PTR, AD A_SIZE],
     CALL ''mprotect'' 3 [AD A_PTR, AD A_SIZE, AD A_PROT],
     CALL ''madvise'' 3 [AD A_PTR, AD A_SIZE, AD A_INT],
     CALL ''brk'' 1 [AD A_PTR],
     CALL ''socket'' 3 [AD A_INT, AD A_HEX, AD A_INT],
     CALL ''bind'' 3 [AD A_FD, AL A_SOCKADDR 2, AD A_SIZE],
     CALL ''connect'' 3 [AD A_FD, AL A_SOCKADDR 2, AD A_SIZE],
     CALL ''listen'' 2 [AD A_FD, AD A_INT],
     CALL ''accept'' 3 [AD A_FD, AD A_PTR, AD A_PTR],
     CALL ''accept4'' 4 [AD A_FD, AD A_PTR, AD A_PTR, AD A_HEX],
     CALL ''sendto'' 6 [AD A_FD, AL A_BUF_IN 2, AD A_SIZE, AD A_HEX, AL A_SOCKADDR 5, AD A_SIZE],
     CALL ''recvfrom'' 6 [AD A_FD, AL A_BUF_OUT 2, AD A_SIZE, AD A_HEX, AD A_PTR, AD A_PTR],
     CALL ''sendmsg'' 3 [AD A_FD, AD A_PTR, AD A_HEX],
     CALL ''recvmsg'' 3 [AD A_FD, AD A_PTR, AD A_HEX],
     CALL ''shutdown'' 2 [AD A_FD, AD A_INT],
     CALL ''getsockname'' 3 [AD A_FD, AD A_PTR, AD A_PTR],
     CALL ''getpeername'' 3 [AD A_FD, AD A_PTR, AD A_PTR],
     CALL ''setsockopt'' 5 [AD A_FD, AD A_INT, AD A_INT, AD A_PTR, AD A_SIZE],
     CALL ''getsockopt'' 5 [AD A_FD, AD A_INT, AD A_INT, AD A_PTR, AD A_PTR],
     CALL ''pipe'' 1 [AD A_PTR],
     CALL ''pipe2'' 2 [AD A_PTR, AD A_HEX],
     CALL ''eventfd2'' 2 [AD A_UINT, AD A_HEX],
     CALL ''epoll_create1'' 1 [AD A_HEX],
     CALL ''epoll_ctl'' 4 [AD A_FD, AD A_INT, AD A_FD, AD A_PTR],
     CALL ''nanosleep'' 2 [AD A_TIMESPEC, AD A_PTR],
     CALL ''clock_nanosleep'' 4 [AD A_INT, AD A_HEX, AD A_TIMESPEC, AD A_PTR],
     CALL ''clock_gettime'' 2 [AD A_INT, AD A_TIMESPEC_OUT],
     CALL ''clock_settime'' 2 [AD A_INT, AD A_TIMESPEC],
     CALL ''clock_gettime64'' 2 [AD A_INT, AD A_TIME64_OUT],
     CALL ''clock_settime64'' 2 [AD A_INT, AD A_TIME64],
     CALL ''getrandom'' 3 [AL A_BUF_OUT 1, AD A_SIZE, AD A_HEX],
     CALL ''memfd_create'' 2 [AD A_STR, AD A_HEX],
     CALL ''prctl'' 5 [AD A_INT, AD A_HEX, AD A_HEX, AD A_HEX, AD A_HEX],
     CALL ''seccomp'' 3 [AD A_UINT, AD A_HEX, AD A_PTR],
     CALL ''mount'' 5 [AD A_STR, AD A_PATH, AD A_STR, AD A_HEX, AD A_PTR],
     CALL ''umount2'' 2 [AD A_PATH, AD A_HEX],
     CALL ''setxattr'' 5 [AD A_PATH, AD A_STR, AL A_BUF_IN 3, AD A_SIZE, AD A_HEX],
     CALL ''getxattr'' 4 [AD A_PATH, AD A_STR, AL A_BUF_OUT 3, AD A_SIZE],
     CALL ''listxattr'' 3 [AD A_PATH, AL A_BUF_OUT 2, AD A_SIZE],
     CALL ''removexattr'' 2 [AD A_PATH, AD A_STR],
     CALL ''inotify_add_watch'' 3 [AD A_FD, AD A_PATH, AD A_HEX],
     CALL ''inotify_rm_watch'' 2 [AD A_FD, AD A_INT]]"

fun find_call_loop :: "call_desc list \<Rightarrow> string \<Rightarrow> call_desc option" where
  "find_call_loop [] n = None"
| "find_call_loop (c # cs) n = (if call_name c = n then Some c else find_call_loop cs n)"

definition find_call :: "string \<Rightarrow> call_desc option" where
  "find_call n = find_call_loop calls n"

lemma call_simps [simp]:
  "call_name (CALL n c as) = n" "call_nargs (CALL n c as) = c"
  "ad_kind (AD k) = k" "ad_aux (AD k) = - 1" "ad_kind (AL k i) = k" "ad_aux (AL k i) = i"
  by (simp_all add: CALL_def AD_def AL_def)

lemma find_call_loop_Some: "find_call_loop cs n = Some c \<Longrightarrow> c \<in> set cs \<and> call_name c = n"
  by (induction cs n rule: find_call_loop.induct) (auto split: if_splits)

lemma find_call_loop_None: "find_call_loop cs n = None \<longleftrightarrow> n \<notin> set (map call_name cs)"
  by (induction cs n rule: find_call_loop.induct) auto

lemma find_call_loop_unique:
  "distinct (map call_name cs) \<Longrightarrow> find_call_loop cs n = Some c \<longleftrightarrow> c \<in> set cs \<and> call_name c = n"
  by (induction cs n rule: find_call_loop.induct) (auto simp: image_iff)

text \<open>
  A row is well formed when its name fits the program's buffers, its padding is as a C
  initialiser makes it, and each argument that carries the index of another one names an
  argument of the same call that is a size or a count.
\<close>

definition desc_ok :: "call_desc \<Rightarrow> arg_desc \<Rightarrow> bool" where
  "desc_ok c a \<longleftrightarrow>
     (if ad_kind a \<in> {A_BUF_IN, A_BUF_OUT, A_SOCKADDR, A_IOV_IN, A_IOV_OUT}
      then 0 \<le> ad_aux a \<and> ad_aux a < int (call_nargs c) \<and>
           ad_kind (call_arg c ! nat (ad_aux a)) \<in> {A_SIZE, A_UINT}
      else ad_aux a = - 1)"

definition call_ok :: "call_desc \<Rightarrow> bool" where
  "call_ok c \<longleftrightarrow> call_nargs c \<le> 6 \<and> length (call_arg c) = 6 \<and> clean (call_name c) \<and> call_name c \<noteq> [] \<and>
     list_all (desc_ok c) (take (call_nargs c) (call_arg c)) \<and>
     drop (call_nargs c) (call_arg c) = replicate (6 - call_nargs c) (AL A_HEX 0)"

text \<open>
  Every row of the call table is well formed and no two rows have the same name, so
  the search \<open>find_call\<close> finds exactly the row of a name.
\<close>

theorem calls_wellformed:
  "list_all call_ok calls \<and> distinct (map call_name calls) \<and>
   (find_call n = Some c) = (c \<in> set calls \<and> call_name c = n)"
proof -
  have "list_all call_ok calls"
    unfolding calls_def by (simp add: call_ok_def desc_ok_def CALL_def AD_def AL_def)
  moreover have "distinct (map call_name calls)"
    by (rule names_distinctD) (simp only: calls_def list.map call_simps, code_simp)
  ultimately show ?thesis by (simp add: find_call_def find_call_loop_unique)
qed

section \<open>One argument\<close>

definition ret_count :: "s64 \<Rightarrow> u64" where
  "ret_count r = (if sint r > 0 then r else 0)"

definition buffer_count :: "sd_event \<Rightarrow> int \<Rightarrow> bool \<Rightarrow> u64" where
  "buffer_count ev arg_index output =
     (let requested = (if arg_index \<ge> 0 then arg ev arg_index else 0)
      in if output \<and> \<not> sd_is_linux_error (ev_retval ev) then
           let returned = ret_count (ev_retval ev)
           in if returned < requested then returned else requested
         else requested)"

definition print_arg :: "platform \<Rightarrow> syscall_parser \<Rightarrow> sd_event \<Rightarrow> out \<Rightarrow> arg_desc \<Rightarrow> u64 \<Rightarrow> out" where
  "print_arg P d ev ob desc v =
     (case ad_kind desc of
        A_INT \<Rightarrow> out_printf ob (fmt_d (as_i32 v))
      | A_LONG \<Rightarrow> out_printf ob (fmt_d (if ev_abi ev = SD_ABI_ARM_EABI then as_i32 v else as_i64 v))
      | A_UINT \<Rightarrow> out_printf ob (fmt_u (unat (sd_normalize_arg (ev_abi ev) v)))
      | A_SIZE \<Rightarrow> out_printf ob (fmt_u (unat (sd_normalize_arg (ev_abi ev) v)))
      | A_FD \<Rightarrow> out_printf ob (fmt_d (as_i32 v))
      | A_PID \<Rightarrow> out_printf ob (fmt_d (as_i32 v))
      | A_DIRFD \<Rightarrow> print_dirfd ob v (symbolic (opt d))
      | A_PTR \<Rightarrow> print_ptr ob (ev_abi ev) v
      | A_STR \<Rightarrow> print_cstring P d ev ob v
      | A_PATH \<Rightarrow> print_cstring P d ev ob v
      | A_STRV \<Rightarrow> print_strv P d ev ob v
      | A_MODE \<Rightarrow> out_printf ob (''0'' @ fmt_o (unat (v AND 0xFFF)))
      | A_OPEN \<Rightarrow> print_open_flags ob v (symbolic (opt d))
      | A_PROT \<Rightarrow> print_flags ob v prot_flags (symbolic (opt d)) (Some ''PROT_NONE'')
      | A_MAP \<Rightarrow> print_flags ob v map_flags (symbolic (opt d)) None
      | A_SIG \<Rightarrow> print_signal ob v (symbolic (opt d))
      | A_BUF_IN \<Rightarrow> print_buffer P d ev ob v (buffer_count ev (ad_aux desc) False)
      | A_BUF_OUT \<Rightarrow>
          if \<not> sd_is_linux_error (ev_retval ev) then print_buffer P d ev ob v (buffer_count ev (ad_aux desc) True)
          else print_ptr ob (ev_abi ev) v
      | A_SOCKADDR \<Rightarrow> print_sockaddr P d ev ob v (unat (arg ev (ad_aux desc)))
      | A_TIMESPEC \<Rightarrow> print_timespec d ev ob v False
      | A_TIME64 \<Rightarrow> print_timespec d ev ob v True
      | A_TIMESPEC_OUT \<Rightarrow>
          if \<not> sd_is_linux_error (ev_retval ev) then print_timespec d ev ob v False else print_ptr ob (ev_abi ev) v
      | A_TIME64_OUT \<Rightarrow>
          if \<not> sd_is_linux_error (ev_retval ev) then print_timespec d ev ob v True else print_ptr ob (ev_abi ev) v
      | A_IOV_IN \<Rightarrow> print_iov P d ev ob v (arg ev (ad_aux desc)) True (of_nat (max_buffer (opt d)))
      | A_IOV_OUT \<Rightarrow> print_iov P d ev ob v (arg ev (ad_aux desc))
          (\<not> sd_is_linux_error (ev_retval ev)) (ret_count (ev_retval ev))
      | A_HEX \<Rightarrow> out_printf ob (hex64 (sd_normalize_arg (ev_abi ev) v)))"

text \<open>The text of an argument; a failed call shows only the addresses of its output arguments.\<close>

definition arg_text :: "platform \<Rightarrow> syscall_parser \<Rightarrow> sd_event \<Rightarrow> arg_desc \<Rightarrow> u64 \<Rightarrow> string" where
  "arg_text P d ev desc v =
     (let failed = sd_is_linux_error (ev_retval ev); addr = ptr_text (ev_abi ev) v in
      case ad_kind desc of
        A_INT \<Rightarrow> fmt_d (as_i32 v)
      | A_LONG \<Rightarrow> fmt_d (if ev_abi ev = SD_ABI_ARM_EABI then as_i32 v else as_i64 v)
      | A_UINT \<Rightarrow> fmt_u (unat (sd_normalize_arg (ev_abi ev) v))
      | A_SIZE \<Rightarrow> fmt_u (unat (sd_normalize_arg (ev_abi ev) v))
      | A_FD \<Rightarrow> fmt_d (as_i32 v)
      | A_PID \<Rightarrow> fmt_d (as_i32 v)
      | A_DIRFD \<Rightarrow> dirfd_text v (symbolic (opt d))
      | A_PTR \<Rightarrow> addr
      | A_STR \<Rightarrow> cstring_text P d ev v
      | A_PATH \<Rightarrow> cstring_text P d ev v
      | A_STRV \<Rightarrow> strv_text P d ev v
      | A_MODE \<Rightarrow> ''0'' @ fmt_o (unat (v AND 0xFFF))
      | A_OPEN \<Rightarrow> open_text v (symbolic (opt d))
      | A_PROT \<Rightarrow> flags_text v prot_flags (symbolic (opt d)) (Some ''PROT_NONE'')
      | A_MAP \<Rightarrow> flags_text v map_flags (symbolic (opt d)) None
      | A_SIG \<Rightarrow> signal_text v (symbolic (opt d))
      | A_BUF_IN \<Rightarrow> buffer_text P d ev v (buffer_count ev (ad_aux desc) False)
      | A_BUF_OUT \<Rightarrow> if failed then addr else buffer_text P d ev v (buffer_count ev (ad_aux desc) True)
      | A_SOCKADDR \<Rightarrow> sockaddr_text P d ev v (unat (arg ev (ad_aux desc)))
      | A_TIMESPEC \<Rightarrow> timespec_text d ev v False
      | A_TIME64 \<Rightarrow> timespec_text d ev v True
      | A_TIMESPEC_OUT \<Rightarrow> if failed then addr else timespec_text d ev v False
      | A_TIME64_OUT \<Rightarrow> if failed then addr else timespec_text d ev v True
      | A_IOV_IN \<Rightarrow> iov_text P d ev v (arg ev (ad_aux desc)) True (of_nat (max_buffer (opt d)))
      | A_IOV_OUT \<Rightarrow> iov_text P d ev v (arg ev (ad_aux desc)) (\<not> failed) (ret_count (ev_retval ev))
      | A_HEX \<Rightarrow> hex64 (sd_normalize_arg (ev_abi ev) v))"

lemma print_arg_render [render, simp]:
  "wf_out ob \<Longrightarrow> print_arg P d ev ob desc v = out_printf ob (arg_text P d ev desc v)"
  by (cases "ad_kind desc") (simp_all add: print_arg_def arg_text_def Let_def)

lemma flags_args_clean [simp]: "clean (flags_text v prot_flags symb (Some ''PROT_NONE''))"
  "clean (flags_text v map_flags symb None)"
  by (auto intro!: flags_text_clean [OF flag_tables_ok(2)] flags_text_clean [OF flag_tables_ok(3)])

lemma arg_text_clean [clean]: "platform_clean P \<Longrightarrow> clean (arg_text P d ev desc v)"
  by (cases "ad_kind desc")
    (simp_all add: arg_text_def Let_def sockaddr_text_clean hex64_clean)

lemma ret_count_bounds: "unat (ret_count r) = nat (max 0 (sint r))"
proof -
  have "\<not> 18446744073709551616 < unat r" using unat_u64_less [of r] by linarith
  then show ?thesis by (auto simp: ret_count_def sint_64 max_def simp del: of_nat_unat)
qed

lemma buffer_count_bounds:
  assumes "\<not> sd_is_linux_error (ev_retval ev)" "0 \<le> i"
  shows "unat (buffer_count ev i True) = min (nat (max 0 (sint (ev_retval ev)))) (unat (arg ev i))"
  using assms ret_count_bounds [of "ev_retval ev"]
  by (auto simp: buffer_count_def Let_def word_less_nat_alt min_def)

text \<open>
  Claim C26. An output buffer is shown only for a call that did not fail, and then only bytes
  the call wrote: at most as many as its result says and as the caller had room for, each the
  byte the process has at that address. Otherwise the line shows an address, \<open>NULL\<close> or the
  empty string.
\<close>

theorem out_buffer_shown:
  assumes "mem_reader rd mem" "reader_read d = Some rd" "ad_kind desc = A_BUF_OUT" "0 \<le> ad_aux desc" "wf_out ob"
  shows "(\<exists>t \<in> {ptr_text (ev_abi ev) v, ptr_text (ev_abi ev) v @ '' /* unreadable */'', ''NULL'', [DQUOTE, DQUOTE]}.
      print_arg P d ev ob desc v = out_printf ob t) \<or>
    (\<exists>bs. print_arg P d ev ob desc v = print_quoted ob bs (length bs < unat (buffer_count ev (ad_aux desc) True)) \<and>
      \<not> sd_is_linux_error (ev_retval ev) \<and>
      int (length bs) \<le> sint (ev_retval ev) \<and> length bs \<le> unat (arg ev (ad_aux desc)) \<and>
      (\<forall>i < length bs. mem (ev_pid ev) (read_addr (ev_abi ev) v + of_nat i) = Some (bs ! i)))"
proof (cases "sd_is_linux_error (ev_retval ev) \<or> v = 0 \<or> \<not> can_read d \<or>
    buffer_want d (buffer_count ev (ad_aux desc) True) = 0 \<or>
    \<not> sys_malloc P (buffer_want d (buffer_count ev (ad_aux desc) True))")
  case True
  with assms(3,5) show ?thesis by (auto simp: arg_text_def buffer_text_def Let_def)
next
  case False
  define want where "want = buffer_want d (buffer_count ev (ad_aux desc) True)"
  define bs where "bs = (case read_mem d ev v want of Inl _ \<Rightarrow> [] | Inr bs \<Rightarrow> bs)"
  have bound: "length bs \<le> want \<and>
      (\<forall>i < length bs. mem (ev_pid ev) (read_addr (ev_abi ev) v + of_nat i) = Some (bs ! i))"
    using mem_reader.read_mem_bounded [OF assms(1,2)] mem_reader.read_mem_true [OF assms(1,2)]
    by (auto simp: bs_def split: sum.split)
  have "want \<le> min (nat (max 0 (sint (ev_retval ev)))) (unat (arg ev (ad_aux desc)))"
    using buffer_count_bounds [of ev "ad_aux desc"] False assms(4) by (auto simp: want_def buffer_want_min)
  with bound False have fits: "bs \<noteq> [] \<Longrightarrow> int (length bs) \<le> sint (ev_retval ev)" "length bs \<le> unat (arg ev (ad_aux desc))"
    by (auto simp: max_def split: if_splits)
  have shown: "print_arg P d ev ob desc v =
      (if bs = [] then out_printf ob (ptr_text (ev_abi ev) v @ '' /* unreadable */'')
       else print_quoted ob bs (length bs < unat (buffer_count ev (ad_aux desc) True)))"
    using False assms(3,5) by (simp add: arg_text_def buffer_text_def Let_def want_def bs_def)
  show ?thesis
  proof (cases "bs = []")
    case True
    with shown show ?thesis by auto
  next
    case ne: False
    with shown fits bound False show ?thesis by metis
  qed
qed

lemma out_buffer_shown_witness:
  "(\<exists>t \<in> {ptr_text SD_ABI_ARM64 0x1000, ptr_text SD_ABI_ARM64 0x1000 @ '' /* unreadable */'', ''NULL'', [DQUOTE, DQUOTE]}.
      print_arg demo_platform (main_parser (mapped_readv demo_mem)) (demo_event 63 [3, 0x1000, 6, 0, 0, 0] 2)
        demo_out (AL A_BUF_OUT 2) 0x1000 = out_printf demo_out t) \<or>
    (\<exists>bs e. print_arg demo_platform (main_parser (mapped_readv demo_mem)) (demo_event 63 [3, 0x1000, 6, 0, 0, 0] 2)
        demo_out (AL A_BUF_OUT 2) 0x1000 = print_quoted demo_out bs e \<and> int (length bs) \<le> 2)"
  using out_buffer_shown [of "syscall_process_vm_reader (mapped_readv demo_mem)" demo_mem
      "main_parser (mapped_readv demo_mem)" "AL A_BUF_OUT 2" demo_out
      "demo_event 63 [3, 0x1000, 6, 0, 0, 0] 2" "0x1000" demo_platform] vm.mem_reader_axioms [of demo_mem]
  by (simp del: print_arg_render print_quoted_render) blast

end
