(* ===== verification/Sd_Special.thy ===== *)
theory Sd_Special
  imports Sd_Calls
begin

text \<open>
  The system calls \<open>src/sysdecode.c\<close> prints with code of their own: \<open>ioctl\<close>, \<open>bpf\<close>,
  \<open>openat2\<close>, \<open>clone3\<close>, \<open>fcntl\<close>, \<open>socketcall\<close> and the arm32 calls whose 64-bit arguments sit
  in aligned register pairs. Each routine is followed by the text it appends.
\<close>

section \<open>ioctl\<close>

definition ioctl_nr :: "u64 \<Rightarrow> nat" where "ioctl_nr req = unat (req AND 0xFF)"
definition ioctl_type :: "u64 \<Rightarrow> nat" where "ioctl_type req = unat (drop_bit 8 req AND 0xFF)"
definition ioctl_size :: "u64 \<Rightarrow> nat" where "ioctl_size req = unat (drop_bit 16 req AND 0x3FFF)"
definition ioctl_dir :: "u64 \<Rightarrow> nat" where "ioctl_dir req = unat (drop_bit 30 req AND 3)"

definition ioctl_text :: "sd_event \<Rightarrow> string" where
  "ioctl_text ev =
     (let req = sd_normalize_arg (ev_abi ev) (arg ev 1)
      in fmt_d (if ev_abi ev = SD_ABI_ARM_EABI then as_i32 (arg ev 0) else as_i64 (arg ev 0)) @
         '', _IOC(dir='' @ fmt_u (ioctl_dir req) @ '',type=0x'' @ zero_pad 2 (fmt_x (ioctl_type req)) @
         '',nr=0x'' @ zero_pad 2 (fmt_x (ioctl_nr req)) @ '',size='' @ fmt_u (ioctl_size req) @ ''), '' @
         ptr_text (ev_abi ev) (arg ev 2))"

definition print_ioctl :: "out \<Rightarrow> sd_event \<Rightarrow> out" where
  "print_ioctl ob ev =
     (let req = sd_normalize_arg (ev_abi ev) (arg ev 1);
          ob1 = out_printf ob
            (fmt_d (if ev_abi ev = SD_ABI_ARM_EABI then as_i32 (arg ev 0) else as_i64 (arg ev 0)) @
             '', _IOC(dir='' @ fmt_u (ioctl_dir req) @ '',type=0x'' @ zero_pad 2 (fmt_x (ioctl_type req)) @
             '',nr=0x'' @ zero_pad 2 (fmt_x (ioctl_nr req)) @ '',size='' @ fmt_u (ioctl_size req) @ ''), '')
      in print_ptr ob1 (ev_abi ev) (arg ev 2))"

lemma print_ioctl_render [render, simp]: "wf_out ob \<Longrightarrow> print_ioctl ob ev = out_printf ob (ioctl_text ev)"
  by (simp add: print_ioctl_def ioctl_text_def Let_def)

lemma ioctl_text_clean [clean, simp]: "clean (ioctl_text ev)"
  by (simp only: ioctl_text_def Let_def clean_eval fmt_clean zero_pad_clean ptr_text_clean)

lemma unat_drop_and_mask:
  fixes req :: u64
  shows "unat (drop_bit n req AND mask m) = unat req div 2 ^ n mod 2 ^ m"
  by (simp add: unsigned_drop_bit_eq unsigned_take_bit_eq flip: take_bit_eq_mask)
    (simp add: drop_bit_eq_div take_bit_eq_mod)

text \<open>
  The four fields an \<open>ioctl\<close> line shows are the whole 32-bit request number, each
  within its width: no bit of it is lost or shown twice.
\<close>

theorem ioctl_fields:
  "ioctl_dir req * 2 ^ 30 + ioctl_size req * 2 ^ 16 + ioctl_type req * 2 ^ 8 + ioctl_nr req = unat (to_u32 req) \<and>
   ioctl_dir req < 4 \<and> ioctl_size req < 2 ^ 14 \<and> ioctl_type req < 2 ^ 8 \<and> ioctl_nr req < 2 ^ 8"
proof -
  define n where "n = unat req"
  have nr: "ioctl_nr req = n mod 2 ^ 8"
    using unat_drop_and_mask [of 0 req 8] by (simp add: ioctl_nr_def n_def mask_eq_exp_minus_1)
  have ty: "ioctl_type req = n div 2 ^ 8 mod 2 ^ 8"
    using unat_drop_and_mask [of 8 req 8] by (simp add: ioctl_type_def n_def mask_eq_exp_minus_1)
  have sz: "ioctl_size req = n div 2 ^ 16 mod 2 ^ 14"
    using unat_drop_and_mask [of 16 req 14] by (simp add: ioctl_size_def n_def mask_eq_exp_minus_1)
  have di: "ioctl_dir req = n div 2 ^ 30 mod 2 ^ 2"
    using unat_drop_and_mask [of 30 req 2] by (simp add: ioctl_dir_def n_def mask_eq_exp_minus_1)
  have "n mod 2 ^ 32 = 2 ^ 30 * (n div 2 ^ 30 mod 2 ^ 2) + n mod 2 ^ 30"
    using mod_mult2_eq [of n "2 ^ 30" "2 ^ 2"] by simp
  also have "n mod 2 ^ 30 = 2 ^ 16 * (n div 2 ^ 16 mod 2 ^ 14) + n mod 2 ^ 16"
    using mod_mult2_eq [of n "2 ^ 16" "2 ^ 14"] by simp
  also have "n mod 2 ^ 16 = 2 ^ 8 * (n div 2 ^ 8 mod 2 ^ 8) + n mod 2 ^ 8"
    using mod_mult2_eq [of n "2 ^ 8" "2 ^ 8"] by simp
  finally show ?thesis by (simp add: unat_to_u32 nr ty sz di n_def)
qed

section \<open>bpf\<close>

definition print_bpf :: "out \<Rightarrow> sd_event \<Rightarrow> int \<Rightarrow> out" where
  "print_bpf ob ev symb =
     (let cmd = sd_normalize_arg (ev_abi ev) (arg ev 0);
          ob1 = (case bpf_cmd_name cmd of
                   Some n \<Rightarrow> if symb \<noteq> 0 then out_printf ob (n @ '', '') else out_printf ob (fmt_u (unat cmd) @ '', '')
                 | None \<Rightarrow> out_printf ob (fmt_u (unat cmd) @ '', ''));
          ob2 = print_ptr ob1 (ev_abi ev) (arg ev 1)
      in out_printf ob2 ('', '' @ fmt_u (unat (sd_normalize_arg (ev_abi ev) (arg ev 2)))))"

definition bpf_text :: "sd_event \<Rightarrow> int \<Rightarrow> string" where
  "bpf_text ev symb =
     (let cmd = sd_normalize_arg (ev_abi ev) (arg ev 0)
      in (case bpf_cmd_name cmd of Some n \<Rightarrow> if symb \<noteq> 0 then n else fmt_u (unat cmd) | None \<Rightarrow> fmt_u (unat cmd)) @
         '', '' @ ptr_text (ev_abi ev) (arg ev 1) @ '', '' @
         fmt_u (unat (sd_normalize_arg (ev_abi ev) (arg ev 2))))"

lemma print_bpf_render [render, simp]: "wf_out ob \<Longrightarrow> print_bpf ob ev symb = out_printf ob (bpf_text ev symb)"
  by (simp add: print_bpf_def bpf_text_def Let_def split: option.split)

lemma bpf_text_clean [clean, simp]: "clean (bpf_text ev symb)"
  by (auto simp: bpf_text_def Let_def bpf_cmd_name_clean printable_def split: option.split)

section \<open>openat2 and clone3\<close>

text \<open>
  \<open>uint64_t a[n] = {0}\<close> after \<open>raw\<close> bytes have been read into it: the words past the end of
  \<open>raw\<close> are zero.
\<close>

definition word_at :: "u8 list \<Rightarrow> nat \<Rightarrow> u64" where
  "word_at raw i = le_u64 (slice (8 * i) 8 raw)"

definition opt_text :: "bool \<Rightarrow> string \<Rightarrow> string" where
  "opt_text b s = (if b then s else [])"

lemma out_opt: "wf_out ob \<Longrightarrow> (if b then out_printf ob s else ob) = out_printf ob (opt_text b s)"
  by (simp add: opt_text_def)

lemma opt_text_clean [clean, simp]: "clean s \<Longrightarrow> clean (opt_text b s)"
  by (simp add: opt_text_def)

definition print_open_how :: "out \<Rightarrow> u8 list \<Rightarrow> nat \<Rightarrow> nat \<Rightarrow> int \<Rightarrow> out" where
  "print_open_how ob how read_size user_size symb =
     (let p1 = out_printf ob ''{flags='';
          p2 = print_open_flags p1 (word_at how 0) symb;
          p3 = (if read_size \<ge> 16 then out_printf p2 ('', mode=0'' @ fmt_o (unat (word_at how 1 AND 0xFFF))) else p2);
          p4 = (if read_size \<ge> 24 then out_printf p3 ('', resolve='' @ hex64 (word_at how 2)) else p3);
          p5 = (if user_size > 24 then out_printf p4 '', ...'' else p4)
      in out_printf p5 ''}'')"

definition print_openat2 :: "platform \<Rightarrow> syscall_parser \<Rightarrow> sd_event \<Rightarrow> out \<Rightarrow> out" where
  "print_openat2 P d ev ob =
     (let user_size = unat (sd_normalize_arg (ev_abi ev) (arg ev 3));
          read_size = (if user_size < 24 then user_size else 24);
          ob1 = print_dirfd ob (arg ev 0) (symbolic (opt d));
          ob2 = out_printf ob1 '', '';
          ob3 = print_cstring P d ev ob2 (arg ev 1);
          ob4 = out_printf ob3 '', '';
          how = (if read_size \<ge> 8 then read_exact d ev (arg ev 2) read_size else None);
          ob5 = (case how of
                   Some raw \<Rightarrow> print_open_how ob4 raw read_size user_size (symbolic (opt d))
                 | None \<Rightarrow> print_ptr ob4 (ev_abi ev) (arg ev 2))
      in out_printf ob5 ('', '' @ fmt_u user_size))"

definition open_how_text :: "u8 list \<Rightarrow> nat \<Rightarrow> int \<Rightarrow> string" where
  "open_how_text how user_size symb =
     ''{flags='' @ open_text (word_at how 0) symb @
     opt_text (16 \<le> user_size) ('', mode=0'' @ fmt_o (unat (word_at how 1 AND 0xFFF))) @
     opt_text (24 \<le> user_size) ('', resolve='' @ hex64 (word_at how 2)) @
     opt_text (24 < user_size) '', ...'' @ ''}''"

lemma print_open_how_render [simp]:
  "wf_out ob \<Longrightarrow> print_open_how ob how (if n < 24 then n else 24) n symb = out_printf ob (open_how_text how n symb)"
proof -
  have "16 \<le> (if n < 24 then n else 24) \<longleftrightarrow> 16 \<le> n" "24 \<le> (if n < 24 then n else 24) \<longleftrightarrow> 24 \<le> n" by auto
  then show "wf_out ob \<Longrightarrow> ?thesis"
    by (simp add: print_open_how_def open_how_text_def Let_def out_opt split del: if_split)
qed

lemma open_how_text_clean [simp]: "clean (open_how_text how n symb)"
  by (simp add: open_how_text_def printable_def)

definition openat2_text :: "platform \<Rightarrow> syscall_parser \<Rightarrow> sd_event \<Rightarrow> string" where
  "openat2_text P d ev =
     (let user_size = unat (sd_normalize_arg (ev_abi ev) (arg ev 3));
          read_size = (if user_size < 24 then user_size else 24)
      in dirfd_text (arg ev 0) (symbolic (opt d)) @ '', '' @ cstring_text P d ev (arg ev 1) @ '', '' @
         (case (if read_size \<ge> 8 then read_exact d ev (arg ev 2) read_size else None) of
            Some how \<Rightarrow> open_how_text how user_size (symbolic (opt d))
          | None \<Rightarrow> ptr_text (ev_abi ev) (arg ev 2)) @
         '', '' @ fmt_u user_size)"

lemma print_openat2_render [render, simp]:
  "wf_out ob \<Longrightarrow> print_openat2 P d ev ob = out_printf ob (openat2_text P d ev)"
  by (simp add: print_openat2_def openat2_text_def Let_def split: option.split split del: if_split)

lemma openat2_text_clean [clean, simp]: "clean (openat2_text P d ev)"
  by (simp add: openat2_text_def Let_def printable_def split: option.split)

definition print_clone_args :: "out \<Rightarrow> u8 list \<Rightarrow> nat \<Rightarrow> nat \<Rightarrow> out" where
  "print_clone_args ob a read_size user_size =
     (let p1 = out_printf ob (''{flags='' @ hex64 (word_at a 0));
          p2 = (if read_size \<ge> 40 then out_printf p1 ('', exit_signal='' @ fmt_u (unat (word_at a 4))) else p1);
          p3 = (if read_size \<ge> 56 then out_printf p2 ('', stack='' @ hex64 (word_at a 5) @
                  '', stack_size='' @ fmt_u (unat (word_at a 6))) else p2);
          p4 = (if read_size \<ge> 64 then out_printf p3 ('', tls='' @ hex64 (word_at a 7)) else p3);
          p5 = (if read_size \<ge> 80 then out_printf p4 ('', set_tid='' @ hex64 (word_at a 8) @
                  '', set_tid_size='' @ fmt_u (unat (word_at a 9))) else p4);
          p6 = (if read_size \<ge> 88 then out_printf p5 ('', cgroup='' @ fmt_u (unat (word_at a 10))) else p5);
          p7 = (if user_size > 88 then out_printf p6 '', ...'' else p6)
      in out_printf p7 ''}'')"

definition print_clone3 :: "syscall_parser \<Rightarrow> sd_event \<Rightarrow> out \<Rightarrow> out" where
  "print_clone3 d ev ob =
     (let user_size = unat (sd_normalize_arg (ev_abi ev) (arg ev 1));
          read_size = (if user_size < 88 then user_size else 88);
          a = (if read_size \<ge> 8 then read_exact d ev (arg ev 0) read_size else None);
          ob1 = (case a of
                   Some raw \<Rightarrow> print_clone_args ob raw read_size user_size
                 | None \<Rightarrow> print_ptr ob (ev_abi ev) (arg ev 0))
      in out_printf ob1 ('', '' @ fmt_u user_size))"

definition clone_args_text :: "u8 list \<Rightarrow> nat \<Rightarrow> string" where
  "clone_args_text a n =
     ''{flags='' @ hex64 (word_at a 0) @
     opt_text (40 \<le> n) ('', exit_signal='' @ fmt_u (unat (word_at a 4))) @
     opt_text (56 \<le> n) ('', stack='' @ hex64 (word_at a 5) @ '', stack_size='' @ fmt_u (unat (word_at a 6))) @
     opt_text (64 \<le> n) ('', tls='' @ hex64 (word_at a 7)) @
     opt_text (80 \<le> n) ('', set_tid='' @ hex64 (word_at a 8) @ '', set_tid_size='' @ fmt_u (unat (word_at a 9))) @
     opt_text (88 \<le> n) ('', cgroup='' @ fmt_u (unat (word_at a 10))) @
     opt_text (88 < n) '', ...'' @ ''}''"

lemma print_clone_args_render [simp]:
  "wf_out ob \<Longrightarrow> print_clone_args ob a (if n < 88 then n else 88) n = out_printf ob (clone_args_text a n)"
proof -
  have "k \<le> (if n < 88 then n else 88) \<longleftrightarrow> k \<le> n" if "k \<le> 88" for k using that by auto
  then show "wf_out ob \<Longrightarrow> ?thesis"
    by (simp add: print_clone_args_def clone_args_text_def Let_def out_opt split del: if_split)
qed

lemma clone_args_text_clean [simp]: "clean (clone_args_text a n)"
  by (simp add: clone_args_text_def printable_def)

definition clone3_text :: "syscall_parser \<Rightarrow> sd_event \<Rightarrow> string" where
  "clone3_text d ev =
     (let user_size = unat (sd_normalize_arg (ev_abi ev) (arg ev 1));
          read_size = (if user_size < 88 then user_size else 88)
      in (case (if read_size \<ge> 8 then read_exact d ev (arg ev 0) read_size else None) of
            Some a \<Rightarrow> clone_args_text a user_size
          | None \<Rightarrow> ptr_text (ev_abi ev) (arg ev 0)) @
         '', '' @ fmt_u user_size)"

lemma print_clone3_render [render, simp]:
  "wf_out ob \<Longrightarrow> print_clone3 d ev ob = out_printf ob (clone3_text d ev)"
  by (simp add: print_clone3_def clone3_text_def Let_def split: option.split split del: if_split)

lemma clone3_text_clean [clean, simp]: "clean (clone3_text d ev)"
  by (simp add: clone3_text_def Let_def printable_def split: option.split)

section \<open>fcntl and socketcall\<close>

definition fcntl_arg_text :: "sd_event \<Rightarrow> int \<Rightarrow> string" where
  "fcntl_arg_text ev cmd =
     (if cmd = 1 \<or> cmd = 3 then []
      else '', '' @ (if cmd = 5 \<or> cmd = 6 \<or> cmd = 7 then ptr_text (ev_abi ev) (arg ev 2)
                   else hex64 (sd_normalize_arg (ev_abi ev) (arg ev 2))))"

text \<open>\<open>F_GETFD\<close> is 1, \<open>F_GETFL\<close> 3, and \<open>F_GETLK\<close>, \<open>F_SETLK\<close>, \<open>F_SETLKW\<close> are 5, 6 and 7.\<close>

definition print_fcntl :: "out \<Rightarrow> sd_event \<Rightarrow> int \<Rightarrow> out" where
  "print_fcntl ob ev symb =
     (let cmd = as_i32 (arg ev 1);
          cname = fcntl_cmd_name cmd;
          ob1 = out_printf ob (fmt_d (as_i32 (arg ev 0)) @ '', '' @
                  (if symb \<noteq> 0 \<and> cname \<noteq> None then the cname else ''UNKNOWN_FCNTL_CMD''));
          ob2 = (if symb = 0 \<or> cname = None then out_printf ob1 (''('' @ fmt_d cmd @ '')'') else ob1)
      in if cmd \<noteq> 1 \<and> cmd \<noteq> 3 then
           let ob3 = out_printf ob2 '', ''
           in if cmd = 5 \<or> cmd = 6 \<or> cmd = 7 then print_ptr ob3 (ev_abi ev) (arg ev 2)
              else out_printf ob3 (hex64 (sd_normalize_arg (ev_abi ev) (arg ev 2)))
         else ob2)"

definition fcntl_text :: "sd_event \<Rightarrow> int \<Rightarrow> string" where
  "fcntl_text ev symb =
     (let cmd = as_i32 (arg ev 1)
      in fmt_d (as_i32 (arg ev 0)) @ '', '' @
         (case fcntl_cmd_name cmd of
            Some n \<Rightarrow> if symb \<noteq> 0 then n else ''UNKNOWN_FCNTL_CMD('' @ fmt_d cmd @ '')''
          | None \<Rightarrow> ''UNKNOWN_FCNTL_CMD('' @ fmt_d cmd @ '')'') @
         fcntl_arg_text ev cmd)"

lemma print_fcntl_render [render, simp]:
  "wf_out ob \<Longrightarrow> print_fcntl ob ev symb = out_printf ob (fcntl_text ev symb)"
proof -
  have third: "(if cmd \<noteq> 1 \<and> cmd \<noteq> 3 then
       if cmd = 5 \<or> cmd = 6 \<or> cmd = 7 then print_ptr (out_printf k '', '') (ev_abi ev) (arg ev 2)
       else out_printf (out_printf k '', '') (hex64 (sd_normalize_arg (ev_abi ev) (arg ev 2)))
     else k) = out_printf k (fcntl_arg_text ev cmd)" if "wf_out k" for k and cmd :: int
    using that by (auto simp: fcntl_arg_text_def)
  show "wf_out ob \<Longrightarrow> ?thesis"
    unfolding print_fcntl_def fcntl_text_def Let_def
    by (cases "fcntl_cmd_name (as_i32 (arg ev 1))"; cases "symb = 0")
      (simp_all only: third wf_out_printf if_True if_False simp_thms option.distinct option.sel option.case, simp_all)
qed

lemma fcntl_text_clean [clean, simp]: "clean (fcntl_text ev symb)"
  by (auto simp: fcntl_text_def fcntl_arg_text_def Let_def fcntl_cmd_name_clean printable_def split: option.split)

definition socketcall_names :: "string option list" where
  "socketcall_names = None # map Some [
     ''socket'', ''bind'', ''connect'', ''listen'', ''accept'',
     ''getsockname'', ''getpeername'', ''socketpair'', ''send'', ''recv'', ''sendto'', ''recvfrom'',
     ''shutdown'', ''setsockopt'', ''getsockopt'', ''sendmsg'', ''recvmsg'', ''accept4'', ''recvmmsg'', ''sendmmsg'']"

definition socketcall_name :: "u32 \<Rightarrow> string option" where
  "socketcall_name call = (if unat call < length socketcall_names then socketcall_names ! unat call else None)"

definition u32_at :: "u8 list \<Rightarrow> nat \<Rightarrow> string" where
  "u32_at words i = ''0x'' @ fmt_x (unat (le_u32 (slice (4 * i) 4 words)))"

definition print_socketcall :: "syscall_parser \<Rightarrow> sd_event \<Rightarrow> out \<Rightarrow> out" where
  "print_socketcall d ev ob =
     (let cname = socketcall_name (to_u32 (arg ev 0));
          ob1 = out_printf ob ((case cname of Some n \<Rightarrow> n | None \<Rightarrow> ''UNKNOWN_SOCKETCALL'') @ '', '')
      in case read_exact d ev (arg ev 1) 24 of
           Some words \<Rightarrow> out_printf ob1 (''['' @ u32_at words 0 @ '', '' @ u32_at words 1 @ '', '' @ u32_at words 2 @
             '', '' @ u32_at words 3 @ '', '' @ u32_at words 4 @ '', '' @ u32_at words 5 @ '']'')
         | None \<Rightarrow> print_ptr ob1 (ev_abi ev) (arg ev 1))"

definition socketcall_text :: "syscall_parser \<Rightarrow> sd_event \<Rightarrow> string" where
  "socketcall_text d ev =
     (case socketcall_name (to_u32 (arg ev 0)) of Some n \<Rightarrow> n | None \<Rightarrow> ''UNKNOWN_SOCKETCALL'') @ '', '' @
     (case read_exact d ev (arg ev 1) 24 of
        Some words \<Rightarrow> ''['' @ commas True (map (u32_at words) [0, 1, 2, 3, 4, 5]) @ '']''
      | None \<Rightarrow> ptr_text (ev_abi ev) (arg ev 1))"

lemma print_socketcall_render [render, simp]:
  "wf_out ob \<Longrightarrow> print_socketcall d ev ob = out_printf ob (socketcall_text d ev)"
  by (simp add: print_socketcall_def socketcall_text_def Let_def split: option.split)

lemma socketcall_name_clean: "socketcall_name c = Some n \<Longrightarrow> clean n"
proof -
  assume "socketcall_name c = Some n"
  then have "Some n \<in> set socketcall_names" by (auto simp: socketcall_name_def split: if_splits) (metis nth_mem)
  moreover have "list_all (case_option True clean) socketcall_names" by (simp add: socketcall_names_def)
  ultimately show "clean n" by (auto simp: list_all_iff)
qed

lemma socketcall_text_clean [clean, simp]: "clean (socketcall_text d ev)"
proof -
  have "clean (u32_at ws i)" for ws i by (simp add: u32_at_def)
  then show ?thesis
    by (auto simp: socketcall_text_def socketcall_name_clean printable_def intro!: commas_clean split: option.split)
qed

section \<open>Aligned 64-bit pairs of the arm32 ABI\<close>

text \<open>The result is the buffer when the routine printed the arguments (its return value 1).\<close>

definition print_arm_eabi_aligned64 ::
  "platform \<Rightarrow> syscall_parser \<Rightarrow> sd_event \<Rightarrow> out \<Rightarrow> string \<Rightarrow> out option" where
  "print_arm_eabi_aligned64 P d ev ob call =
     (if call = ''pread64'' \<or> call = ''pwrite64'' then
        let is_write = (call ! 0 = CHR ''p'' \<and> call ! 1 = CHR ''w'');
            ob1 = out_printf ob (fmt_d (as_i32 (arg ev 0)) @ '', '');
            ob2 = (if is_write then print_buffer P d ev ob1 (arg ev 1) (ucast (to_u32 (arg ev 2)))
                   else if \<not> sd_is_linux_error (ev_retval ev)
                   then print_buffer P d ev ob1 (arg ev 1) (buffer_count ev 2 True)
                   else print_ptr ob1 (ev_abi ev) (arg ev 1));
            v = arm_eabi_u64 (arg ev 4) (arg ev 5)
        in Some (out_printf ob2 ('', '' @ fmt_u (unat (to_u32 (arg ev 2))) @ '', '' @ fmt_u (unat v)))
      else if call = ''readahead'' then
        let v = arm_eabi_u64 (arg ev 2) (arg ev 3)
        in Some (out_printf ob (fmt_d (as_i32 (arg ev 0)) @ '', '' @ fmt_u (unat v) @ '', '' @
             fmt_u (unat (to_u32 (arg ev 4)))))
      else if call = ''truncate64'' \<or> call = ''ftruncate64'' then
        let ob1 = (if call ! 0 = CHR ''t'' then print_cstring P d ev ob (arg ev 0)
                   else out_printf ob (fmt_d (as_i32 (arg ev 0))));
            v = arm_eabi_u64 (arg ev 2) (arg ev 3)
        in Some (out_printf ob1 ('', '' @ fmt_u (unat v)))
      else None)"

definition aligned64_text :: "platform \<Rightarrow> syscall_parser \<Rightarrow> sd_event \<Rightarrow> string \<Rightarrow> string option" where
  "aligned64_text P d ev call =
     (if call = ''pread64'' \<or> call = ''pwrite64'' then
        Some (fmt_d (as_i32 (arg ev 0)) @ '', '' @
          (if call = ''pwrite64'' then buffer_text P d ev (arg ev 1) (ucast (to_u32 (arg ev 2)))
           else if sd_is_linux_error (ev_retval ev) then ptr_text (ev_abi ev) (arg ev 1)
           else buffer_text P d ev (arg ev 1) (buffer_count ev 2 True)) @
          '', '' @ fmt_u (unat (to_u32 (arg ev 2))) @ '', '' @ fmt_u (unat (arm_eabi_u64 (arg ev 4) (arg ev 5))))
      else if call = ''readahead'' then
        Some (fmt_d (as_i32 (arg ev 0)) @ '', '' @ fmt_u (unat (arm_eabi_u64 (arg ev 2) (arg ev 3))) @ '', '' @
             fmt_u (unat (to_u32 (arg ev 4))))
      else if call = ''truncate64'' then
        Some (cstring_text P d ev (arg ev 0) @ '', '' @ fmt_u (unat (arm_eabi_u64 (arg ev 2) (arg ev 3))))
      else if call = ''ftruncate64'' then
        Some (fmt_d (as_i32 (arg ev 0)) @ '', '' @ fmt_u (unat (arm_eabi_u64 (arg ev 2) (arg ev 3))))
      else None)"

lemma print_arm_eabi_aligned64_render [render, simp]:
  "wf_out ob \<Longrightarrow> print_arm_eabi_aligned64 P d ev ob call = map_option (out_printf ob) (aligned64_text P d ev call)"
  by (auto simp: print_arm_eabi_aligned64_def aligned64_text_def Let_def)

lemma aligned64_text_clean: "aligned64_text P d ev call = Some t \<Longrightarrow> clean t"
  by (auto simp: aligned64_text_def printable_def split: if_splits)

end
