(* ===== verification/Trace_Event.thy ===== *)
theory Trace_Event
  imports Trace_Prelude
begin

text \<open>
  The shared header \<open>include/mini_etrace.h\<close>: its constants, the filter configuration user space
  writes into the BPF map, and the event record the BPF program sends to user space.
\<close>

definition COMM_LEN :: nat where "COMM_LEN = 16"
definition MAX_SYSCALLS :: nat where "MAX_SYSCALLS = 512"
definition SYSCALL_WORD_BITS :: nat where "SYSCALL_WORD_BITS = 64"
definition SYSCALL_BITMAP_WORDS :: nat where "SYSCALL_BITMAP_WORDS = MAX_SYSCALLS div SYSCALL_WORD_BITS"
definition FILTER_NONE :: u32 where "FILTER_NONE = 0"
definition FILTER_PID :: u32 where "FILTER_PID = 1"
definition FILTER_COMM :: u32 where "FILTER_COMM = 2"
definition FILTER_SYS :: u32 where "FILTER_SYS = 1"
definition ENABLE_STACK :: u32 where "ENABLE_STACK = 1"
definition MAX_STACK_DEPTH :: nat where "MAX_STACK_DEPTH = 64"

lemmas header_consts = COMM_LEN_def MAX_SYSCALLS_def SYSCALL_WORD_BITS_def SYSCALL_BITMAP_WORDS_def
  FILTER_NONE_def FILTER_PID_def FILTER_COMM_def FILTER_SYS_def ENABLE_STACK_def MAX_STACK_DEPTH_def

record trace_config =
  filter_type :: u32
  target_pid :: u32
  syscall_filter_enabled :: u32
  print_stack_enabled :: u32
  target_comm :: string

record syscall_event =
  se_ts_ns :: u64
  se_duration_ns :: u64
  se_args :: "u64 list"
  se_ret :: s64
  se_user_stack :: "u64 list"
  se_stack_size :: s32
  se_pid :: u32
  se_tid :: u32
  se_syscall_id :: s32

end
