(* ===== verification/Sd_Decode.thy ===== *)
theory Sd_Decode
  imports Sd_Special Syscall_Entry Trace_Event
begin

text \<open>
  The decoder proper of \<open>src/sysdecode.c\<close>: \<open>print_result\<close>, \<open>decode_with_table\<close> and the public
  entry point \<open>syscall_parse_event\<close>. Its abstract specification is \<open>line_text\<close>, the whole line
  as a function of the event alone; the refinement theorem says that the destination receives
  that text under \<open>snprintf\<close> rules, and further theorems say what the text is like.
\<close>

section \<open>The result\<close>

definition print_result :: "platform \<Rightarrow> out \<Rightarrow> sd_event \<Rightarrow> string \<Rightarrow> out" where
  "print_result P ob ev call =
     (if sd_is_linux_error (ev_retval ev) then
        let e = to_u32 (- ev_retval ev); en = errno_name e
        in out_printf ob ('' = -1 '' @ (case en of Some n \<Rightarrow> n | None \<Rightarrow> ''ERRNO'') @ '' ('' @
             sys_strerror P (unat e) @ '')'')
      else if call = ''mmap'' \<or> call = ''mmap2'' \<or> call = ''brk'' then
        out_printf ob ('' = '' @ hex64 (ev_retval ev))
      else out_printf ob ('' = '' @ fmt_d (sint (ev_retval ev))))"

definition result_text :: "platform \<Rightarrow> sd_event \<Rightarrow> string \<Rightarrow> string" where
  "result_text P ev call =
     (let e = to_u32 (- ev_retval ev)
      in if sd_is_linux_error (ev_retval ev) then
           '' = -1 '' @ (case errno_name e of Some n \<Rightarrow> n | None \<Rightarrow> ''ERRNO'') @ '' ('' @ sys_strerror P (unat e) @ '')''
         else if call \<in> {''mmap'', ''mmap2'', ''brk''} then '' = '' @ hex64 (ev_retval ev)
         else '' = '' @ fmt_d (sint (ev_retval ev)))"

lemma print_result_render [render, simp]:
  "wf_out ob \<Longrightarrow> print_result P ob ev call = out_printf ob (result_text P ev call)"
  by (simp add: print_result_def result_text_def Let_def render cong: if_cong split del: if_split)

lemma result_text_clean [clean]: "platform_clean P \<Longrightarrow> clean (result_text P ev call)"
  by (auto simp: result_text_def Let_def platform_clean_def errno_name_clean printable_def split: option.split)

section \<open>The decoder\<close>

definition call_nargs_of :: "call_desc option \<Rightarrow> syscall_entry_t option \<Rightarrow> sd_event \<Rightarrow> string \<Rightarrow> nat" where
  "call_nargs_of call entry ev nm =
     (let n0 = (case call of Some c \<Rightarrow> call_nargs c | None \<Rightarrow> (case entry of Some e \<Rightarrow> unat (ent_nargs e) | None \<Rightarrow> SYSCALL_MAX_ARGS));
          n1 = (if call \<noteq> None \<and> nm = ''open'' \<and> arg ev 1 AND O_CREAT = 0 then 2 else n0);
          n2 = (if call \<noteq> None \<and> nm = ''openat'' \<and> arg ev 2 AND O_CREAT = 0 then 3 else n1)
      in if n2 > SYSCALL_MAX_ARGS then SYSCALL_MAX_ARGS else n2)"

primrec print_args_loop ::
  "platform \<Rightarrow> syscall_parser \<Rightarrow> sd_event \<Rightarrow> call_desc option \<Rightarrow> out \<Rightarrow> nat list \<Rightarrow> out" where
  "print_args_loop P d ev call ob [] = ob"
| "print_args_loop P d ev call ob (i # is) =
     (let ob1 = (if i \<noteq> 0 then out_printf ob '', '' else ob);
          ob2 = (case call of
                   Some c \<Rightarrow> print_arg P d ev ob1 (call_arg c ! i) (arg ev (int i))
                 | None \<Rightarrow> out_printf ob1 (hex64 (sd_normalize_arg (ev_abi ev) (arg ev (int i)))))
      in print_args_loop P d ev call ob2 is)"

definition print_call_args ::
  "platform \<Rightarrow> syscall_parser \<Rightarrow> sd_event \<Rightarrow> syscall_entry_t option \<Rightarrow> out \<Rightarrow> string \<Rightarrow> out" where
  "print_call_args P d ev entry ob nm =
     (case (if ev_abi ev = SD_ABI_ARM_EABI then print_arm_eabi_aligned64 P d ev ob nm else None) of
        Some ob1 \<Rightarrow> ob1
      | None \<Rightarrow>
          if nm = ''ioctl'' then print_ioctl ob ev
          else if nm = ''bpf'' then print_bpf ob ev (symbolic (opt d))
          else if nm = ''openat2'' then print_openat2 P d ev ob
          else if nm = ''clone3'' then print_clone3 d ev ob
          else if nm = ''fcntl'' \<or> nm = ''fcntl64'' then print_fcntl ob ev (symbolic (opt d))
          else if nm = ''socketcall'' \<and> ev_abi ev = SD_ABI_ARM_EABI then print_socketcall d ev ob
          else print_args_loop P d ev (find_call nm) ob [0..<call_nargs_of (find_call nm) entry ev nm])"

definition INT32_MAX :: nat where "INT32_MAX = 2147483647"

definition event_name :: "syscall_entry_t option \<Rightarrow> sd_event \<Rightarrow> string" where
  "event_name entry ev =
     (case entry of
        Some e \<Rightarrow> (case ent_name e of Some n \<Rightarrow> n | None \<Rightarrow> [])
      | None \<Rightarrow> ''syscall_'' @ fmt_u (unat (ev_nr ev)))"

text \<open>The printing part of \<open>decode_with_table\<close>, from the process id to the duration.\<close>

definition decode_line ::
  "platform \<Rightarrow> syscall_parser \<Rightarrow> sd_event \<Rightarrow> syscall_entry_t list option \<Rightarrow> out \<Rightarrow> out" where
  "decode_line P d ev table ob =
     (let entry = syscall_table_lookup (ev_nr ev) table;
          nm = event_name entry ev;
          o1 = out_printf ob (''[pid '' @ fmt_u (unat (if ev_tid ev \<noteq> 0 then ev_tid ev else ev_pid ev)) @ ''] '');
          o2 = out_printf o1 (nm @ ''('');
          o3 = print_call_args P d ev entry o2 nm;
          o4 = out_printf o3 '')'';
          o5 = print_result P o4 ev nm
      in out_printf o5 ('' <'' @ fmt_u (unat (ev_duration_ns ev) div 1000000000) @ ''.'' @
           zero_pad 6 (fmt_u (unat (ev_duration_ns ev) mod 1000000000 div 1000)) @ ''>''))"

text \<open>
  The destination is a null pointer or an array of \<open>dst_size\<close> bytes; the result is the return
  value and the destination afterwards. The event is the caller's local variable.
\<close>

definition decode_with_table ::
  "platform \<Rightarrow> syscall_parser option \<Rightarrow> sd_event \<Rightarrow> syscall_entry_t list option \<Rightarrow> string option \<Rightarrow> nat
     \<Rightarrow> int \<times> string option" where
  "decode_with_table P parser ev table dst dst_size =
     (case parser of None \<Rightarrow> (- EINVAL, dst)
      | Some d \<Rightarrow>
          if table = None \<or> dst = None \<and> dst_size \<noteq> 0 then (- EINVAL, dst)
          else
            let ob = decode_line P d ev table (out_init (case dst of None \<Rightarrow> [] | Some s \<Rightarrow> s) dst_size)
            in (int (if o_len ob > INT32_MAX then INT32_MAX else o_len ob),
                (case dst of None \<Rightarrow> None | Some _ \<Rightarrow> Some (o_buf ob))))"

definition table_abi_bits :: "syscall_entry_t list option \<Rightarrow> u32" where
  "table_abi_bits table = (case table of None \<Rightarrow> 0 | Some t \<Rightarrow> ucast (ent_abi_bits (t ! 0)))"

definition event_of :: "u32 \<Rightarrow> syscall_event \<Rightarrow> sd_event" where
  "event_of bits event =
     (let abi = (if bits = 32 then SD_ABI_ARM_EABI else SD_ABI_ARM64)
      in \<lparr>ev_abi = abi, ev_nr = se_syscall_id event, ev_pid = se_pid event, ev_tid = se_tid event,
          ev_args = se_args event, ev_retval = sd_normalize_retval abi (se_ret event),
          ev_timestamp_ns = se_ts_ns event, ev_duration_ns = se_duration_ns event\<rparr>)"

definition syscall_parse_event ::
  "platform \<Rightarrow> syscall_parser option \<Rightarrow> syscall_event option \<Rightarrow> syscall_entry_t list option \<Rightarrow> string option \<Rightarrow> nat
     \<Rightarrow> int \<times> string option" where
  "syscall_parse_event P parser event table dst dst_size =
     (let bits = table_abi_bits table
      in case event of None \<Rightarrow> (- EINVAL, dst)
         | Some e \<Rightarrow>
             if sint (se_syscall_id e) < 0 \<or> bits \<noteq> 32 \<and> bits \<noteq> 64 then (- EINVAL, dst)
             else decode_with_table P parser (event_of bits e) table dst dst_size)"

section \<open>The specification: the line of an event\<close>

definition args_texts ::
  "platform \<Rightarrow> syscall_parser \<Rightarrow> sd_event \<Rightarrow> call_desc option \<Rightarrow> nat \<Rightarrow> string" where
  "args_texts P d ev call i =
     (case call of
        Some c \<Rightarrow> arg_text P d ev (call_arg c ! i) (arg ev (int i))
      | None \<Rightarrow> hex64 (sd_normalize_arg (ev_abi ev) (arg ev (int i))))"

definition call_args_text ::
  "platform \<Rightarrow> syscall_parser \<Rightarrow> sd_event \<Rightarrow> syscall_entry_t option \<Rightarrow> string \<Rightarrow> string" where
  "call_args_text P d ev entry nm =
     (case (if ev_abi ev = SD_ABI_ARM_EABI then aligned64_text P d ev nm else None) of
        Some t \<Rightarrow> t
      | None \<Rightarrow>
          if nm = ''ioctl'' then ioctl_text ev
          else if nm = ''bpf'' then bpf_text ev (symbolic (opt d))
          else if nm = ''openat2'' then openat2_text P d ev
          else if nm = ''clone3'' then clone3_text d ev
          else if nm = ''fcntl'' \<or> nm = ''fcntl64'' then fcntl_text ev (symbolic (opt d))
          else if nm = ''socketcall'' \<and> ev_abi ev = SD_ABI_ARM_EABI then socketcall_text d ev
          else commas True (map (args_texts P d ev (find_call nm)) [0..<call_nargs_of (find_call nm) entry ev nm]))"

definition duration_text :: "u64 \<Rightarrow> string" where
  "duration_text ns =
     ''<'' @ fmt_u (unat ns div 1000000000) @ ''.'' @ zero_pad 6 (fmt_u (unat ns mod 1000000000 div 1000)) @ ''>''"

definition line_text :: "platform \<Rightarrow> syscall_parser \<Rightarrow> sd_event \<Rightarrow> syscall_entry_t list option \<Rightarrow> string" where
  "line_text P d ev table =
     (let entry = syscall_table_lookup (ev_nr ev) table; nm = event_name entry ev
      in ''[pid '' @ fmt_u (unat (if ev_tid ev \<noteq> 0 then ev_tid ev else ev_pid ev)) @ ''] '' @
         nm @ ''('' @ call_args_text P d ev entry nm @ '')'' @ result_text P ev nm @ '' '' @
         duration_text (ev_duration_ns ev))"

lemma print_args_loop_render:
  "wf_out ob \<Longrightarrow> print_args_loop P d ev call ob [i..<n] =
    out_printf ob (commas (i = 0) (map (args_texts P d ev call) [i..<n]))"
proof (induction "n - i" arbitrary: i ob)
  case (Suc k)
  then have "i < n" "k = n - Suc i" by simp_all
  then have up: "[i..<n] = i # [Suc i..<n]" by (simp add: upt_conv_Cons)
  have step: "print_args_loop P d ev call k' [Suc i..<n] =
      out_printf k' (commas False (map (args_texts P d ev call) [Suc i..<n]))" if "wf_out k'" for k'
    using Suc.hyps(1) [OF \<open>k = n - Suc i\<close> that] by simp
  show ?case
    unfolding up using Suc.prems
    by (simp add: Let_def args_texts_def step split: option.split)
qed simp

lemma print_call_args_render [simp]:
  "wf_out ob \<Longrightarrow> print_call_args P d ev entry ob nm = out_printf ob (call_args_text P d ev entry nm)"
  unfolding print_call_args_def call_args_text_def
  by (cases "ev_abi ev"; cases "aligned64_text P d ev nm")
    (simp_all add: print_args_loop_render render cong: if_cong split del: if_split)

section \<open>The decoder implements its specification\<close>

lemma decode_line_render [render, simp]:
  "wf_out ob \<Longrightarrow> decode_line P d ev table ob = out_printf ob (line_text P d ev table)"
  by (simp add: decode_line_def line_text_def duration_text_def Let_def)

lemma decode_with_table_render:
  assumes "length dst = n"
  shows "decode_with_table P (Some d) ev (Some t) (Some dst) n =
    (int (min INT32_MAX (length (line_text P d ev (Some t)))), Some (render_into dst n (line_text P d ev (Some t))))"
  using assms
  by (simp add: decode_with_table_def Let_def out_init_printf min_def)

lemma line_text_clean:
  assumes "platform_clean P" "list_all (entry_ok bits) t" "length t = SYSCALL_TABLE_SIZE"
  shows "clean (line_text P d ev (Some t))"
proof -
  define entry where "entry = syscall_table_lookup (ev_nr ev) (Some t)"
  have "entry_ok bits e" if "entry = Some e" for e
    using that assms(2,3) by (auto simp: entry_def syscall_table_lookup_def list_all_length split: if_splits option.splits)
  then have nm: "clean (event_name entry ev)"
    by (auto simp: event_name_def entry_ok_def printable_def split: option.splits)
  have list: "clean (commas True (map (args_texts P d ev call) is))" for call "is"
    using arg_text_clean [OF assms(1)] by (auto simp: args_texts_def intro!: commas_clean split: option.split)
  have args: "clean (call_args_text P d ev entry nm)" for nm
  proof (cases "if ev_abi ev = SD_ABI_ARM_EABI then aligned64_text P d ev nm else None")
    case None
    then show ?thesis
      by (simp only: call_args_text_def option.case clean_if list ioctl_text_clean bpf_text_clean
          openat2_text_clean clone3_text_clean fcntl_text_clean socketcall_text_clean if_cancel)
  next
    case (Some t)
    then show ?thesis by (auto simp: call_args_text_def aligned64_text_clean split: if_splits)
  qed
  have dur: "clean (duration_text ns)" for ns by (simp add: duration_text_def printable_def)
  show ?thesis
    using nm args [of "event_name entry ev"] dur [of "ev_duration_ns ev"] assms(1)
    by (simp add: line_text_def Let_def entry_def [symmetric] printable_def result_text_clean)
qed

definition parse_accepts :: "syscall_event \<Rightarrow> syscall_entry_t list \<Rightarrow> bool" where
  "parse_accepts e t \<longleftrightarrow> 0 \<le> sint (se_syscall_id e) \<and> table_abi_bits (Some t) \<in> {32, 64}"

text \<open>A table of the right size with \<open>read\<close> in it, and one event of it, for the witnesses.\<close>

definition demo_table :: "syscall_entry_t list" where
  "demo_table = replicate 63 (unassigned 64) @ [ent ''read'' 3 64] @ replicate 409 (unassigned 64)"

definition demo_syscall :: syscall_event where
  "demo_syscall = \<lparr>se_ts_ns = 0, se_duration_ns = 1500000, se_args = [3, 0x1000, 6, 0, 0, 0], se_ret = 2,
     se_user_stack = [], se_stack_size = 0, se_pid = 7, se_tid = 8, se_syscall_id = 63\<rparr>"

lemma demo_table_lookup: "syscall_table_lookup 63 (Some demo_table) = Some (ent ''read'' 3 64)"
  by (simp add: syscall_table_lookup_def demo_table_def SYSCALL_TABLE_SIZE_def nth_append)

lemma demo_bits: "table_abi_bits (Some demo_table) = 64"
  by (simp add: table_abi_bits_def demo_table_def nth_append)

lemma demo_accepts: "parse_accepts demo_syscall demo_table"
  by (simp add: parse_accepts_def demo_bits demo_syscall_def)

lemma demo_table_ok: "table_ok 64 demo_table"
proof -
  have "table_names (replicate n (unassigned 64)) = []" for n
    by (induction n) (simp_all add: table_names_def)
  then show ?thesis
    by (simp add: table_ok_def demo_table_def SYSCALL_TABLE_SIZE_def list_all_iff entry_ok_def printable_def)
qed

lemma demo_platform_clean: "platform_clean demo_platform"
  by (simp add: platform_clean_def printable_def)

lemma demo_event_of: "event_of 64 demo_syscall = demo_event 63 [3, 0x1000, 6, 0, 0, 0] 2"
  by (simp add: event_of_def demo_event_def demo_syscall_def sd_normalize_retval_def syscall_normalize_retval_def)

lemma demo_id: "sint (se_syscall_id demo_syscall) = 63"
  by (simp add: demo_syscall_def)

lemma demo_rets: "\<not> sd_is_linux_error 2" "buffer_count (demo_event nr [a, b, 6, 0, 0, 0] 2) 2 True = 2"
  by (simp_all add: sd_is_linux_error_def syscall_ret_is_error_def buffer_count_def ret_count_def arg_def)

lemma demo_buffer: "buffer_text demo_platform (main_parser (mapped_readv demo_mem)) (demo_event nr as r) 0x1000 2 =
    [DQUOTE] @ ''hi'' @ [DQUOTE]"
proof -
  have "mapped_prefix (demo_mem 7) 0x1000 2 = [0x68, 0x69]"
    by (simp add: demo_mem_def mapped_prefix_numeral)
  moreover have "byte_char 0x68 = CHR ''h''" "byte_char 0x69 = CHR ''i''"
    by (simp_all add: byte_char_eq char_byte_def)
  ultimately show ?thesis
    by (simp add: buffer_text_def buffer_want_def can_read_def read_mem_def syscall_process_vm_reader_def
        mapped_readv_def demo_room quoted_text_def escape_def)
qed

lemma demo_line: "line_text demo_platform (main_parser (mapped_readv demo_mem)) (event_of 64 demo_syscall) (Some demo_table)
   = ''[pid 8] read(3, '' @ [DQUOTE] @ ''hi'' @ [DQUOTE] @ '', 6) = 2 <0.001500>''"
proof -
  have fc: "find_call ''read'' = Some (CALL ''read'' 3 [AD A_FD, AL A_BUF_OUT 2, AD A_SIZE])"
    by (simp add: find_call_def calls_def)
  have args: "call_args_text demo_platform (main_parser (mapped_readv demo_mem)) (demo_event 63 [3, 0x1000, 6, 0, 0, 0] 2)
      (Some (ent ''read'' 3 64)) ''read'' = ''3, '' @ [DQUOTE] @ ''hi'' @ [DQUOTE] @ '', 6''"
    by (simp add: call_args_text_def fc call_nargs_of_def SYSCALL_MAX_ARGS_def upt_conv_Cons args_texts_def
        arg_text_def CALL_def AD_def AL_def demo_buffer arg_def demo_rets as_i32_def to_u32_def fmt_d_def fmt_u_def
        digits_small digit_char_def)
  have two: "replicate 2 x = [x, x]" for x :: char by (simp add: numeral_2_eq_2)
  show ?thesis
    by (simp add: line_text_def demo_event_of demo_table_lookup event_name_def args result_text_def demo_rets
        duration_text_def fmt_u_def fmt_d_def digits.simps digit_char_def zero_pad_def two Let_def)
qed

text \<open>
  Claim C1. The decoder has the \<open>snprintf\<close> semantics its header promises: for every accepted
  event the return value is the length of the whole line (capped at \<open>INT32_MAX\<close>), the
  destination holds as much of the line as fits with its NUL and nothing else changes, and the
  line itself does not depend on the destination or its size.
\<close>

theorem syscall_parse_event_refines:
  assumes "parse_accepts e t" "length dst = n"
  shows "syscall_parse_event P (Some d) (Some e) (Some t) (Some dst) n =
    (let line = line_text P d (event_of (table_abi_bits (Some t)) e) (Some t)
     in (int (min INT32_MAX (length line)), Some (render_into dst n line)))"
  using assms by (auto simp: syscall_parse_event_def parse_accepts_def Let_def decode_with_table_render)

lemma syscall_parse_event_refines_witness:
  "syscall_parse_event demo_platform (Some (main_parser (mapped_readv demo_mem))) (Some demo_syscall)
     (Some demo_table) (Some (replicate 20 (CHR ''.''))) 20 =
   (39, Some (''[pid 8] read(3, '' @ [DQUOTE] @ ''hi'' @ [NUL]))"
  using syscall_parse_event_refines [of demo_syscall demo_table "replicate 20 (CHR ''.'')" 20 demo_platform
      "main_parser (mapped_readv demo_mem)"]
  by (simp add: demo_accepts demo_bits demo_line render_into_def Let_def INT32_MAX_def)

text \<open>
  Claim C7. Nothing but printable ASCII reaches the output line, whatever the traced process
  put into its strings, buffers, paths, socket addresses and registers: with a table and
  platform texts that are printable themselves, the C string in the destination is a printable
  prefix of the line, and the whole line when the return value is below the size.
\<close>

theorem syscall_parse_event_printable:
  assumes "platform_clean P" "table_ok bits t" "parse_accepts e t" "length dst = n" "0 < n"
    and "syscall_parse_event P (Some d) (Some e) (Some t) (Some dst) n = (r, Some dst')"
  shows "clean (cstr dst') \<and> length (cstr dst') < n \<and>
    (r < int n \<longrightarrow> n \<le> INT32_MAX \<longrightarrow> cstr dst' = line_text P d (event_of (table_abi_bits (Some t)) e) (Some t))"
proof -
  let ?line = "line_text P d (event_of (table_abi_bits (Some t)) e) (Some t)"
  have line: "clean ?line" using assms(1,2) line_text_clean by (auto simp: table_ok_def)
  then have "NUL \<notin> set ?line" by (auto simp: clean_def list_all_iff printable_def)
  with assms(4,5) have c: "cstr (render_into dst n ?line) = take (n - 1) ?line" by (simp add: render_into_cstr)
  have out: "r = int (min INT32_MAX (length ?line))" "dst' = render_into dst n ?line"
    using assms(3,4,6) by (auto simp: syscall_parse_event_def parse_accepts_def Let_def decode_with_table_render)
  have "clean (take (n - 1) ?line)" using line by (auto simp: clean_def list_all_iff dest: in_set_takeD)
  with c out assms(5) show ?thesis by (auto simp: min_def split: if_splits)
qed

lemma syscall_parse_event_printable_witness:
  "cstr (render_into (replicate 64 (CHR ''.'')) 64 (line_text demo_platform (main_parser (mapped_readv demo_mem))
     (event_of 64 demo_syscall) (Some demo_table))) = ''[pid 8] read(3, '' @ [DQUOTE] @ ''hi'' @ [DQUOTE] @ '', 6) = 2 <0.001500>''"
  using syscall_parse_event_printable [of demo_platform 64 demo_table demo_syscall "replicate 64 (CHR ''.'')" 64
      "main_parser (mapped_readv demo_mem)" 39 "render_into (replicate 64 (CHR ''.'')) 64 (line_text demo_platform
        (main_parser (mapped_readv demo_mem)) (event_of 64 demo_syscall) (Some demo_table))"]
    decode_with_table_render [of "replicate 64 (CHR ''.'')" 64 demo_platform "main_parser (mapped_readv demo_mem)"
      "event_of 64 demo_syscall" demo_table]
    demo_platform_clean demo_table_ok demo_accepts
  by (simp add: demo_bits demo_line syscall_parse_event_def demo_id INT32_MAX_def)

text \<open>
  Claim C12. The decoder refuses exactly the inputs it cannot decode: a null event, a negative
  system call number, a null or foreign table, a null parser, or a null destination of
  non-zero size. It then returns \<open>-EINVAL\<close> and leaves the destination untouched.
\<close>

theorem syscall_parse_event_errors:
  "(fst (syscall_parse_event P parser event table dst n) = - EINVAL) =
     (event = None \<or> (\<exists>e. event = Some e \<and> sint (se_syscall_id e) < 0) \<or>
      table_abi_bits table \<notin> {32, 64} \<or> parser = None \<or> dst = None \<and> n \<noteq> 0) \<and>
   (if fst (syscall_parse_event P parser event table dst n) = - EINVAL
    then snd (syscall_parse_event P parser event table dst n) = dst
    else 0 \<le> fst (syscall_parse_event P parser event table dst n))"
proof -
  have e: "EINVAL = 22" by (simp add: EINVAL_def)
  have t: "table = None \<Longrightarrow> table_abi_bits table = 0" by (simp add: table_abi_bits_def)
  show ?thesis
    using t by (auto simp: syscall_parse_event_def decode_with_table_def e Let_def split: option.splits if_splits)
qed

theorem syscall_parse_event_errors_witness:
  "fst (syscall_parse_event demo_platform None (Some demo_syscall) (Some demo_table) (Some ''ab'') 2) = - EINVAL \<and>
   snd (syscall_parse_event demo_platform None (Some demo_syscall) (Some demo_table) (Some ''ab'') 2) = Some ''ab''"
  using syscall_parse_event_errors [of demo_platform None "Some demo_syscall" "Some demo_table" "Some ''ab''" 2]
  by (simp split: if_splits)

section \<open>Durations and errors\<close>

lemma duration_digits:
  "\<exists>s m. duration_text ns = ''<'' @ s @ ''.'' @ m @ ''>'' \<and> length m = 6 \<and>
     undigits 10 s * 1000000 + undigits 10 m = unat ns div 1000"
proof -
  let ?m = "unat ns mod 1000000000 div 1000"
  have "?m < 10 ^ Suc 5" by simp
  then have len: "length (fmt_u ?m) \<le> 6"
    using digits_length [of 10 ?m 5] by (simp add: fmt_u_def)
  have "unat ns div 1000000000 * 1000000 + ?m = unat ns div 1000"
  proof -
    have "unat ns div 1000 = (unat ns div 1000000000 * 1000000000 + unat ns mod 1000000000) div 1000"
      by (simp only: div_mult_mod_eq)
    also have "\<dots> = (unat ns mod 1000000000 + unat ns div 1000000000 * 1000000 * 1000) div 1000"
      by (simp add: add.commute)
    also have "\<dots> = unat ns div 1000000000 * 1000000 + ?m" by (simp only: div_mult_self1)
    finally show ?thesis by simp
  qed
  with len show ?thesis
    by (intro exI [of _ "fmt_u (unat ns div 1000000000)"] exI [of _ "zero_pad 6 (fmt_u ?m)"])
      (simp add: duration_text_def zero_pad_def [of 6] undigits_zero_pad [unfolded zero_pad_def])
qed

text \<open>
  Claim C32. The duration is shown in seconds and exactly six digits of microseconds, and reading
  both numbers back gives the duration rounded down to the microsecond.
\<close>

theorem duration_shown:
  assumes "wf_out ob"
  shows "\<exists>before s m. decode_line P d ev table ob = out_printf ob (before @ ''<'' @ s @ ''.'' @ m @ ''>'') \<and> length m = 6 \<and>
    undigits 10 s * 1000000 + undigits 10 m = unat (ev_duration_ns ev) div 1000"
proof -
  obtain s m where d: "duration_text (ev_duration_ns ev) = ''<'' @ s @ ''.'' @ m @ ''>''" "length m = 6"
      "undigits 10 s * 1000000 + undigits 10 m = unat (ev_duration_ns ev) div 1000"
    using duration_digits by blast
  obtain before where "line_text P d ev table = before @ duration_text (ev_duration_ns ev)"
    unfolding line_text_def Let_def by (metis append.assoc)
  then have "decode_line P d ev table ob = out_printf ob (before @ ''<'' @ s @ ''.'' @ m @ ''>'')"
    using decode_line_render [OF assms, of P d ev table] d(1) by (simp del: decode_line_render)
  with d(2,3) show ?thesis by blast
qed

lemma duration_shown_witness:
  "\<exists>before s m. decode_line demo_platform (main_parser (mapped_readv demo_mem)) (demo_event 63 [3, 0x1000, 6, 0, 0, 0] 2)
      (Some demo_table) demo_out = out_printf demo_out (before @ ''<'' @ s @ ''.'' @ m @ ''>'') \<and>
    undigits 10 s * 1000000 + undigits 10 m = 1500"
  using duration_shown [OF wf_demo_out, of demo_platform "main_parser (mapped_readv demo_mem)"
      "demo_event 63 [3, 0x1000, 6, 0, 0, 0] 2" "Some demo_table"] by auto

lemma sint_minus_nat:
  assumes "0 < e" "e \<le> 4095"
  shows "sint (- word_of_nat e :: u32) = - int e" "sint (- word_of_nat e :: u64) = - int e"
proof -
  have w: "(- word_of_nat e :: 'a::len word) = word_of_int (- int e)" by simp
  show "sint (- word_of_nat e :: u32) = - int e"
    unfolding w signed_of_int using assms by (simp add: signed_take_bit_int_eq_self)
  show "sint (- word_of_nat e :: u64) = - int e"
    unfolding w signed_of_int using assms by (simp add: signed_take_bit_int_eq_self)
qed

lemma errno_text:
  assumes "0 < e" "e \<le> 4095"
    and "bits = 64 \<and> se_ret event = - word_of_nat e \<or> bits = 32 \<and> to_u32 (se_ret event) = - word_of_nat e"
  shows "result_text P (event_of bits event) nm =
    '' = -1 '' @ (case errno_name (word_of_nat e) of Some n \<Rightarrow> n | None \<Rightarrow> ''ERRNO'') @ '' ('' @ sys_strerror P e @ '')''"
proof -
  have ret: "ev_retval (event_of bits event) = - word_of_nat e"
  proof (cases "bits = 32")
    case True
    with assms(3) have "to_u32 (se_ret event) = - word_of_nat e" by auto
    then have "ev_retval (event_of bits event) = scast (- word_of_nat e :: u32)"
      using True by (simp add: event_of_def sd_normalize_retval_def syscall_normalize_retval_def Let_def)
    also have "\<dots> = word_of_int (sint (- word_of_nat e :: u32))" by simp
    finally show ?thesis by (simp only: sint_minus_nat [OF assms(1,2)]) simp
  next
    case False
    with assms(3) show ?thesis
      by (auto simp: event_of_def sd_normalize_retval_def syscall_normalize_retval_def Let_def)
  qed
  have err: "sd_is_linux_error (- word_of_nat e)"
    using assms(1,2) sint_minus_nat [OF assms(1,2)] by (simp add: sd_is_linux_error_def syscall_ret_is_error_def)
  have e32: "to_u32 (word_of_nat e) = word_of_nat e"
    by (rule unsigned_word_eqI [where 'a = nat]) (use assms(2) in \<open>simp add: unat_to_u32 unsigned_of_nat take_bit_eq_mod\<close>)
  have "unat (word_of_nat e :: u32) = e" using assms(2) by (simp add: unsigned_of_nat take_bit_eq_mod)
  then show ?thesis by (simp add: result_text_def ret err e32)
qed

text \<open>
  Claim C30. When the kernel returns errno \<open>e\<close> in the result register, of 64 bits or of 32 with
  any upper half, the result is printed as \<open>= -1\<close> with the name of exactly that errno, \<open>ERRNO\<close> for one
  without a name, and the message the platform has for it.
\<close>

theorem errno_shown:
  assumes "wf_out ob" "0 < e" "e \<le> 4095"
    and "bits = 64 \<and> se_ret event = - word_of_nat e \<or> bits = 32 \<and> to_u32 (se_ret event) = - word_of_nat e"
  shows "print_result P ob (event_of bits event) nm = out_printf ob ('' = -1 '' @
    (case errno_name (word_of_nat e) of Some n \<Rightarrow> n | None \<Rightarrow> ''ERRNO'') @ '' ('' @ sys_strerror P e @ '')'')"
  using assms(1) errno_text [OF assms(2-4)] by simp

lemma errno_shown_witness:
  "print_result demo_platform (out_init ''...'' 3) (event_of 32 \<lparr>se_ts_ns = 0, se_duration_ns = 0, se_args = [0, 0, 0, 0, 0, 0],
     se_ret = 0xFFFFFFFE, se_user_stack = [], se_stack_size = 0, se_pid = 7, se_tid = 8, se_syscall_id = 5\<rparr>) ''open''
   = out_printf (out_init ''...'' 3) '' = -1 ENOENT (error2)''"
  using errno_shown [of "out_init ''...'' 3" 2 32 "\<lparr>se_ts_ns = 0, se_duration_ns = 0, se_args = [0, 0, 0, 0, 0, 0],
     se_ret = 0xFFFFFFFE, se_user_stack = [], se_stack_size = 0, se_pid = 7, se_tid = 8, se_syscall_id = 5\<rparr>"
     demo_platform "''open''"]
  by (simp add: out_init_def wf_out_def to_u32_def errno_name_def fmt_u_def digits_small digit_char_def)

end
