(* ===== verification/Call_Counts.thy ===== *)
theory Call_Counts
  imports Syscall_Table64 Syscall_Table32 Sd_Decode
begin

text \<open>
  The decoder has two sources for the number of arguments of a call: the generated table it finds
  the name in (\<open>syscall_tables_generated.c\<close>) and its own call table (\<open>calls[]\<close> of \<open>sysdecode.c\<close>),
  which wins. This theory compares them row by row: the rows of \<open>calls\<close> are walked through a
  generated table in its order, so the comparison takes one pass.
\<close>

section \<open>One pass over a table\<close>

type_synonym counts = "(string \<times> nat) list"

fun in_order :: "syscall_entry_t list \<Rightarrow> counts \<Rightarrow> bool" where
  "in_order es [] = True"
| "in_order [] (nk # cs) = False"
| "in_order (e # es) ((n, k) # cs) =
     (if ent_name e = Some n then unat (ent_nargs e) = k \<and> in_order es cs else in_order es ((n, k) # cs))"

lemma in_order_entry:
  "in_order es cs \<Longrightarrow> (n, k) \<in> set cs \<Longrightarrow> \<exists>e \<in> set es. ent_name e = Some n \<and> unat (ent_nargs e) = k"
  by (induction es cs rule: in_order.induct) (auto split: if_splits)

lemma named_once:
  assumes "distinct (table_names t)" "e \<in> set t" "e' \<in> set t" "ent_name e = Some n" "ent_name e' = Some n"
  shows "e = e'"
  using assms by (induction t) (auto simp: table_names_def set_table_names split: option.splits)

lemma counts_agree:
  assumes "table_ok bits t" "in_order t cs" "(n, k) \<in> set cs" "e \<in> set t" "ent_name e = Some n"
  shows "unat (ent_nargs e) = k"
  using in_order_entry [OF assms(2,3)] named_once assms(1,4,5) unfolding table_ok_def by metis

section \<open>The rows in the order of the tables\<close>

definition counts64 :: counts where
  "counts64 =
   [
    (''setxattr'', 5), (''getxattr'', 4), (''listxattr'', 3), (''removexattr'', 2), (''getcwd'', 2),
    (''eventfd2'', 2), (''epoll_create1'', 1), (''epoll_ctl'', 4), (''dup'', 1), (''dup3'', 3),
    (''inotify_add_watch'', 3), (''inotify_rm_watch'', 2), (''mkdirat'', 3), (''unlinkat'', 3),
    (''renameat'', 4), (''umount2'', 2), (''mount'', 5), (''truncate'', 2), (''ftruncate'', 2),
    (''faccessat'', 3), (''chdir'', 1), (''fchdir'', 1), (''chroot'', 1), (''fchmod'', 2),
    (''fchmodat'', 3), (''openat'', 4), (''close'', 1), (''pipe2'', 2), (''lseek'', 3), (''read'', 3),
    (''write'', 3), (''readv'', 3), (''writev'', 3), (''pread64'', 4), (''pwrite64'', 4),
    (''readlinkat'', 4), (''newfstatat'', 4), (''fstat'', 2), (''exit'', 1), (''exit_group'', 1),
    (''nanosleep'', 2), (''clock_settime'', 2), (''clock_gettime'', 2), (''clock_nanosleep'', 4),
    (''kill'', 2), (''tkill'', 2), (''tgkill'', 3), (''prctl'', 5), (''socket'', 3), (''bind'', 3),
    (''listen'', 2), (''accept'', 3), (''connect'', 3), (''getsockname'', 3), (''getpeername'', 3),
    (''sendto'', 6), (''recvfrom'', 6), (''setsockopt'', 5), (''getsockopt'', 5), (''shutdown'', 2),
    (''sendmsg'', 3), (''recvmsg'', 3), (''brk'', 1), (''munmap'', 2), (''execve'', 3), (''mmap'', 6),
    (''mprotect'', 3), (''madvise'', 3), (''accept4'', 4), (''wait4'', 4), (''renameat2'', 5),
    (''seccomp'', 3), (''getrandom'', 3), (''memfd_create'', 2), (''execveat'', 5), (''statx'', 5),
    (''faccessat2'', 4)]"

definition counts32 :: counts where
  "counts32 =
   [
    (''exit'', 1), (''read'', 3), (''write'', 3), (''open'', 3), (''close'', 1), (''creat'', 2),
    (''link'', 2), (''unlink'', 1), (''execve'', 3), (''chdir'', 1), (''chmod'', 2), (''lseek'', 3),
    (''mount'', 5), (''access'', 2), (''kill'', 2), (''rename'', 2), (''mkdir'', 2), (''rmdir'', 1),
    (''dup'', 1), (''pipe'', 1), (''brk'', 1), (''umount2'', 2), (''chroot'', 1), (''dup2'', 2),
    (''symlink'', 2), (''readlink'', 3), (''mmap'', 1), (''munmap'', 2), (''truncate'', 2),
    (''ftruncate'', 2), (''fchmod'', 2), (''stat'', 2), (''lstat'', 2), (''fstat'', 2), (''wait4'', 4),
    (''mprotect'', 3), (''fchdir'', 1), (''readv'', 3), (''writev'', 3), (''nanosleep'', 2),
    (''prctl'', 5), (''pread64'', 6), (''pwrite64'', 6), (''getcwd'', 2), (''mmap2'', 6),
    (''madvise'', 3), (''setxattr'', 5), (''getxattr'', 4), (''listxattr'', 3), (''removexattr'', 2),
    (''tkill'', 2), (''exit_group'', 1), (''epoll_ctl'', 4), (''clock_settime'', 2),
    (''clock_gettime'', 2), (''clock_nanosleep'', 4), (''tgkill'', 3), (''socket'', 3), (''bind'', 3),
    (''connect'', 3), (''listen'', 2), (''accept'', 3), (''getsockname'', 3), (''getpeername'', 3),
    (''sendto'', 6), (''recvfrom'', 6), (''shutdown'', 2), (''setsockopt'', 5), (''getsockopt'', 5),
    (''sendmsg'', 3), (''recvmsg'', 3), (''inotify_add_watch'', 3), (''inotify_rm_watch'', 2),
    (''openat'', 4), (''mkdirat'', 3), (''unlinkat'', 3), (''renameat'', 4), (''readlinkat'', 4),
    (''fchmodat'', 3), (''faccessat'', 3), (''eventfd2'', 2), (''epoll_create1'', 1), (''dup3'', 3),
    (''pipe2'', 2), (''accept4'', 4), (''renameat2'', 5), (''seccomp'', 3), (''getrandom'', 3),
    (''memfd_create'', 2), (''execveat'', 5), (''statx'', 5), (''clock_gettime64'', 2),
    (''clock_settime64'', 2), (''faccessat2'', 4)]"

definition missing64 :: "string list" where
  "missing64 =
   [''open'', ''creat'', ''dup2'', ''access'', ''mkdir'', ''rmdir'', ''unlink'', ''rename'', ''link'',
    ''symlink'', ''readlink'', ''chmod'', ''stat'', ''lstat'', ''mmap2'', ''pipe'', ''clock_gettime64'',
    ''clock_settime64'']"

text \<open>The calls whose 32-bit entry does not have the arguments of the row, and the one 32-bit ARM does not have.\<close>

definition apart32 :: "string list" where
  "apart32 = [''mmap'', ''pread64'', ''pwrite64'', ''newfstatat'']"

lemma in_order_64: "in_order syscall_tables_64 counts64"
  by code_simp

lemma in_order_32: "in_order syscall_tables_32 counts32"
  by code_simp

lemma missing_64: "names_distinct (missing64 @ table_names syscall_tables_64)"
  by code_simp

lemma missing_32: "list_all (\<lambda>n. n \<noteq> ''newfstatat'') (table_names syscall_tables_32)"
  by code_simp

lemma rows_64: "list_all (\<lambda>c. (call_name c, call_nargs c) \<in> set counts64 \<or> call_name c \<in> set missing64) calls"
  unfolding calls_def by code_simp

lemma rows_32: "list_all (\<lambda>c. (call_name c, call_nargs c) \<in> set counts32 \<or> call_name c \<in> set apart32) calls"
  unfolding calls_def by code_simp

section \<open>The arguments shown\<close>

lemma row_counts:
  assumes "find_call nm = Some c" "(t, bits :: u8) = (syscall_tables_32, 32) \<or> (t, bits) = (syscall_tables_64, 64)"
    "e \<in> set t" "ent_name e = Some nm"
  shows "unat (ent_nargs e) = call_nargs c \<or> bits = 32 \<and> nm \<in> {''mmap'', ''pread64'', ''pwrite64''}"
proof -
  have c: "c \<in> set calls" "call_name c = nm"
    using assms(1) find_call_loop_Some unfolding find_call_def by blast+
  show ?thesis
  proof (cases "bits = 32")
    case True
    then have t: "t = syscall_tables_32" using assms(2) by auto
    have "nm \<noteq> ''newfstatat''"
      using missing_32 assms(3,4) unfolding t by (auto simp: list_all_iff set_table_names)
    then show ?thesis
      using bspec [OF rows_32 [unfolded list_all_iff] c(1)] c(2) True assms(3,4) unfolding t
      by (auto simp: apart32_def dest: counts_agree [OF syscall_tables_32_ok in_order_32])
  next
    case False
    then have t: "t = syscall_tables_64" using assms(2) by auto
    have "nm \<notin> set missing64"
      using names_distinctD [OF missing_64] assms(3,4) unfolding t by (auto simp: set_table_names)
    then show ?thesis
      using bspec [OF rows_64 [unfolded list_all_iff] c(1)] c(2) assms(3,4) unfolding t
      by (auto dest: counts_agree [OF syscall_tables_64_ok in_order_64])
  qed
qed

text \<open>Rows whose number of arguments a special case of the code refers to.\<close>

lemma special_rows:
  "\<exists>c. find_call ''open'' = Some c \<and> call_nargs c = 3" "\<exists>c. find_call ''openat'' = Some c \<and> call_nargs c = 4"
  "\<exists>c. find_call ''mmap'' = Some c \<and> call_nargs c = 6"
  "\<exists>c. find_call ''pread64'' = Some c \<and> call_nargs c = 4" "\<exists>c. find_call ''pwrite64'' = Some c \<and> call_nargs c = 4"
  by (simp_all add: find_call_def calls_def)

lemma call_nargs_of_row:
  "call_nargs c \<le> 6 \<Longrightarrow> call_nargs_of (Some c) entry ev nm =
     (if nm = ''open'' \<and> arg ev 1 AND O_CREAT = 0 then 2
      else if nm = ''openat'' \<and> arg ev 2 AND O_CREAT = 0 then 3 else call_nargs c)"
  by (simp add: call_nargs_of_def SYSCALL_MAX_ARGS_def)



end
