(* ===== verification/Bpf_Maps.thy ===== *)
theory Bpf_Maps
  imports Trace_Event "HOL-Library.AList"
begin

text \<open>
  The interface of \<open>src/mini_etrace.bpf.c\<close> (and of the filter code of \<open>src/mini_etrace.c\<close>) to the
  kernel's maps. The maps live in the kernel, so they are parameters here: the operations are
  fields of the record \<open>bpf_ops\<close>, and what the documentation of \<open>bpf(2)\<close> says of them are the
  laws of the locales \<open>bpf_array\<close> and \<open>bpf_kernel\<close>. The two locales are interpreted on an array
  of words and on an association list with the declared \<open>max_entries\<close>.
\<close>

section \<open>What the program keeps in the maps\<close>

record inflight_syscall =
  in_ts_ns :: u64
  in_args :: "u64 list"
  in_user_stack :: "u64 list"
  in_stack_size :: s32
  in_pid :: u32
  in_tid :: u32
  in_syscall_id :: s32

text \<open>The maps the program declares; sizes in bytes.\<close>

datatype bpf_map_type =
  BPF_MAP_TYPE_ARRAY | BPF_MAP_TYPE_HASH | BPF_MAP_TYPE_PERCPU_ARRAY | BPF_MAP_TYPE_PERF_EVENT_ARRAY

record bpf_map_def =
  map_type :: bpf_map_type
  key_size :: nat
  value_size :: nat
  max_entries :: nat
  map_def_flags :: nat

definition sizeof_trace_config :: nat where "sizeof_trace_config = 4 * 4 + COMM_LEN"
definition sizeof_inflight :: nat where "sizeof_inflight = 8 + 6 * 8 + MAX_STACK_DEPTH * 8 + 4 * 4"
definition sizeof_event :: nat where "sizeof_event = 2 * 8 + 6 * 8 + 8 + MAX_STACK_DEPTH * 8 + 4 * 4"

definition config_map :: bpf_map_def where
  "config_map = \<lparr>map_type = BPF_MAP_TYPE_ARRAY, key_size = 4, value_size = sizeof_trace_config, max_entries = 1, map_def_flags = 0\<rparr>"

definition syscall_bitmap :: bpf_map_def where
  "syscall_bitmap = \<lparr>map_type = BPF_MAP_TYPE_ARRAY, key_size = 4, value_size = 8,
     max_entries = SYSCALL_BITMAP_WORDS, map_def_flags = 0\<rparr>"

definition inflight_map :: bpf_map_def where
  "inflight_map = \<lparr>map_type = BPF_MAP_TYPE_HASH, key_size = 8, value_size = sizeof_inflight, max_entries = 0x1000, map_def_flags = 0\<rparr>"

definition in_map :: bpf_map_def where
  "in_map = \<lparr>map_type = BPF_MAP_TYPE_PERCPU_ARRAY, key_size = 4, value_size = sizeof_inflight, max_entries = 1, map_def_flags = 0\<rparr>"

definition event_map :: bpf_map_def where
  "event_map = \<lparr>map_type = BPF_MAP_TYPE_PERCPU_ARRAY, key_size = 4, value_size = sizeof_event, max_entries = 1, map_def_flags = 0\<rparr>"

definition events_map :: bpf_map_def where
  "events_map = \<lparr>map_type = BPF_MAP_TYPE_PERF_EVENT_ARRAY, key_size = 4, value_size = 4, max_entries = 16, map_def_flags = 0\<rparr>"

text \<open>The names the object file gives them, which user space looks them up by.\<close>

definition object_maps :: "(string \<times> bpf_map_def) list" where
  "object_maps = [(''config_map'', config_map), (''syscall_bitmap'', syscall_bitmap), (''inflight'', inflight_map),
     (''in_map'', in_map), (''event_map'', event_map), (''events'', events_map)]"

text \<open>
  \<open>'h\<close> is the state of the map \<open>inflight\<close>, \<open>'b\<close> that of \<open>syscall_bitmap\<close>. An update that the
  kernel refuses returns \<open>None\<close>.
\<close>

record ('h, 'b) bpf_ops =
  inflight_lookup :: "'h \<Rightarrow> u64 \<Rightarrow> inflight_syscall option"
  inflight_update :: "'h \<Rightarrow> u64 \<Rightarrow> inflight_syscall \<Rightarrow> 'h option"
  inflight_delete :: "'h \<Rightarrow> u64 \<Rightarrow> 'h"
  bitmap_lookup :: "'b \<Rightarrow> u32 \<Rightarrow> u64 option"
  bitmap_update :: "'b \<Rightarrow> u32 \<Rightarrow> u64 \<Rightarrow> 'b option"

section \<open>The contracts\<close>

text \<open>An array map: its keys are always present and an update changes exactly one of them.\<close>

locale bpf_array =
  fixes lookup :: "'b \<Rightarrow> u32 \<Rightarrow> u64 option" and update :: "'b \<Rightarrow> u32 \<Rightarrow> u64 \<Rightarrow> 'b option"
    and binv :: "'b \<Rightarrow> bool" and entries :: nat
  assumes lookup_present: "binv m \<Longrightarrow> lookup m k = None \<longleftrightarrow> entries \<le> unat k"
    and update_refused: "binv m \<Longrightarrow> update m k v = None \<longleftrightarrow> entries \<le> unat k"
    and update_inv: "binv m \<Longrightarrow> update m k v = Some m' \<Longrightarrow> binv m'"
    and lookup_update: "binv m \<Longrightarrow> update m k v = Some m' \<Longrightarrow> lookup m' j = (if j = k then Some v else lookup m j)"

text \<open>A hash map: a refused update changes nothing, an accepted one and a deletion one key.\<close>

locale bpf_hash =
  fixes hlookup :: "'h \<Rightarrow> u64 \<Rightarrow> inflight_syscall option"
    and hupdate :: "'h \<Rightarrow> u64 \<Rightarrow> inflight_syscall \<Rightarrow> 'h option"
    and hdelete :: "'h \<Rightarrow> u64 \<Rightarrow> 'h" and hinv :: "'h \<Rightarrow> bool"
  assumes hupdate_inv: "hinv m \<Longrightarrow> hupdate m k v = Some m' \<Longrightarrow> hinv m'"
    and hlookup_update: "hinv m \<Longrightarrow> hupdate m k v = Some m' \<Longrightarrow> hlookup m' j = (if j = k then Some v else hlookup m j)"
    and hdelete_inv: "hinv m \<Longrightarrow> hinv (hdelete m k)"
    and hlookup_delete: "hinv m \<Longrightarrow> hlookup (hdelete m k) j = (if j = k then None else hlookup m j)"
begin

lemma hupdate_stored: "hinv m \<Longrightarrow> hupdate m k v = Some m' \<Longrightarrow> hlookup m' k = Some v"
  by (simp add: hlookup_update)

lemma hupdate_other: "hinv m \<Longrightarrow> hupdate m k v = Some m' \<Longrightarrow> j \<noteq> k \<Longrightarrow> hlookup m' j = hlookup m j"
  by (simp add: hlookup_update)

end

section \<open>Their interpretations\<close>

text \<open>\<open>syscall_bitmap\<close>: \<open>SYSCALL_BITMAP_WORDS\<close> words; \<open>inflight\<close>: at most \<open>0x1000\<close> keys.\<close>

definition array_lookup :: "u64 list \<Rightarrow> u32 \<Rightarrow> u64 option" where
  "array_lookup m k = (if unat k < length m then Some (m ! unat k) else None)"

definition array_update :: "u64 list \<Rightarrow> u32 \<Rightarrow> u64 \<Rightarrow> u64 list option" where
  "array_update m k v = (if unat k < length m then Some (m[unat k := v]) else None)"

definition INFLIGHT_ENTRIES :: nat where "INFLIGHT_ENTRIES = 0x1000"

lemma declared_entries:
  "max_entries inflight_map = INFLIGHT_ENTRIES" "max_entries syscall_bitmap = SYSCALL_BITMAP_WORDS"
  by (simp_all add: inflight_map_def INFLIGHT_ENTRIES_def syscall_bitmap_def)

type_synonym inflight_table = "(u64 \<times> inflight_syscall) list"

definition table_update :: "inflight_table \<Rightarrow> u64 \<Rightarrow> inflight_syscall \<Rightarrow> inflight_table option" where
  "table_update m k v =
     (if map_of m k \<noteq> None \<or> length m < INFLIGHT_ENTRIES then Some (AList.update k v m) else None)"

definition table_delete :: "inflight_table \<Rightarrow> u64 \<Rightarrow> inflight_table" where
  "table_delete m k = AList.delete k m"

definition table_ok_inflight :: "inflight_table \<Rightarrow> bool" where
  "table_ok_inflight m \<longleftrightarrow> distinct (map fst m) \<and> length m \<le> INFLIGHT_ENTRIES"

definition kernel_maps :: "(inflight_table, u64 list) bpf_ops" where
  "kernel_maps = \<lparr>inflight_lookup = map_of, inflight_update = table_update, inflight_delete = table_delete,
     bitmap_lookup = array_lookup, bitmap_update = array_update\<rparr>"

lemma kernel_maps_simps [simp]:
  "inflight_lookup kernel_maps = map_of" "inflight_update kernel_maps = table_update"
  "inflight_delete kernel_maps = table_delete" "bitmap_lookup kernel_maps = array_lookup"
  "bitmap_update kernel_maps = array_update"
  by (simp_all add: kernel_maps_def)

lemma length_alist_update: "length (AList.update k v m) = (if map_of m k = None then Suc (length m) else length m)"
  by (induction m) auto

interpretation bitmap: bpf_array array_lookup array_update "\<lambda>m. length m = SYSCALL_BITMAP_WORDS" SYSCALL_BITMAP_WORDS
  by unfold_locales
    (auto simp: array_lookup_def array_update_def word_unat_eq_iff nth_list_update split: if_splits)

interpretation inflight: bpf_hash map_of table_update table_delete table_ok_inflight
proof
  fix m :: inflight_table and k j v m'
  show "table_ok_inflight m \<Longrightarrow> table_update m k v = Some m' \<Longrightarrow> table_ok_inflight m'"
    by (auto simp: table_ok_inflight_def table_update_def distinct_update length_alist_update split: if_splits)
  show "table_ok_inflight m \<Longrightarrow> table_update m k v = Some m' \<Longrightarrow> map_of m' j = (if j = k then Some v else map_of m j)"
    by (auto simp: table_update_def update_conv split: if_splits)
  show "table_ok_inflight m \<Longrightarrow> table_ok_inflight (table_delete m k)"
    using length_delete_le [of k m] by (auto simp: table_ok_inflight_def table_delete_def distinct_delete)
  show "table_ok_inflight m \<Longrightarrow> map_of (table_delete m k) j = (if j = k then None else map_of m j)"
    by (simp add: table_delete_def delete_conv)
qed

end
