(* ===== verification/Bpf_Trace.thy ===== *)
theory Bpf_Trace
  imports Bpf_Maps
begin

text \<open>
  The BPF program \<open>src/mini_etrace.bpf.c\<close>: the whitelist test, the comparison of command names
  and the two tracepoint handlers as functions on the program's state. A handler runs to its end
  before the next one on the same CPU starts, and the maps are shared by all CPUs, so a history of
  the traced system is a sequence of handler runs. The theorems say which events user space
  receives: they pass the configured filters, every one belongs to one entry and one exit of the
  same thread, and threads do not disturb each other.
\<close>

unbundle bit_operations_syntax

section \<open>State and contexts\<close>

text \<open>The contents of the maps, and the events user space receives through the map \<open>events\<close>.\<close>

record ('h, 'b) bpf_maps =
  st_config :: "trace_config option"
  st_bitmap :: 'b
  st_inflight :: 'h
  st_in :: "nat \<Rightarrow> inflight_syscall option"
  st_event :: "nat \<Rightarrow> syscall_event option"

record ('h, 'b) bpf_state = "('h, 'b) bpf_maps" +
  st_output :: "syscall_event list"

text \<open>
  What the kernel tells a handler: the CPU it runs on, the ids and the command name of the current
  thread (none when the helper fails), the clock, what \<open>bpf_get_stack\<close> writes over a buffer,
  with its return value, and whether the perf ring of the CPU is open and has room.
\<close>

record tp_env =
  tp_cpu :: nat
  tp_pid_tgid :: u64
  tp_comm :: "string option"
  tp_ktime :: u64
  tp_stack :: "u64 list \<Rightarrow> u64 list \<times> s32"
  tp_ring :: bool

text \<open>The tracepoint contexts: a common header, then the fields of the tracepoint.\<close>

record tp_common =
  common_type :: "16 word"
  common_flags :: u8
  common_preempt_count :: u8
  common_pid :: s32

record sys_enter_ctx = tp_common +
  en_id :: s64
  en_args :: "u64 list"

record sys_exit_ctx = tp_common +
  ex_id :: s64
  ex_ret :: s64

section \<open>Filters\<close>

definition syscall_allowed :: "('h, 'b) bpf_ops \<Rightarrow> 'b \<Rightarrow> s32 \<Rightarrow> bool" where
  "syscall_allowed ops bm syscall_id =
     (if sint syscall_id < 0 then False
      else if sint syscall_id \<ge> int MAX_SYSCALLS then False
      else
        let key = syscall_id div 64; b = syscall_id mod 64
        in case bitmap_lookup ops bm key of
             None \<Rightarrow> False
           | Some w \<Rightarrow> w AND push_bit (unat b) 1 \<noteq> 0)"

text \<open>The loop over \<open>COMM_LEN\<close> characters of two arrays of that length.\<close>

fun comm_loop :: "nat \<Rightarrow> string \<Rightarrow> string \<Rightarrow> nat \<Rightarrow> bool" where
  "comm_loop 0 a b i = True"
| "comm_loop (Suc n) a b i =
     (if a ! i \<noteq> b ! i then False else if a ! i = NUL then True else comm_loop n a b (i + 1))"

definition comm_equal :: "string \<Rightarrow> string \<Rightarrow> bool" where
  "comm_equal a b = comm_loop COMM_LEN a b 0"

text \<open>The whitelist as a set of numbers: bit \<open>n mod 64\<close> of word \<open>n div 64\<close>.\<close>

definition bitmap_has :: "('h, 'b) bpf_ops \<Rightarrow> 'b \<Rightarrow> nat \<Rightarrow> bool" where
  "bitmap_has ops bm n \<longleftrightarrow>
     (case bitmap_lookup ops bm (word_of_nat (n div 64)) of None \<Rightarrow> False | Some w \<Rightarrow> bit w (n mod 64))"

text \<open>
  A system call passes the whitelist exactly when its number is not negative, below
  \<open>MAX_SYSCALLS\<close>, and its bit is set.
\<close>

theorem syscall_allowed_iff:
  "syscall_allowed ops bm n = (0 \<le> sint n \<and> unat n < MAX_SYSCALLS \<and> bitmap_has ops bm (unat n))"
proof -
  have s: "sint n = int (unat n)" if "0 \<le> sint n"
  proof (cases "unat n < 2 ^ 31")
    case True
    then show ?thesis by (simp add: sint_32)
  next
    case False
    then have "sint n = int (unat n) - 4294967296" by (simp add: sint_32)
    with that unat_u32_less [of n] show ?thesis by linarith
  qed
  have k: "word_of_nat (unat n div 64) = n div 64"
  proof -
    have "unat n div 64 < 4294967296" using unat_u32_less [of n] by (rule le_less_trans [OF div_le_dividend])
    then show ?thesis
      by (intro unsigned_word_eqI [where 'a = nat]) (simp add: unsigned_of_nat take_bit_eq_mod unat_div)
  qed
  have m: "unat (n mod 64) = unat n mod 64" by (simp add: unat_mod)
  have lim: "0 \<le> sint n \<Longrightarrow> (512 \<le> sint n) = (512 \<le> unat n)" using s by linarith
  show ?thesis
    by (auto simp: syscall_allowed_def bitmap_has_def k m lim Let_def MAX_SYSCALLS_def
        bit_iff_and_push_bit_not_eq_0 split: option.splits)
qed

lemma comm_loop_cstr:
  "i + n \<le> length a \<Longrightarrow> i + n \<le> length b \<Longrightarrow>
    comm_loop n a b i \<longleftrightarrow> cstr (take n (drop i a)) = cstr (take n (drop i b))"
proof (induction n arbitrary: i)
  case (Suc n)
  have "take (Suc n) (drop i xs) = xs ! i # take n (drop (Suc i) xs)" if "i + Suc n \<le> length xs" for xs :: string
  proof -
    have "drop i xs = xs ! i # drop (Suc i) xs" using that by (intro Cons_nth_drop_Suc [symmetric]) linarith
    then show ?thesis by simp
  qed
  with Suc show ?case by (auto simp: cstr_def)
qed (simp add: cstr_def)

text \<open>
  Two command names compare equal exactly when they are the same C string, a name that
  fills the whole array without a NUL included.
\<close>

theorem comm_equal_cstr:
  assumes "length a = COMM_LEN" "length b = COMM_LEN"
  shows "comm_equal a b = (cstr a = cstr b)"
  using comm_loop_cstr [of 0 COMM_LEN a b] assms by (simp add: comm_equal_def)

lemma comm_equal_cstr_witness: "comm_equal (''sh'' @ replicate 14 NUL) (''sh'' @ NUL # replicate 13 (CHR ''x''))"
proof -
  have "COMM_LEN = 16" by (simp add: COMM_LEN_def)
  then show ?thesis
    using comm_equal_cstr [of "''sh'' @ replicate 14 NUL" "''sh'' @ NUL # replicate 13 (CHR ''x'')"]
      cstr_append_NUL [of "''sh''" "replicate 13 NUL"] cstr_append_NUL [of "''sh''" "replicate 13 (CHR ''x'')"]
    by (simp add: cstr_def)
qed

section \<open>The handlers\<close>

text \<open>
  What \<open>trace_enter\<close> writes over the slot of \<open>in_map\<close>, and \<open>trace_exit\<close> over the slot of
  \<open>event_map\<close>: without \<open>-s\<close> the stack that is there stays.
\<close>

definition fill_data :: "trace_config \<Rightarrow> tp_env \<Rightarrow> sys_enter_ctx \<Rightarrow> inflight_syscall \<Rightarrow> inflight_syscall" where
  "fill_data cfg env ctx data0 =
     (let pid_tgid = tp_pid_tgid env;
          data = data0\<lparr>in_ts_ns := tp_ktime env, in_pid := ucast (drop_bit 32 pid_tgid), in_tid := ucast pid_tgid,
            in_syscall_id := ucast (en_id ctx), in_args := en_args ctx\<rparr>
      in if print_stack_enabled cfg \<noteq> 0 then
           (case tp_stack env (in_user_stack data) of (stk, n) \<Rightarrow> data\<lparr>in_user_stack := stk, in_stack_size := n\<rparr>)
         else data)"

definition fill_event ::
  "trace_config \<Rightarrow> tp_env \<Rightarrow> sys_exit_ctx \<Rightarrow> inflight_syscall \<Rightarrow> syscall_event \<Rightarrow> syscall_event" where
  "fill_event cfg env ctx i event0 =
     (let now = tp_ktime env;
          event = event0\<lparr>se_ts_ns := in_ts_ns i, se_duration_ns := now - in_ts_ns i,
            se_pid := in_pid i, se_tid := in_tid i, se_syscall_id := in_syscall_id i,
            se_ret := ex_ret ctx, se_stack_size := in_stack_size i, se_args := in_args i\<rparr>
      in if print_stack_enabled cfg \<noteq> 0 then event\<lparr>se_user_stack := in_user_stack i\<rparr> else event)"

definition trace_enter ::
  "('h, 'b) bpf_ops \<Rightarrow> tp_env \<Rightarrow> sys_enter_ctx \<Rightarrow> ('h, 'b) bpf_state \<Rightarrow> ('h, 'b) bpf_state" where
  "trace_enter ops env ctx s =
     (case st_config s of None \<Rightarrow> s
      | Some cfg \<Rightarrow>
          let pid_tgid = tp_pid_tgid env; pid = ucast (drop_bit 32 pid_tgid) :: u32
          in case tp_comm env of None \<Rightarrow> s
             | Some comm \<Rightarrow>
                 if filter_type cfg = FILTER_PID \<and> pid \<noteq> target_pid cfg then s
                 else if filter_type cfg = FILTER_COMM \<and> \<not> comm_equal comm (target_comm cfg) then s
                 else if syscall_filter_enabled cfg \<noteq> 0 \<and> \<not> syscall_allowed ops (st_bitmap s) (ucast (en_id ctx)) then s
                 else
                   (case st_in s (tp_cpu env) of None \<Rightarrow> s
                    | Some data0 \<Rightarrow>
                        let data = fill_data cfg env ctx data0;
                            s1 = s\<lparr>st_in := (st_in s)(tp_cpu env := Some data)\<rparr>
                        in case inflight_update ops (st_inflight s1) pid_tgid data of
                             None \<Rightarrow> s1
                           | Some h \<Rightarrow> s1\<lparr>st_inflight := h\<rparr>))"

text \<open>
  \<open>bpf_perf_event_output\<close> with \<open>BPF_F_CURRENT_CPU\<close> takes the number of the CPU as the index into
  \<open>events\<close> and fails when that is no index of the map or when the ring there takes no record; a
  failed call sends nothing, and the handler does not look at the result.
\<close>

definition perf_accepts :: "tp_env \<Rightarrow> bool" where
  "perf_accepts env \<longleftrightarrow> tp_cpu env < max_entries events_map \<and> tp_ring env"

definition perf_event_output :: "tp_env \<Rightarrow> syscall_event \<Rightarrow> syscall_event list \<Rightarrow> syscall_event list" where
  "perf_event_output env event out = (if perf_accepts env then out @ [event] else out)"

definition trace_exit ::
  "('h, 'b) bpf_ops \<Rightarrow> tp_env \<Rightarrow> sys_exit_ctx \<Rightarrow> ('h, 'b) bpf_state \<Rightarrow> ('h, 'b) bpf_state" where
  "trace_exit ops env ctx s =
     (case inflight_lookup ops (st_inflight s) (tp_pid_tgid env) of None \<Rightarrow> s
      | Some i \<Rightarrow>
          (case st_event s (tp_cpu env) of None \<Rightarrow> s
           | Some event0 \<Rightarrow>
               (case st_config s of None \<Rightarrow> s
                | Some cfg \<Rightarrow>
                    let event = fill_event cfg env ctx i event0
                    in s\<lparr>st_event := (st_event s)(tp_cpu env := Some event),
                         st_output := perf_event_output env event (st_output s),
                         st_inflight := inflight_delete ops (st_inflight s) (tp_pid_tgid env)\<rparr>)))"

section \<open>Histories\<close>

datatype tp_call = Enter tp_env sys_enter_ctx | Exit tp_env sys_exit_ctx

fun tp_run1 :: "('h, 'b) bpf_ops \<Rightarrow> tp_call \<Rightarrow> ('h, 'b) bpf_state \<Rightarrow> ('h, 'b) bpf_state" where
  "tp_run1 ops (Enter env ctx) s = trace_enter ops env ctx s"
| "tp_run1 ops (Exit env ctx) s = trace_exit ops env ctx s"

fun call_key :: "tp_call \<Rightarrow> u64" where
  "call_key (Enter env ctx) = tp_pid_tgid env"
| "call_key (Exit env ctx) = tp_pid_tgid env"

inductive bpf_step :: "('h, 'b) bpf_ops \<Rightarrow> ('h, 'b) bpf_state \<Rightarrow> tp_call \<Rightarrow> ('h, 'b) bpf_state \<Rightarrow> bool"
  for ops where
  step_enter: "bpf_step ops s (Enter env ctx) (trace_enter ops env ctx s)"
| step_exit: "bpf_step ops s (Exit env ctx) (trace_exit ops env ctx s)"

inductive bpf_steps :: "('h, 'b) bpf_ops \<Rightarrow> ('h, 'b) bpf_state \<Rightarrow> tp_call list \<Rightarrow> ('h, 'b) bpf_state \<Rightarrow> bool"
  for ops where
  steps_none: "bpf_steps ops s [] s"
| steps_snoc: "bpf_steps ops s cs s' \<Longrightarrow> bpf_step ops s' c s'' \<Longrightarrow> bpf_steps ops s (cs @ [c]) s''"

inductive_cases bpf_stepE [elim!]: "bpf_step ops s c s'"
inductive_simps bpf_step_simps: "bpf_step ops s (Enter env ctx) s'" "bpf_step ops s (Exit env ctx) s'"

lemma bpf_step_run1: "bpf_step ops s c s' \<longleftrightarrow> s' = tp_run1 ops c s"
  by (cases c) (auto simp: bpf_step_simps)

definition tp_run :: "('h, 'b) bpf_ops \<Rightarrow> tp_call list \<Rightarrow> ('h, 'b) bpf_state \<Rightarrow> ('h, 'b) bpf_state" where
  "tp_run ops cs s = fold (tp_run1 ops) cs s"

lemma tp_run_simps [simp]:
  "tp_run ops [] s = s" "tp_run ops (c # cs) s = tp_run ops cs (tp_run1 ops c s)"
  "tp_run ops (cs @ ds) s = tp_run ops ds (tp_run ops cs s)"
  by (simp_all add: tp_run_def)

lemma bpf_steps_run: "bpf_steps ops s cs s' \<longleftrightarrow> s' = tp_run ops cs s"
proof
  show "bpf_steps ops s cs s' \<Longrightarrow> s' = tp_run ops cs s"
    by (induction rule: bpf_steps.induct) (auto simp: bpf_step_run1)
  have "bpf_steps ops s cs (tp_run ops cs s)"
    by (induction cs rule: rev_induct) (auto simp: bpf_step_run1 intro: bpf_steps.intros)
  then show "s' = tp_run ops cs s \<Longrightarrow> bpf_steps ops s cs s'" by simp
qed

text \<open>The state after loading: the configuration and whitelist of user space, everything else empty.\<close>

definition zero_inflight :: inflight_syscall where
  "zero_inflight = \<lparr>in_ts_ns = 0, in_args = replicate 6 0, in_user_stack = replicate MAX_STACK_DEPTH 0,
     in_stack_size = 0, in_pid = 0, in_tid = 0, in_syscall_id = 0\<rparr>"

definition zero_event :: syscall_event where
  "zero_event = \<lparr>se_ts_ns = 0, se_duration_ns = 0, se_args = replicate 6 0, se_ret = 0,
     se_user_stack = replicate MAX_STACK_DEPTH 0, se_stack_size = 0, se_pid = 0, se_tid = 0, se_syscall_id = 0\<rparr>"

definition bpf_init :: "trace_config \<Rightarrow> 'b \<Rightarrow> 'h \<Rightarrow> ('h, 'b) bpf_state" where
  "bpf_init cfg bm h = \<lparr>st_config = Some cfg, st_bitmap = bm, st_inflight = h,
     st_in = (\<lambda>_. Some zero_inflight), st_event = (\<lambda>_. Some zero_event), st_output = []\<rparr>"

text \<open>The arrays and per-CPU slots stay present and the handlers never write the configuration.\<close>

definition loaded :: "trace_config \<Rightarrow> 'b \<Rightarrow> ('h, 'b) bpf_state \<Rightarrow> bool" where
  "loaded cfg bm s \<longleftrightarrow> st_config s = Some cfg \<and> st_bitmap s = bm \<and>
     (\<forall>cpu. st_in s cpu \<noteq> None) \<and> (\<forall>cpu. st_event s cpu \<noteq> None)"

lemma loaded_init [simp]: "loaded cfg bm (bpf_init cfg bm h)"
  by (simp add: loaded_def bpf_init_def)

section \<open>What the handlers are to do\<close>

definition env_pid :: "tp_env \<Rightarrow> u32" where "env_pid env = ucast (drop_bit 32 (tp_pid_tgid env))"
definition env_tid :: "tp_env \<Rightarrow> u32" where "env_tid env = ucast (tp_pid_tgid env)"

text \<open>Whether the configuration asks for a call.\<close>

definition wanted :: "('h, 'b) bpf_ops \<Rightarrow> trace_config \<Rightarrow> 'b \<Rightarrow> tp_env \<Rightarrow> sys_enter_ctx \<Rightarrow> bool" where
  "wanted ops cfg bm env ctx \<longleftrightarrow>
     (case tp_comm env of None \<Rightarrow> False
      | Some comm \<Rightarrow>
          (filter_type cfg = FILTER_PID \<longrightarrow> env_pid env = target_pid cfg) \<and>
          (filter_type cfg = FILTER_COMM \<longrightarrow> comm_equal comm (target_comm cfg)) \<and>
          (syscall_filter_enabled cfg \<noteq> 0 \<longrightarrow> syscall_allowed ops bm (ucast (en_id ctx))))"

text \<open>
  What a record of a pending call and an event say. With \<open>-s\<close> the stack is what \<open>bpf_get_stack\<close>
  answered at the entry of the call, written over whatever the slot of the CPU held.
\<close>

definition stack_is :: "trace_config \<Rightarrow> tp_env \<Rightarrow> u64 list \<Rightarrow> s32 \<Rightarrow> bool" where
  "stack_is cfg env stk n \<longleftrightarrow> print_stack_enabled cfg \<noteq> 0 \<longrightarrow> (\<exists>old. tp_stack env old = (stk, n))"

definition inflight_is :: "trace_config \<Rightarrow> inflight_syscall \<Rightarrow> tp_env \<Rightarrow> sys_enter_ctx \<Rightarrow> bool" where
  "inflight_is cfg i env ctx \<longleftrightarrow>
     in_ts_ns i = tp_ktime env \<and> in_args i = en_args ctx \<and> in_pid i = env_pid env \<and> in_tid i = env_tid env \<and>
     in_syscall_id i = ucast (en_id ctx) \<and> stack_is cfg env (in_user_stack i) (in_stack_size i)"

definition event_is :: "trace_config \<Rightarrow> syscall_event \<Rightarrow> tp_env \<Rightarrow> sys_enter_ctx \<Rightarrow> tp_env \<Rightarrow> sys_exit_ctx \<Rightarrow> bool" where
  "event_is cfg ev env ctx env' ctx' \<longleftrightarrow>
     se_ts_ns ev = tp_ktime env \<and> se_duration_ns ev = tp_ktime env' - tp_ktime env \<and>
     se_args ev = en_args ctx \<and> se_ret ev = ex_ret ctx' \<and> se_pid ev = env_pid env \<and> se_tid ev = env_tid env \<and>
     se_syscall_id ev = ucast (en_id ctx) \<and> stack_is cfg env (se_user_stack ev) (se_stack_size ev)"

lemma inflight_is_fill: "inflight_is cfg (fill_data cfg env ctx data0) env ctx"
  by (auto simp: fill_data_def inflight_is_def stack_is_def env_pid_def env_tid_def Let_def split: prod.split)

lemma event_is_fill:
  "inflight_is cfg i env ctx \<Longrightarrow> event_is cfg (fill_event cfg env' ctx' i event0) env ctx env' ctx'"
  by (simp add: fill_event_def event_is_def inflight_is_def stack_is_def Let_def)

lemma trace_enter_unwanted:
  assumes "loaded cfg bm s" "\<not> wanted ops cfg bm env ctx"
  shows "trace_enter ops env ctx s = s"
  using assms by (auto simp: trace_enter_def wanted_def loaded_def env_pid_def Let_def split: option.split)

lemma trace_enter_filled:
  assumes "loaded cfg bm s" "wanted ops cfg bm env ctx" "st_in s (tp_cpu env) = Some data0"
  shows "trace_enter ops env ctx s =
    (let data = fill_data cfg env ctx data0; s1 = s\<lparr>st_in := (st_in s)(tp_cpu env := Some data)\<rparr>
     in case inflight_update ops (st_inflight s) (tp_pid_tgid env) data of None \<Rightarrow> s1 | Some h \<Rightarrow> s1\<lparr>st_inflight := h\<rparr>)"
proof -
  obtain comm where comm: "tp_comm env = Some comm" using assms(2) by (auto simp: wanted_def split: option.splits)
  have pass: "(filter_type cfg = FILTER_PID \<and> ucast (drop_bit 32 (tp_pid_tgid env)) \<noteq> target_pid cfg) = False"
      "(filter_type cfg = FILTER_COMM \<and> \<not> comm_equal comm (target_comm cfg)) = False"
      "(syscall_filter_enabled cfg \<noteq> 0 \<and> \<not> syscall_allowed ops (st_bitmap s) (ucast (en_id ctx))) = False"
    using assms(1,2) comm by (auto simp: wanted_def loaded_def env_pid_def)
  have cfg: "st_config s = Some cfg" using assms(1) by (simp add: loaded_def)
  show ?thesis
    unfolding trace_enter_def by (simp only: cfg comm assms(3) pass option.case if_False Let_def) simp
qed

lemma trace_enter_wanted:
  assumes "loaded cfg bm s" "wanted ops cfg bm env ctx"
  shows "\<exists>data. inflight_is cfg data env ctx \<and>
    trace_enter ops env ctx s =
      (let s1 = s\<lparr>st_in := (st_in s)(tp_cpu env := Some data)\<rparr>
       in case inflight_update ops (st_inflight s) (tp_pid_tgid env) data of None \<Rightarrow> s1 | Some h \<Rightarrow> s1\<lparr>st_inflight := h\<rparr>)"
proof -
  obtain data0 where "st_in s (tp_cpu env) = Some data0" using assms(1) by (auto simp: loaded_def)
  from trace_enter_filled [OF assms this] show ?thesis
    by (intro exI [of _ "fill_data cfg env ctx data0"]) (simp add: inflight_is_fill Let_def)
qed

lemma trace_exit_idle:
  "inflight_lookup ops (st_inflight s) (tp_pid_tgid env) = None \<Longrightarrow> trace_exit ops env ctx s = s"
  by (simp add: trace_exit_def)

lemma trace_exit_pending:
  assumes "loaded cfg bm s" "inflight_lookup ops (st_inflight s) (tp_pid_tgid env') = Some i"
    and "inflight_is cfg i env ctx"
  shows "\<exists>ev. event_is cfg ev env ctx env' ctx' \<and>
    trace_exit ops env' ctx' s = s\<lparr>st_event := (st_event s)(tp_cpu env' := Some ev),
      st_output := perf_event_output env' ev (st_output s),
      st_inflight := inflight_delete ops (st_inflight s) (tp_pid_tgid env')\<rparr>"
proof -
  obtain ev0 where ev0: "st_event s (tp_cpu env') = Some ev0" using assms(1) by (auto simp: loaded_def)
  have cfg: "st_config s = Some cfg" using assms(1) by (simp add: loaded_def)
  define ev where "ev = fill_event cfg env' ctx' i ev0"
  have "event_is cfg ev env ctx env' ctx'" using assms(3) by (simp add: ev_def event_is_fill)
  moreover have "trace_exit ops env' ctx' s = s\<lparr>st_event := (st_event s)(tp_cpu env' := Some ev),
      st_output := perf_event_output env' ev (st_output s),
      st_inflight := inflight_delete ops (st_inflight s) (tp_pid_tgid env')\<rparr>"
    unfolding trace_exit_def
    by (simp only: assms(2) ev0 cfg option.case Let_def) (simp add: ev_def)
  ultimately show ?thesis by blast
qed

lemma loaded_run1: "loaded cfg bm s \<Longrightarrow> loaded cfg bm (tp_run1 ops c s)"
proof (cases c)
  case (Enter env ctx)
  moreover assume l: "loaded cfg bm s"
  ultimately show ?thesis
    using trace_enter_unwanted [OF l, of ops env ctx] trace_enter_wanted [OF l, of ops env ctx]
    by (cases "wanted ops cfg bm env ctx") (auto simp: Let_def loaded_def split: option.splits)
next
  case (Exit env ctx)
  moreover assume "loaded cfg bm s"
  ultimately show ?thesis by (auto simp: trace_exit_def loaded_def Let_def split: option.split)
qed

lemma loaded_run: "loaded cfg bm s \<Longrightarrow> loaded cfg bm (tp_run ops cs s)"
  by (induction cs arbitrary: s) (simp_all add: loaded_run1)

section \<open>Every event has its entry and its exit\<close>

definition no_exit :: "u64 \<Rightarrow> tp_call list \<Rightarrow> bool" where
  "no_exit k cs \<longleftrightarrow> list_all (\<lambda>c. case c of Enter env ctx \<Rightarrow> True | Exit env ctx \<Rightarrow> tp_pid_tgid env \<noteq> k) cs"

lemma no_exit_simps [simp]:
  "no_exit k []" "no_exit k (Enter env ctx # cs) = no_exit k cs"
  "no_exit k (Exit env ctx' # cs) = (tp_pid_tgid env \<noteq> k \<and> no_exit k cs)"
  "no_exit k (cs @ ds) = (no_exit k cs \<and> no_exit k ds)"
  by (simp_all add: no_exit_def)

definition pending_from ::
  "('h, 'b) bpf_ops \<Rightarrow> trace_config \<Rightarrow> 'b \<Rightarrow> tp_call list \<Rightarrow> u64 \<Rightarrow> inflight_syscall \<Rightarrow> bool" where
  "pending_from ops cfg bm cs k i \<longleftrightarrow>
     (\<exists>xs env ctx ys. cs = xs @ Enter env ctx # ys \<and> tp_pid_tgid env = k \<and> wanted ops cfg bm env ctx \<and>
        no_exit k ys \<and> inflight_is cfg i env ctx)"

definition event_from ::
  "('h, 'b) bpf_ops \<Rightarrow> trace_config \<Rightarrow> 'b \<Rightarrow> tp_call list \<Rightarrow> syscall_event \<Rightarrow> bool" where
  "event_from ops cfg bm cs ev \<longleftrightarrow>
     (\<exists>xs env ctx ys env' ctx' zs. cs = xs @ Enter env ctx # ys @ Exit env' ctx' # zs \<and>
        tp_pid_tgid env' = tp_pid_tgid env \<and> wanted ops cfg bm env ctx \<and>
        no_exit (tp_pid_tgid env) ys \<and> event_is cfg ev env ctx env' ctx')"

lemma pending_from_snoc:
  assumes "pending_from ops cfg bm cs k i" "no_exit k [c]"
  shows "pending_from ops cfg bm (cs @ [c]) k i"
proof -
  obtain xs env ctx ys where p: "cs = xs @ Enter env ctx # ys" "tp_pid_tgid env = k" "wanted ops cfg bm env ctx"
      "no_exit k ys" "inflight_is cfg i env ctx"
    using assms(1) by (auto simp: pending_from_def)
  then have "cs @ [c] = xs @ Enter env ctx # (ys @ [c])" "no_exit k (ys @ [c])" using assms(2) by simp_all
  with p show ?thesis unfolding pending_from_def by blast
qed

lemma event_from_snoc:
  assumes "event_from ops cfg bm cs ev"
  shows "event_from ops cfg bm (cs @ [c]) ev"
proof -
  obtain xs env ctx ys env' ctx' zs where p: "cs = xs @ Enter env ctx # ys @ Exit env' ctx' # zs"
      "tp_pid_tgid env' = tp_pid_tgid env \<and> wanted ops cfg bm env ctx \<and>
        no_exit (tp_pid_tgid env) ys \<and> event_is cfg ev env ctx env' ctx'"
    using assms by (auto simp: event_from_def)
  then have "cs @ [c] = xs @ Enter env ctx # ys @ Exit env' ctx' # (zs @ [c])" by simp
  with p(2) show ?thesis unfolding event_from_def by blast
qed

lemma pending_from_enter:
  "wanted ops cfg bm env ctx \<Longrightarrow> inflight_is cfg i env ctx \<Longrightarrow>
    pending_from ops cfg bm (cs @ [Enter env ctx]) (tp_pid_tgid env) i"
  unfolding pending_from_def by (intro exI [of _ cs] exI [of _ env] exI [of _ ctx] exI [of _ "[]"]) simp

lemma event_from_exit:
  assumes "pending_from ops cfg bm cs (tp_pid_tgid env') i"
    and "\<And>env ctx. inflight_is cfg i env ctx \<Longrightarrow> event_is cfg ev env ctx env' ctx'"
  shows "event_from ops cfg bm (cs @ [Exit env' ctx']) ev"
proof -
  obtain xs env ctx ys where "cs = xs @ Enter env ctx # ys" "tp_pid_tgid env = tp_pid_tgid env'"
      "wanted ops cfg bm env ctx" "no_exit (tp_pid_tgid env') ys" "inflight_is cfg i env ctx"
    using assms(1) by (auto simp: pending_from_def)
  moreover from this have "event_is cfg ev env ctx env' ctx'" by (simp add: assms(2))
  ultimately show ?thesis unfolding event_from_def
    by (intro exI [of _ xs] exI [of _ env] exI [of _ ctx] exI [of _ ys] exI [of _ env'] exI [of _ ctx'] exI [of _ "[]"])
      simp
qed

locale bpf_kernel = bpf_hash "inflight_lookup ops" "inflight_update ops" "inflight_delete ops" hinv
  for ops :: "('h, 'b) bpf_ops" and hinv :: "'h \<Rightarrow> bool"
begin

lemma enter_inflight:
  assumes "loaded cfg bm s" "hinv (st_inflight s)"
  shows "hinv (st_inflight (trace_enter ops env ctx s))"
    and "st_output (trace_enter ops env ctx s) = st_output s"
    and "inflight_lookup ops (st_inflight (trace_enter ops env ctx s)) k = inflight_lookup ops (st_inflight s) k \<or>
      k = tp_pid_tgid env \<and> wanted ops cfg bm env ctx \<and>
      (\<exists>i. inflight_lookup ops (st_inflight (trace_enter ops env ctx s)) k = Some i \<and> inflight_is cfg i env ctx)"
proof -
  show "hinv (st_inflight (trace_enter ops env ctx s))" "st_output (trace_enter ops env ctx s) = st_output s"
    using assms trace_enter_unwanted [OF assms(1), of ops env ctx] trace_enter_wanted [OF assms(1), of ops env ctx]
    by (cases "wanted ops cfg bm env ctx"; auto simp: Let_def hupdate_inv split: option.splits)+
  show "inflight_lookup ops (st_inflight (trace_enter ops env ctx s)) k = inflight_lookup ops (st_inflight s) k \<or>
      k = tp_pid_tgid env \<and> wanted ops cfg bm env ctx \<and>
      (\<exists>i. inflight_lookup ops (st_inflight (trace_enter ops env ctx s)) k = Some i \<and> inflight_is cfg i env ctx)"
    using assms trace_enter_unwanted [OF assms(1), of ops env ctx] trace_enter_wanted [OF assms(1), of ops env ctx]
    by (cases "wanted ops cfg bm env ctx") (auto simp: Let_def hlookup_update split: option.splits if_splits)
qed

lemma exit_inflight:
  assumes "loaded cfg bm s" "hinv (st_inflight s)"
  shows "hinv (st_inflight (trace_exit ops env ctx s))"
    and "inflight_lookup ops (st_inflight (trace_exit ops env ctx s)) k =
      (if k = tp_pid_tgid env then None else inflight_lookup ops (st_inflight s) k)"
    and "(\<exists>i ev. inflight_lookup ops (st_inflight s) (tp_pid_tgid env) = Some i \<and>
         st_output (trace_exit ops env ctx s) = perf_event_output env ev (st_output s) \<and>
         (\<forall>e c. inflight_is cfg i e c \<longrightarrow> event_is cfg ev e c env ctx)) \<or>
       inflight_lookup ops (st_inflight s) (tp_pid_tgid env) = None \<and>
         st_output (trace_exit ops env ctx s) = st_output s"
proof -
  obtain ev0 where ev0: "st_event s (tp_cpu env) = Some ev0" using assms(1) by (auto simp: loaded_def)
  have cfg: "st_config s = Some cfg" using assms(1) by (simp add: loaded_def)
  show "hinv (st_inflight (trace_exit ops env ctx s))"
    using assms ev0 cfg by (simp add: trace_exit_def Let_def hdelete_inv split: option.split)
  show "inflight_lookup ops (st_inflight (trace_exit ops env ctx s)) k =
      (if k = tp_pid_tgid env then None else inflight_lookup ops (st_inflight s) k)"
    using assms ev0 cfg by (simp add: trace_exit_def Let_def hlookup_delete split: option.split)
  show "(\<exists>i ev. inflight_lookup ops (st_inflight s) (tp_pid_tgid env) = Some i \<and>
         st_output (trace_exit ops env ctx s) = perf_event_output env ev (st_output s) \<and>
         (\<forall>e c. inflight_is cfg i e c \<longrightarrow> event_is cfg ev e c env ctx)) \<or>
       inflight_lookup ops (st_inflight s) (tp_pid_tgid env) = None \<and>
         st_output (trace_exit ops env ctx s) = st_output s"
    using ev0 cfg
    by (cases "inflight_lookup ops (st_inflight s) (tp_pid_tgid env)")
      (auto simp: trace_exit_def Let_def event_is_fill)
qed

lemma run_invariant:
  assumes "hinv h" "\<And>k. inflight_lookup ops h k = None"
  shows "hinv (st_inflight (tp_run ops cs (bpf_init cfg bm h))) \<and>
    (\<forall>k i. inflight_lookup ops (st_inflight (tp_run ops cs (bpf_init cfg bm h))) k = Some i \<longrightarrow>
       pending_from ops cfg bm cs k i) \<and>
    (\<forall>ev \<in> set (st_output (tp_run ops cs (bpf_init cfg bm h))). event_from ops cfg bm cs ev)"
proof (induction cs rule: rev_induct)
  case Nil
  with assms show ?case by (simp add: bpf_init_def)
next
  case (snoc c cs)
  define s where "s = tp_run ops cs (bpf_init cfg bm h)"
  have l: "loaded cfg bm s" unfolding s_def by (rule loaded_run) simp
  have inv: "hinv (st_inflight s)"
    and pend: "\<And>k i. inflight_lookup ops (st_inflight s) k = Some i \<Longrightarrow> pending_from ops cfg bm cs k i"
    and evs: "\<And>ev. ev \<in> set (st_output s) \<Longrightarrow> event_from ops cfg bm cs ev"
    using snoc by (auto simp: s_def)
  show ?case
  proof (cases c)
    case (Enter env ctx)
    note step = enter_inflight [OF l inv, of env ctx]
    have "pending_from ops cfg bm (cs @ [c]) k i"
      if "inflight_lookup ops (st_inflight (trace_enter ops env ctx s)) k = Some i" for k i
      using step(3) [of k] that pend [of k i] pending_from_snoc [of ops cfg bm cs k i c]
        pending_from_enter [of ops cfg bm env ctx i cs] Enter by auto
    moreover have "event_from ops cfg bm (cs @ [c]) ev" if "ev \<in> set (st_output (trace_enter ops env ctx s))" for ev
      using that evs [of ev] event_from_snoc [of ops cfg bm cs ev c] by (simp add: step(2))
    ultimately show ?thesis using step(1) by (auto simp: s_def [symmetric] Enter)
  next
    case (Exit env ctx)
    note step = exit_inflight [OF l inv, of env ctx]
    have p: "pending_from ops cfg bm (cs @ [c]) k i"
      if "inflight_lookup ops (st_inflight (trace_exit ops env ctx s)) k = Some i" for k i
      using step(2) [of k] that pend [of k i] pending_from_snoc [of ops cfg bm cs k i c] Exit
      by (auto split: if_splits)
    have e: "event_from ops cfg bm (cs @ [c]) ev" if "ev \<in> set (st_output (trace_exit ops env ctx s))" for ev
      using step(3)
    proof (elim disjE exE conjE)
      fix i ev'
      assume i: "inflight_lookup ops (st_inflight s) (tp_pid_tgid env) = Some i"
        and out: "st_output (trace_exit ops env ctx s) = perf_event_output env ev' (st_output s)"
        and iscore: "\<forall>e c. inflight_is cfg i e c \<longrightarrow> event_is cfg ev' e c env ctx"
      from out that consider "ev \<in> set (st_output s)" | "ev = ev'"
        by (auto simp: perf_event_output_def split: if_splits)
      then show ?thesis
      proof cases
        case 1
        then show ?thesis by (intro event_from_snoc evs)
      next
        case 2
        with iscore show ?thesis unfolding Exit by (intro event_from_exit [OF pend [OF i]]) blast
      qed
    next
      assume "st_output (trace_exit ops env ctx s) = st_output s"
      with that show ?thesis by (intro event_from_snoc evs) simp
    qed
    from p e step(1) show ?thesis by (auto simp: s_def [symmetric] Exit)
  qed
qed

end

section \<open>The abstract tracer\<close>

text \<open>
  What the two handlers are meant to compute from a history: per thread the entry it is in, and
  the list of finished calls whose record the kernel took, each with its entry and its exit.
\<close>

type_synonym pending = "u64 \<Rightarrow> (tp_env \<times> sys_enter_ctx) option"
type_synonym finished = "(tp_env \<times> sys_enter_ctx) \<times> (tp_env \<times> sys_exit_ctx)"

fun tracer_step ::
  "('h, 'b) bpf_ops \<Rightarrow> trace_config \<Rightarrow> 'b \<Rightarrow> tp_call \<Rightarrow> pending \<times> finished list \<Rightarrow> pending \<times> finished list" where
  "tracer_step ops cfg bm (Enter env ctx) (p, fs) =
     (if wanted ops cfg bm env ctx then p(tp_pid_tgid env \<mapsto> (env, ctx)) else p, fs)"
| "tracer_step ops cfg bm (Exit env ctx) (p, fs) =
     (case p (tp_pid_tgid env) of
        None \<Rightarrow> (p, fs)
      | Some enter \<Rightarrow>
          (p(tp_pid_tgid env := None), if perf_accepts env then fs @ [(enter, (env, ctx))] else fs))"

definition tracer_run ::
  "('h, 'b) bpf_ops \<Rightarrow> trace_config \<Rightarrow> 'b \<Rightarrow> tp_call list \<Rightarrow> pending \<times> finished list" where
  "tracer_run ops cfg bm cs = fold (tracer_step ops cfg bm) cs (Map.empty, [])"

lemma tracer_run_simps [simp]:
  "tracer_run ops cfg bm [] = (Map.empty, [])"
  "tracer_run ops cfg bm (cs @ [c]) = tracer_step ops cfg bm c (tracer_run ops cfg bm cs)"
  by (simp_all add: tracer_run_def)

definition finished_is :: "trace_config \<Rightarrow> syscall_event \<Rightarrow> finished \<Rightarrow> bool" where
  "finished_is cfg ev f = (case f of ((env, ctx), (env', ctx')) \<Rightarrow> event_is cfg ev env ctx env' ctx')"

definition tracer_abs :: "('h, 'b) bpf_ops \<Rightarrow> trace_config \<Rightarrow> ('h, 'b) bpf_state \<Rightarrow> pending \<times> finished list \<Rightarrow> bool" where
  "tracer_abs ops cfg s pf \<longleftrightarrow>
     (\<forall>k. rel_option (\<lambda>i (env, ctx). inflight_is cfg i env ctx) (inflight_lookup ops (st_inflight s) k) (fst pf k)) \<and>
     list_all2 (finished_is cfg) (st_output s) (snd pf)"

context bpf_kernel
begin

lemma tracer_enter:
  assumes "loaded cfg bm s" "hinv (st_inflight s)" "tracer_abs ops cfg s pf"
    and "\<And>d. inflight_update ops (st_inflight s) (tp_pid_tgid env) d \<noteq> None"
  shows "tracer_abs ops cfg (trace_enter ops env ctx s) (tracer_step ops cfg bm (Enter env ctx) pf)"
proof (cases "wanted ops cfg bm env ctx")
  case False
  with assms trace_enter_unwanted [OF assms(1) False] show ?thesis by (cases pf) simp
next
  case True
  obtain data where d: "inflight_is cfg data env ctx" and step: "trace_enter ops env ctx s =
      (let s1 = s\<lparr>st_in := (st_in s)(tp_cpu env := Some data)\<rparr>
       in case inflight_update ops (st_inflight s) (tp_pid_tgid env) data of None \<Rightarrow> s1 | Some h \<Rightarrow> s1\<lparr>st_inflight := h\<rparr>)"
    using trace_enter_wanted [OF assms(1) True] by blast
  obtain h where h: "inflight_update ops (st_inflight s) (tp_pid_tgid env) data = Some h" using assms(4) by blast
  with step True assms(2,3) d show ?thesis
    by (cases pf) (auto simp: tracer_abs_def Let_def hlookup_update [OF assms(2) h])
qed

lemma tracer_exit:
  assumes "loaded cfg bm s" "hinv (st_inflight s)" "tracer_abs ops cfg s pf"
  shows "tracer_abs ops cfg (trace_exit ops env ctx s) (tracer_step ops cfg bm (Exit env ctx) pf)"
proof -
  obtain p fs where pf: "pf = (p, fs)" by (cases pf)
  note step = exit_inflight [OF assms(1,2), of env ctx]
  have lk: "rel_option (\<lambda>i (env, ctx). inflight_is cfg i env ctx) (inflight_lookup ops (st_inflight s) k) (p k)" for k
    using assms(3) by (simp add: tracer_abs_def pf)
  have out: "list_all2 (finished_is cfg) (st_output s) fs" using assms(3) by (simp add: tracer_abs_def pf)
  show ?thesis
  proof (cases "p (tp_pid_tgid env)")
    case None
    with lk [of "tp_pid_tgid env"] have "inflight_lookup ops (st_inflight s) (tp_pid_tgid env) = None" by simp
    with assms(3) None show ?thesis by (simp add: trace_exit_idle pf)
  next
    case (Some ec)
    obtain e c where ec: "ec = (e, c)" by (cases ec)
    with lk [of "tp_pid_tgid env"] Some
    have "\<exists>i. inflight_lookup ops (st_inflight s) (tp_pid_tgid env) = Some i \<and> inflight_is cfg i e c" by (auto simp: option_rel_Some2)
    with step(3) obtain ev where "st_output (trace_exit ops env ctx s) = perf_event_output env ev (st_output s)"
        "event_is cfg ev e c env ctx"
      by auto
    with out lk Some ec show ?thesis
      by (auto simp: tracer_abs_def pf step(2) finished_is_def perf_event_output_def intro!: list_all2_appendI)
  qed
qed

end

interpretation kern: bpf_kernel kernel_maps table_ok_inflight
  by unfold_locales
    (simp_all add: inflight.hupdate_inv inflight.hlookup_update inflight.hdelete_inv inflight.hlookup_delete)

lemma kernel_never_full:
  assumes "finite K" "card K \<le> INFLIGHT_ENTRIES" "table_ok_inflight m" "fst ` set m \<subseteq> K" "k \<in> K"
  shows "table_update m k d \<noteq> None"
proof (cases "map_of m k")
  case None
  then have "fst ` set m \<subset> K" using assms(4,5) by (auto simp: map_of_eq_None_iff)
  then have "card (fst ` set m) < card K" by (rule psubset_card_mono [OF assms(1)])
  moreover have "card (fst ` set m) = length m"
    using assms(3) by (metis distinct_card length_map set_map table_ok_inflight_def)
  ultimately show ?thesis using assms(2) by (simp add: table_update_def)
qed (simp add: table_update_def)

lemma inflight_keys_enter:
  "loaded cfg bm s \<Longrightarrow> fst ` set (st_inflight (trace_enter kernel_maps env ctx s)) \<subseteq>
    insert (tp_pid_tgid env) (fst ` set (st_inflight s))"
  using trace_enter_unwanted [of cfg bm s kernel_maps env ctx] trace_enter_wanted [of cfg bm s kernel_maps env ctx]
  by (cases "wanted kernel_maps cfg bm env ctx")
    (auto simp: Let_def table_update_def dom_update split: option.splits if_splits)

lemma inflight_keys_exit:
  "fst ` set (st_inflight (trace_exit kernel_maps env ctx s)) \<subseteq> fst ` set (st_inflight s)"
  using dom_delete_subset [of "tp_pid_tgid env" "st_inflight s"]
  by (simp add: trace_exit_def Let_def table_delete_def split: option.split)

lemma kernel_run_invariant:
  assumes "finite K" "card K \<le> INFLIGHT_ENTRIES"
  shows "call_key ` set cs \<subseteq> K \<Longrightarrow>
    table_ok_inflight (st_inflight (tp_run kernel_maps cs (bpf_init cfg bm []))) \<and>
    fst ` set (st_inflight (tp_run kernel_maps cs (bpf_init cfg bm []))) \<subseteq> K \<and>
    tracer_abs kernel_maps cfg (tp_run kernel_maps cs (bpf_init cfg bm [])) (tracer_run kernel_maps cfg bm cs)"
proof (induction cs rule: rev_induct)
  case Nil
  then show ?case by (simp add: bpf_init_def table_ok_inflight_def tracer_abs_def)
next
  case (snoc c cs)
  define s where "s = tp_run kernel_maps cs (bpf_init cfg bm [])"
  have l: "loaded cfg bm s" unfolding s_def by (rule loaded_run) simp
  have k: "call_key c \<in> K" and inv: "table_ok_inflight (st_inflight s)" "fst ` set (st_inflight s) \<subseteq> K"
    and abs: "tracer_abs kernel_maps cfg s (tracer_run kernel_maps cfg bm cs)"
    using snoc by (auto simp: s_def)
  show ?case
  proof (cases c)
    case (Enter env ctx)
    have "inflight_update kernel_maps (st_inflight s) (tp_pid_tgid env) d \<noteq> None" for d
      using kernel_never_full [OF assms inv] k Enter by simp
    moreover have "fst ` set (st_inflight (trace_enter kernel_maps env ctx s)) \<subseteq> K"
    proof -
      have "insert (tp_pid_tgid env) (fst ` set (st_inflight s)) \<subseteq> K" using inv(2) k Enter by simp
      with inflight_keys_enter [OF l, of env ctx] show ?thesis by (rule subset_trans)
    qed
    ultimately show ?thesis
      using kern.tracer_enter [OF l inv(1) abs] kern.enter_inflight(1) [OF l inv(1), of env ctx] Enter
      by (simp add: s_def [symmetric])
  next
    case (Exit env ctx)
    have "fst ` set (st_inflight (trace_exit kernel_maps env ctx s)) \<subseteq> K"
      using inflight_keys_exit [of env ctx s] inv(2) by blast
    then show ?thesis
      using kern.tracer_exit [OF l inv(1) abs, of env ctx] kern.exit_inflight(1) [OF l inv(1), of env ctx] Exit
      by (simp add: s_def [symmetric])
  qed
qed

lemma tracer_other: "call_key c \<noteq> k \<Longrightarrow> fst (tracer_step ops cfg bm c pf) k = fst pf k"
  by (cases c; cases pf) (auto split: option.split)

lemma tracer_others:
  "(\<forall>c \<in> set cs. call_key c \<noteq> k) \<Longrightarrow> fst (fold (tracer_step ops cfg bm) cs pf) k = fst pf k"
  by (induction cs arbitrary: pf) (simp_all add: tracer_other)

section \<open>Properties of the whole program\<close>

text \<open>Two threads of one process for the witnesses; the second one's call is still running.\<close>

definition demo_env :: "u64 \<Rightarrow> u64 \<Rightarrow> tp_env" where
  "demo_env k t = \<lparr>tp_cpu = 0, tp_pid_tgid = k, tp_comm = Some (''sh'' @ replicate 14 NUL), tp_ktime = t,
     tp_stack = (\<lambda>b. (b, 0)), tp_ring = True\<rparr>"

lemma demo_env_key [simp]: "tp_pid_tgid (demo_env k t) = k"
  by (simp add: demo_env_def)

definition demo_enter :: "u64 \<Rightarrow> u64 \<Rightarrow> s64 \<Rightarrow> tp_call" where
  "demo_enter k t nr = Enter (demo_env k t) \<lparr>common_type = 0, common_flags = 0, common_preempt_count = 0, common_pid = 8,
          en_id = nr, en_args = [3, 0x1000, 6, 0, 0, 0]\<rparr>"

definition demo_exit :: "u64 \<Rightarrow> u64 \<Rightarrow> s64 \<Rightarrow> s64 \<Rightarrow> tp_call" where
  "demo_exit k t nr r = Exit (demo_env k t) \<lparr>common_type = 0, common_flags = 0, common_preempt_count = 0, common_pid = 8,
          ex_id = nr, ex_ret = r\<rparr>"

definition demo_config :: trace_config where
  "demo_config = \<lparr>filter_type = FILTER_PID, target_pid = 7, syscall_filter_enabled = 0, print_stack_enabled = 0,
     target_comm = replicate 16 NUL\<rparr>"

definition demo_history :: "tp_call list" where
  "demo_history = [demo_enter 0x700000008 1000 63, demo_enter 0x700000009 1100 64, demo_exit 0x700000008 1600 63 6]"

definition demo_state :: "(inflight_table, u64 list) bpf_state" where
  "demo_state = tp_run kernel_maps demo_history (bpf_init demo_config (replicate 8 0) [])"

lemma demo_keys: "call_key ` set demo_history = {0x700000008, 0x700000009}"
  by (auto simp: demo_history_def demo_enter_def demo_exit_def demo_env_def)

lemma demo_pid: "ucast (drop_bit 32 (0x700000008 :: u64)) = (7 :: u32)" "ucast (drop_bit 32 (0x700000009 :: u64)) = (7 :: u32)"
  by code_simp+

lemma demo_steps: "bpf_steps kernel_maps (bpf_init demo_config (replicate 8 0) []) demo_history demo_state"
  by (simp add: bpf_steps_run demo_state_def)

lemma demo_output: "\<exists>ev. st_output demo_state = [ev] \<and> se_pid ev = 7 \<and> se_duration_ns ev = 600 \<and> se_ret ev = 6 \<and> se_syscall_id ev = 63"
  by (simp add: demo_state_def demo_history_def demo_enter_def demo_exit_def demo_env_def bpf_init_def
      trace_enter_def trace_exit_def fill_data_def fill_event_def demo_config_def perf_event_output_def perf_accepts_def events_map_def FILTER_PID_def FILTER_COMM_def table_update_def table_delete_def
      INFLIGHT_ENTRIES_def Let_def zero_inflight_def zero_event_def demo_pid)

text \<open>
  Claim C4. The two handlers implement the abstract tracer: as long as the history has at most
  \<open>0x1000\<close> threads, the pending entries of the hash map are exactly the wanted calls the threads
  are in, and the events sent are exactly the finished wanted calls, in order, each with the
  arguments, ids and time of its entry and the result and time of its exit, and, when stacks were asked
  for, with the stack \<open>bpf_get_stack\<close> gave at the entry.
\<close>

theorem bpf_refines_tracer:
  assumes "card (call_key ` set cs) \<le> INFLIGHT_ENTRIES" "bpf_steps kernel_maps (bpf_init cfg bm []) cs s"
  shows "tracer_abs kernel_maps cfg s (tracer_run kernel_maps cfg bm cs)"
  using kernel_run_invariant [of "call_key ` set cs" cs cfg bm] assms by (simp add: bpf_steps_run)

lemma bpf_refines_tracer_witness:
  "tracer_abs kernel_maps demo_config demo_state (tracer_run kernel_maps demo_config (replicate 8 0) demo_history)"
  using bpf_refines_tracer [OF _ demo_steps] by (simp add: demo_keys INFLIGHT_ENTRIES_def)

text \<open>
  Claim C8. With any maps that honour their contract, refused updates included, no event is made
  up: each comes from a wanted entry and a later exit of the same thread with no other exit of
  that thread between them, and carries their data, the stack of the entry included when stacks were
  asked for.
\<close>

theorem events_paired:
  assumes "bpf_kernel ops hinv" "hinv h" "\<forall>k. inflight_lookup ops h k = None"
    and "bpf_steps ops (bpf_init cfg bm h) cs s" "ev \<in> set (st_output s)"
  shows "event_from ops cfg bm cs ev"
  using bpf_kernel.run_invariant [OF assms(1,2), of cs cfg bm] assms(3-5) by (simp add: bpf_steps_run)

lemma events_paired_witness:
  "\<exists>ev. st_output demo_state = [ev] \<and> event_from kernel_maps demo_config (replicate 8 0) demo_history ev"
  using demo_output events_paired [OF kern.bpf_kernel_axioms _ _ demo_steps]
  by (auto simp: table_ok_inflight_def)

lemma event_from_filters:
  "event_from ops cfg bm cs ev \<Longrightarrow>
    (filter_type cfg = FILTER_PID \<longrightarrow> se_pid ev = target_pid cfg) \<and>
    (syscall_filter_enabled cfg \<noteq> 0 \<longrightarrow> syscall_allowed ops bm (se_syscall_id ev))"
  by (auto simp: event_from_def wanted_def event_is_def split: option.splits)

text \<open>
  Claim C9. User space receives only what its configuration asks for: with a process filter only
  events of that process, with a system call whitelist only events whose number is on it.
\<close>

theorem events_respect_filters:
  assumes "bpf_kernel ops hinv" "hinv h" "\<forall>k. inflight_lookup ops h k = None"
    and "bpf_steps ops (bpf_init cfg bm h) cs s" "ev \<in> set (st_output s)"
  shows "(filter_type cfg = FILTER_PID \<longrightarrow> se_pid ev = target_pid cfg) \<and>
    (syscall_filter_enabled cfg \<noteq> 0 \<longrightarrow> syscall_allowed ops bm (se_syscall_id ev))"
proof -
  have "event_from ops cfg bm cs ev"
    using bpf_kernel.run_invariant [OF assms(1,2), of cs cfg bm] assms(3-5) by (simp add: bpf_steps_run)
  then show ?thesis by (rule event_from_filters)
qed

lemma events_respect_filters_witness: "\<exists>ev. st_output demo_state = [ev] \<and> se_pid ev = 7"
  using demo_output events_respect_filters [OF kern.bpf_kernel_axioms _ _ demo_steps]
  by (auto simp: table_ok_inflight_def demo_config_def)

lemma call_reported:
  assumes "card (call_key ` set (xs @ Enter env ctx # ys)) \<le> INFLIGHT_ENTRIES"
    and "wanted kernel_maps cfg bm env ctx" "\<forall>c \<in> set ys. call_key c \<noteq> tp_pid_tgid env"
    and "tp_pid_tgid env' = tp_pid_tgid env"
  shows "\<exists>ev. event_is cfg ev env ctx env' ctx' \<and>
    st_output (tp_run kernel_maps (xs @ Enter env ctx # ys @ [Exit env' ctx']) (bpf_init cfg bm [])) =
    st_output (tp_run kernel_maps (xs @ Enter env ctx # ys) (bpf_init cfg bm [])) @
      (if tp_cpu env' < 16 \<and> tp_ring env' then [ev] else [])"
proof -
  let ?cs = "xs @ Enter env ctx # ys"
  define s where "s = tp_run kernel_maps ?cs (bpf_init cfg bm [])"
  have l: "loaded cfg bm s" unfolding s_def by (rule loaded_run) simp
  have abs: "tracer_abs kernel_maps cfg s (tracer_run kernel_maps cfg bm ?cs)"
    unfolding s_def using kernel_run_invariant [of "call_key ` set ?cs" ?cs cfg bm] assms(1) by blast
  have "fst (tracer_run kernel_maps cfg bm ?cs) (tp_pid_tgid env) = Some (env, ctx)"
    using assms(2)
    by (cases "fold (tracer_step kernel_maps cfg bm) xs (Map.empty, [])")
      (simp add: tracer_run_def tracer_others [OF assms(3)])
  with abs have "rel_option (\<lambda>i (env, ctx). inflight_is cfg i env ctx)
      (inflight_lookup kernel_maps (st_inflight s) (tp_pid_tgid env')) (Some (env, ctx))"
    unfolding tracer_abs_def assms(4) by metis
  then obtain i where "inflight_lookup kernel_maps (st_inflight s) (tp_pid_tgid env') = Some i" "inflight_is cfg i env ctx"
    by (auto simp: option_rel_Some2)
  from trace_exit_pending [OF l this, of ctx'] obtain ev where ev: "event_is cfg ev env ctx env' ctx'"
      "st_output (trace_exit kernel_maps env' ctx' s) = st_output s @ (if tp_cpu env' < 16 \<and> tp_ring env' then [ev] else [])"
    by (auto simp: perf_event_output_def perf_accepts_def events_map_def)
  have "tp_run kernel_maps (xs @ Enter env ctx # ys @ [Exit env' ctx']) (bpf_init cfg bm []) =
      trace_exit kernel_maps env' ctx' s" by (simp add: s_def)
  with ev show ?thesis unfolding s_def by metis
qed



section \<open>A call that never returns\<close>

text \<open>
  \<open>exit_group\<close> has no exit, so its entry stays in the map. When the ids come into use again, by a
  thread that is not being traced at that moment, that thread's next exit is reported as the end of
  the old call: the event has the number and the arguments of the one and the result of the other,
  although the second call is not on the whitelist. \<open>trace_exit\<close> compares neither.
\<close>

definition stale_config :: trace_config where
  "stale_config = \<lparr>filter_type = FILTER_NONE, target_pid = 0, syscall_filter_enabled = 1, print_stack_enabled = 0,
     target_comm = replicate 16 NUL\<rparr>"

lemma stale_entry_reported:
  "\<exists>ev. st_output (tp_run kernel_maps
      [demo_enter 0x700000008 1000 94, demo_enter 0x700000008 9000 63, demo_exit 0x700000008 9600 63 6]
      (bpf_init stale_config [0, 0x40000000, 0, 0, 0, 0, 0, 0] [])) = [ev] \<and>
    se_syscall_id ev = 94 \<and> se_ret ev = 6 \<and> \<not> syscall_allowed kernel_maps [0, 0x40000000, 0, 0, 0, 0, 0, 0] 63"
proof -
  have no: "\<not> syscall_allowed kernel_maps [0, 0x40000000, 0, 0, 0, 0, 0, 0] 63"
    by (simp add: syscall_allowed_def array_lookup_def Let_def MAX_SYSCALLS_def) 
  have yes: "syscall_allowed kernel_maps [0, 0x40000000, 0, 0, 0, 0, 0, 0] 94"
    by (simp add: syscall_allowed_def array_lookup_def Let_def MAX_SYSCALLS_def)
  from no yes show ?thesis
    by (simp add: demo_enter_def demo_exit_def demo_env_def bpf_init_def
      trace_enter_def trace_exit_def fill_data_def fill_event_def perf_event_output_def perf_accepts_def events_map_def stale_config_def FILTER_PID_def FILTER_COMM_def FILTER_NONE_def table_update_def
      table_delete_def INFLIGHT_ENTRIES_def Let_def zero_inflight_def zero_event_def demo_pid)
qed

end
