(* ===== verification/Syscall_Filter.thy ===== *)
theory Syscall_Filter
  imports Bpf_Trace Sd_Decode
begin

text \<open>
  The \<open>-e\<close> option of \<open>src/mini_etrace.c\<close>: the whitelist bitmap shared with the BPF program
  (\<open>syscall_filter_add\<close>, \<open>set_all_syscall\<close>), the search of a number by name
  (\<open>syscall_number\<close>) and the parser of the comma-separated list (\<open>parse_syscall_filter\<close>).
  The list is specified by \<open>listed_names\<close>; the theorems say which bits a list sets, when it is
  refused, and that together with \<open>syscall_allowed\<close> of the BPF program it means what it says.
\<close>

section \<open>Writing the bitmap\<close>

text \<open>
  The map is updated through the operations of \<open>bpf_ops\<close>; \<open>errno\<close> is what a refused operation
  leaves there. The result is the C return value and the map afterwards.
\<close>

definition syscall_filter_add :: "('h, 'b) bpf_ops \<Rightarrow> int \<Rightarrow> 'b \<Rightarrow> int \<Rightarrow> int \<times> 'b" where
  "syscall_filter_add ops errno bm syscall_id =
     (if syscall_id < 0 \<or> syscall_id \<ge> int MAX_SYSCALLS then (- EINVAL, bm)
      else
        let key = (word_of_int syscall_id :: u32) div 64; b = (word_of_int syscall_id :: u32) mod 64
        in case bitmap_lookup ops bm key of
             None \<Rightarrow> (- errno, bm)
           | Some v \<Rightarrow>
               (case bitmap_update ops bm key (v OR push_bit (unat b) 1) of
                  None \<Rightarrow> (- errno, bm)
                | Some bm' \<Rightarrow> (0, bm')))"

primrec set_all_loop :: "('h, 'b) bpf_ops \<Rightarrow> int \<Rightarrow> 'b \<Rightarrow> nat list \<Rightarrow> int \<times> 'b" where
  "set_all_loop ops errno bm [] = (0, bm)"
| "set_all_loop ops errno bm (i # is) =
     (case bitmap_update ops bm (word_of_nat i) (- 1) of
        None \<Rightarrow> (- errno, bm)
      | Some bm' \<Rightarrow> set_all_loop ops errno bm' is)"

definition set_all_syscall :: "('h, 'b) bpf_ops \<Rightarrow> int \<Rightarrow> 'b \<Rightarrow> int \<times> 'b" where
  "set_all_syscall ops errno bm = set_all_loop ops errno bm [0..<SYSCALL_BITMAP_WORDS]"

section \<open>Numbers of names\<close>

fun syscall_number_loop :: "string \<Rightarrow> syscall_entry_t list \<Rightarrow> nat \<Rightarrow> int" where
  "syscall_number_loop nm [] i = - 1"
| "syscall_number_loop nm (e # es) i =
     (case ent_name e of
        None \<Rightarrow> syscall_number_loop nm es (i + 1)
      | Some n \<Rightarrow> if n = nm then int i else syscall_number_loop nm es (i + 1))"

definition syscall_number :: "string \<Rightarrow> syscall_entry_t list \<Rightarrow> int" where
  "syscall_number nm table = syscall_number_loop nm (take SYSCALL_TABLE_SIZE table) 0"

lemma syscall_number_loop_none:
  "syscall_number_loop nm es i = - 1 \<longleftrightarrow> nm \<notin> set (table_names es)"
  by (induction es arbitrary: i) (auto simp: table_names_def split: option.splits)

lemma syscall_number_loop_some:
  "nm \<in> set (table_names es) \<Longrightarrow>
    \<exists>j < length es. syscall_number_loop nm es i = int (i + j) \<and> ent_name (es ! j) = Some nm"
proof (induction es arbitrary: i)
  case (Cons e es)
  show ?case
  proof (cases "ent_name e = Some nm")
    case True
    then show ?thesis by (intro exI [of _ 0]) simp
  next
    case False
    with Cons.prems have "nm \<in> set (table_names es)" by (auto simp: table_names_def split: option.splits)
    from Cons.IH [OF this, of "i + 1"] obtain j where "j < length es"
        "syscall_number_loop nm es (i + 1) = int (i + 1 + j)" "ent_name (es ! j) = Some nm" by auto
    with False show ?thesis by (intro exI [of _ "Suc j"]) (auto split: option.split)
  qed
qed (simp add: table_names_def)

lemma syscall_number_ok:
  assumes "table_ok bits t"
  shows "syscall_number nm t = int i \<longleftrightarrow> i < SYSCALL_TABLE_SIZE \<and> ent_name (t ! i) = Some nm"
    and "syscall_number nm t = - 1 \<longleftrightarrow> nm \<notin> set (table_names t)"
    and "syscall_number nm t < 0 \<longleftrightarrow> nm \<notin> set (table_names t)"
proof -
  have t: "length t = SYSCALL_TABLE_SIZE" "distinct (table_names t)" "take SYSCALL_TABLE_SIZE t = t"
    using assms by (simp_all add: table_ok_def)
  show none: "syscall_number nm t = - 1 \<longleftrightarrow> nm \<notin> set (table_names t)"
    by (simp add: syscall_number_def t(3) syscall_number_loop_none)
  have some: "\<exists>j < length t. syscall_number nm t = int j \<and> ent_name (t ! j) = Some nm" if "nm \<in> set (table_names t)"
    using syscall_number_loop_some [OF that, of 0] by (simp add: syscall_number_def t(3))
  then show "syscall_number nm t < 0 \<longleftrightarrow> nm \<notin> set (table_names t)"
    using none by force
  show "syscall_number nm t = int i \<longleftrightarrow> i < SYSCALL_TABLE_SIZE \<and> ent_name (t ! i) = Some nm"
  proof
    assume n: "syscall_number nm t = int i"
    then have "nm \<in> set (table_names t)" using none by force
    with some n t(1) show "i < SYSCALL_TABLE_SIZE \<and> ent_name (t ! i) = Some nm" by auto
  next
    assume i: "i < SYSCALL_TABLE_SIZE \<and> ent_name (t ! i) = Some nm"
    then have "nm \<in> set (table_names t)" using t(1) by (auto simp: set_table_names intro!: bexI [of _ "t ! i"])
    with some obtain j where "j < length t" "syscall_number nm t = int j" "ent_name (t ! j) = Some nm" by blast
    with i t table_names_distinct_nth [of t i j nm] show "syscall_number nm t = int i" by simp
  qed
qed

section \<open>The list parser\<close>

definition COMMA :: char where "COMMA = CHR '',''"
definition is_blank :: "char \<Rightarrow> bool" where "is_blank c \<longleftrightarrow> c = CHR '' '' \<or> c = CHR 0x09"

text \<open>
  \<open>strtok_r\<close> with the delimiter \<open>,\<close> on the bytes of a C string: the next token and what the save
  pointer points to afterwards.
\<close>

definition strtok_comma :: "string \<Rightarrow> (string \<times> string) option" where
  "strtok_comma s =
     (case dropWhile (\<lambda>c. c = COMMA) s of
        [] \<Rightarrow> None
      | c # cs \<Rightarrow> Some (takeWhile (\<lambda>c. c \<noteq> COMMA) (c # cs), drop 1 (dropWhile (\<lambda>c. c \<noteq> COMMA) (c # cs))))"

lemma strtok_comma_shorter: "strtok_comma s = Some (tok, rest) \<Longrightarrow> length rest < length s"
proof -
  assume "strtok_comma s = Some (tok, rest)"
  then obtain c cs where d: "dropWhile (\<lambda>c. c = COMMA) s = c # cs" "rest = drop 1 (dropWhile (\<lambda>c. c \<noteq> COMMA) (c # cs))"
    by (auto simp: strtok_comma_def split: list.splits)
  have "length rest \<le> length (dropWhile (\<lambda>c. c \<noteq> COMMA) (c # cs)) - 1" using d(2) by simp
  also have "\<dots> \<le> length (c # cs) - 1" using length_dropWhile_le [of "\<lambda>c. c \<noteq> COMMA" "c # cs"] by (simp only: diff_le_mono)
  also have "\<dots> < length s" using length_dropWhile_le [of "\<lambda>c. c = COMMA" s] d(1) by simp
  finally show ?thesis .
qed

text \<open>The two trimming loops.\<close>

definition trim :: "string \<Rightarrow> string" where
  "trim tok = rev (dropWhile is_blank (rev (dropWhile is_blank tok)))"

definition pad_right :: "nat \<Rightarrow> string \<Rightarrow> string" where
  "pad_right w s = s @ replicate (w - length s) (CHR '' '')"

text \<open>
  The loop of \<open>parse_syscall_filter\<close>. Besides the return value and the map it yields the lines
  printed, those of \<open>stderr\<close> and \<open>stdout\<close> in one list.
\<close>

function filter_loop ::
  "platform \<Rightarrow> ('h, 'b) bpf_ops \<Rightarrow> int \<Rightarrow> syscall_entry_t list \<Rightarrow> 'b \<Rightarrow> string list \<Rightarrow> nat \<Rightarrow> string
     \<Rightarrow> int \<times> 'b \<times> string list" where
  "filter_loop P ops errno table bm log cnt s =
     (case strtok_comma s of
        None \<Rightarrow> (if cnt = 0 then - EINVAL else 0, bm, log)
      | Some (tok0, rest) \<Rightarrow>
          let tok = trim tok0
          in if tok = [] then filter_loop P ops errno table bm log cnt rest
             else
               let nr = syscall_number tok table
               in if nr < 0 then (- EINVAL, bm, log @ [''unknown syscall: '' @ tok])
                  else
                    (case syscall_filter_add ops errno bm nr of
                       (ret, bm') \<Rightarrow>
                         if ret < 0 then
                           (ret, bm', log @ [''failed to add syscall '' @ tok @ '' ('' @ fmt_d nr @ ''): '' @ sys_strerror P (nat (- ret))])
                         else filter_loop P ops errno table bm'
                                (log @ [''enable syscall: '' @ pad_right 16 tok @ '' nr='' @ fmt_d nr]) (cnt + 1) rest))"
  by pat_completeness auto
termination
  by (relation "measure (\<lambda>(P, ops, errno, table, bm, log, cnt, s). length s)") (auto dest: strtok_comma_shorter)

declare filter_loop.simps [simp del]

text \<open>\<open>ENOMEM\<close> is 12; \<open>tables\<close> are the two tables the flag \<open>enable_32\<close> selects from.\<close>

definition parse_syscall_filter ::
  "platform \<Rightarrow> ('h, 'b) bpf_ops \<Rightarrow> int \<Rightarrow> syscall_entry_t list \<times> syscall_entry_t list \<Rightarrow> bool \<Rightarrow> 'b \<Rightarrow> string option
     \<Rightarrow> int \<times> 'b \<times> string list" where
  "parse_syscall_filter P ops errno tables enable_32 bm optarg =
     (case optarg of
        None \<Rightarrow> (- EINVAL, bm, [])
      | Some s \<Rightarrow>
          if s = [] then (- EINVAL, bm, [])
          else if \<not> sys_malloc P (length s + 1) then (- 12, bm, [])
          else filter_loop P ops errno (if enable_32 then fst tables else snd tables) bm [] 0 s)"

section \<open>What a list means\<close>

text \<open>The comma-separated fields, trimmed, without the empty ones.\<close>

fun fields :: "string \<Rightarrow> string list" where
  "fields [] = [[]]"
| "fields (c # cs) = (if c = COMMA then [] # fields cs else (c # hd (fields cs)) # tl (fields cs))"

definition listed_names :: "string \<Rightarrow> string list" where
  "listed_names s = filter (\<lambda>t. t \<noteq> []) (map trim (fields s))"

lemma fields_nonempty [simp]: "fields s \<noteq> []"
  by (cases s) simp_all

lemma trim_Nil [simp]: "trim [] = []"
  by (simp add: trim_def)

lemma fields_takeWhile:
  "fields s = takeWhile (\<lambda>c. c \<noteq> COMMA) s # (case dropWhile (\<lambda>c. c \<noteq> COMMA) s of [] \<Rightarrow> [] | c # cs \<Rightarrow> fields cs)"
  by (induction s) (simp_all split: list.split)

lemma listed_names_commas: "listed_names (dropWhile (\<lambda>c. c = COMMA) s) = listed_names s"
  by (induction s) (simp_all add: listed_names_def)

lemma listed_names_strtok:
  "strtok_comma s = None \<Longrightarrow> listed_names s = []"
  "strtok_comma s = Some (tok, rest) \<Longrightarrow> listed_names s = (if trim tok = [] then [] else [trim tok]) @ listed_names rest"
proof -
  show "strtok_comma s = None \<Longrightarrow> listed_names s = []"
    using listed_names_commas [of s] by (auto simp: strtok_comma_def listed_names_def split: list.splits)
  assume "strtok_comma s = Some (tok, rest)"
  then obtain c cs where d: "dropWhile (\<lambda>c. c = COMMA) s = c # cs" "tok = takeWhile (\<lambda>c. c \<noteq> COMMA) (c # cs)"
      "rest = drop 1 (dropWhile (\<lambda>c. c \<noteq> COMMA) (c # cs))"
    by (auto simp: strtok_comma_def split: list.splits)
  have "listed_names s = listed_names (c # cs)" using listed_names_commas [of s] d(1) by simp
  also have "\<dots> = (if trim tok = [] then [] else [trim tok]) @ listed_names rest"
    using fields_takeWhile [of "c # cs"] d(2,3)
    by (cases "dropWhile (\<lambda>c. c \<noteq> COMMA) (c # cs)") (simp_all add: listed_names_def)
  finally show "listed_names s = (if trim tok = [] then [] else [trim tok]) @ listed_names rest" .
qed

section \<open>The bits a list sets\<close>

lemma bit_or_exp: "j < 64 \<Longrightarrow> bit (v OR 2 ^ m :: u64) j \<longleftrightarrow> bit v j \<or> j = m"
  by (auto simp: bit_simps)

locale whitelist = bpf_array "bitmap_lookup ops" "bitmap_update ops" binv SYSCALL_BITMAP_WORDS
  for ops :: "('h, 'b) bpf_ops" and binv :: "'b \<Rightarrow> bool"
begin

lemma filter_add:
  assumes "binv bm" "k < MAX_SYSCALLS"
  shows "\<exists>bm'. syscall_filter_add ops errno bm (int k) = (0, bm') \<and> binv bm' \<and>
    (\<forall>n < MAX_SYSCALLS. bitmap_has ops bm' n \<longleftrightarrow> n = k \<or> bitmap_has ops bm n)"
proof -
  have k: "k < 512" using assms(2) by (simp add: MAX_SYSCALLS_def)
  let ?key = "word_of_nat (k div 64) :: u32"
  have u: "unat (word_of_nat k :: u32) = k" using k by (simp add: unat_word_of_nat32)
  have w: "(word_of_int (int k) :: u32) div 64 = ?key" "unat ((word_of_int (int k) :: u32) mod 64) = k mod 64"
    using k u by (simp_all add: unat_mod word_unat_eq_iff unat_div unat_word_of_nat32)
  have words: "SYSCALL_BITMAP_WORDS = 8" by (simp add: header_consts)
  have fits: "\<not> SYSCALL_BITMAP_WORDS \<le> unat ?key" using k by (simp add: words unat_word_of_nat32)
  obtain v where v: "bitmap_lookup ops bm ?key = Some v"
    using lookup_present [OF assms(1), of ?key] fits by auto
  obtain bm' where bm': "bitmap_update ops bm ?key (v OR push_bit (k mod 64) 1) = Some bm'"
    using update_refused [OF assms(1), of ?key] fits by blast
  have "bitmap_has ops bm' n \<longleftrightarrow> n = k \<or> bitmap_has ops bm n" if "n < 512" for n
  proof (cases "n div 64 = k div 64")
    case True
    then have "n = k \<longleftrightarrow> n mod 64 = k mod 64" by (metis div_mult_mod_eq)
    with True v show ?thesis
      by (auto simp: bitmap_has_def lookup_update [OF assms(1) bm'] bit_or_exp)
  next
    case False
    then have "(word_of_nat (n div 64) :: u32) \<noteq> ?key" using that k by (simp add: word_of_nat32_eq)
    with False show ?thesis by (auto simp: bitmap_has_def lookup_update [OF assms(1) bm'])
  qed
  then show ?thesis
    using update_inv [OF assms(1) bm'] k
    by (simp add: syscall_filter_add_def MAX_SYSCALLS_def EINVAL_def Let_def w v bm' [simplified] del: of_int_of_nat_eq)
qed

lemma set_all_words:
  "binv bm \<Longrightarrow> (\<forall>i \<in> set is. i < SYSCALL_BITMAP_WORDS) \<Longrightarrow>
    \<exists>bm'. set_all_loop ops errno bm is = (0, bm') \<and> binv bm' \<and>
      (\<forall>n < MAX_SYSCALLS. bitmap_has ops bm' n \<longleftrightarrow> n div 64 \<in> set is \<or> bitmap_has ops bm n)"
proof (induction "is" arbitrary: bm)
  case (Cons i "is")
  have words: "SYSCALL_BITMAP_WORDS = 8" by (simp add: header_consts)
  have i: "i < 8" using Cons.prems(2) by (simp add: words)
  then obtain bm1 where bm1: "bitmap_update ops bm (word_of_nat i) (- 1) = Some bm1"
    using update_refused [OF Cons.prems(1), of "word_of_nat i"] by (auto simp: words unat_word_of_nat32)
  have "bitmap_has ops bm1 n \<longleftrightarrow> n div 64 = i \<or> bitmap_has ops bm n" if "n < 512" for n
    using that i by (auto simp: bitmap_has_def lookup_update [OF Cons.prems(1) bm1] word_of_nat32_eq)
  moreover obtain bm' where "set_all_loop ops errno bm1 is = (0, bm')" "binv bm'"
      "\<forall>n < MAX_SYSCALLS. bitmap_has ops bm' n \<longleftrightarrow> n div 64 \<in> set is \<or> bitmap_has ops bm1 n"
    using Cons.IH [OF update_inv [OF Cons.prems(1) bm1]] Cons.prems(2) by auto
  ultimately show ?case using bm1 by (auto simp: MAX_SYSCALLS_def)
qed simp

end

interpretation wl: whitelist kernel_maps "\<lambda>m. length m = SYSCALL_BITMAP_WORDS"
  by unfold_locales
    (simp_all add: bitmap.lookup_present bitmap.update_refused bitmap.update_inv bitmap.lookup_update)

context whitelist
begin

lemma filter_loop_spec:
  assumes "table_ok bits table"
  shows "binv bm \<Longrightarrow>
    \<exists>bm' log'. filter_loop P ops errno table bm log cnt s =
        (if set (listed_names s) \<subseteq> set (table_names table) \<and> (cnt \<noteq> 0 \<or> listed_names s \<noteq> []) then 0 else - EINVAL, bm', log') \<and>
      binv bm' \<and>
      (\<forall>n < MAX_SYSCALLS. bitmap_has ops bm' n \<longleftrightarrow> bitmap_has ops bm n \<or>
         (\<exists>nm \<in> set (takeWhile (\<lambda>nm. nm \<in> set (table_names table)) (listed_names s)). syscall_number nm table = int n))"
proof (induction "length s" arbitrary: s bm log cnt rule: less_induct)
  case less
  show ?case
  proof (cases "strtok_comma s")
    case None
    with less.prems show ?thesis
      by (subst filter_loop.simps) (auto simp: listed_names_strtok)
  next
    case (Some tr)
    obtain tok0 rest where tr: "strtok_comma s = Some (tok0, rest)" using Some by (cases tr) simp
    note names = listed_names_strtok(2) [OF tr] and IH = less.hyps [OF strtok_comma_shorter [OF tr]]
    show ?thesis
    proof (cases "trim tok0 = []")
      case True
      with IH [OF less.prems, of log cnt] names tr show ?thesis by (subst filter_loop.simps) simp
    next
      case False
      show ?thesis
      proof (cases "trim tok0 \<in> set (table_names table)")
        case unknown: False
        with False names tr less.prems show ?thesis
          by (subst filter_loop.simps) (simp add: Let_def syscall_number_ok(3) [OF assms])
      next
        case known: True
        then obtain k where k: "syscall_number (trim tok0) table = int k"
          using syscall_number_ok(3) [OF assms, of "trim tok0"] by (metis linorder_not_less zero_le_imp_eq_int)
        then have lt: "k < SYSCALL_TABLE_SIZE" using syscall_number_ok(1) [OF assms] by blast
        then have "k < MAX_SYSCALLS" by (simp add: SYSCALL_TABLE_SIZE_def MAX_SYSCALLS_def)
        from filter_add [OF less.prems this, of errno] obtain bm1 where
          add: "syscall_filter_add ops errno bm (int k) = (0, bm1)" and inv: "binv bm1" and
          bits: "\<forall>n < MAX_SYSCALLS. bitmap_has ops bm1 n \<longleftrightarrow> n = k \<or> bitmap_has ops bm n" by blast
        have step: "filter_loop P ops errno table bm log cnt s = filter_loop P ops errno table bm1
            (log @ [''enable syscall: '' @ pad_right 16 (trim tok0) @ '' nr='' @ fmt_d (int k)]) (cnt + 1) rest"
          using False tr k add by (subst filter_loop.simps) (simp add: Let_def)
        from IH [OF inv, of "log @ [''enable syscall: '' @ pad_right 16 (trim tok0) @ '' nr='' @ fmt_d (int k)]" "cnt + 1"]
        obtain bm' log' where r: "filter_loop P ops errno table bm1
              (log @ [''enable syscall: '' @ pad_right 16 (trim tok0) @ '' nr='' @ fmt_d (int k)]) (cnt + 1) rest =
            (if set (listed_names rest) \<subseteq> set (table_names table) then 0 else - EINVAL, bm', log')"
          and inv': "binv bm'" and bits': "\<forall>n < MAX_SYSCALLS. bitmap_has ops bm' n \<longleftrightarrow> bitmap_has ops bm1 n \<or>
            (\<exists>nm \<in> set (takeWhile (\<lambda>nm. nm \<in> set (table_names table)) (listed_names rest)). syscall_number nm table = int n)"
          by auto
        have "filter_loop P ops errno table bm log cnt s =
            (if set (listed_names s) \<subseteq> set (table_names table) \<and> (cnt \<noteq> 0 \<or> listed_names s \<noteq> []) then 0 else - EINVAL, bm', log')"
          using False known unfolding step r names by simp
        moreover have "bitmap_has ops bm' n \<longleftrightarrow> bitmap_has ops bm n \<or>
            (\<exists>nm \<in> set (takeWhile (\<lambda>nm. nm \<in> set (table_names table)) (listed_names s)). syscall_number nm table = int n)"
          if "n < MAX_SYSCALLS" for n
          using that bits bits' False known k by (auto simp: names)
        ultimately show ?thesis using inv' by blast
      qed
    qed
  qed
qed

end

text \<open>
  Claim C15. A list given to \<open>-e\<close> is accepted exactly when it names at least one system call and
  only known ones; blanks and empty fields do not matter. After an accepted list the whitelist
  has exactly the bits it had and those of the listed calls; after a refused one no other bits
  than those of the names before the first unknown one.
\<close>

theorem parse_syscall_filter_spec:
  assumes "whitelist ops binv" "binv bm" "table_ok bits t"
    and "t = (if enable_32 then fst tables else snd tables)" "s \<noteq> []" "sys_malloc P (length s + 1)"
    and "parse_syscall_filter P ops errno tables enable_32 bm (Some s) = (ret, bm', log)"
  shows "ret = (if listed_names s \<noteq> [] \<and> set (listed_names s) \<subseteq> set (table_names t) then 0 else - EINVAL) \<and>
    binv bm' \<and>
    (\<forall>n < MAX_SYSCALLS. bitmap_has ops bm' n = (bitmap_has ops bm n \<or>
       (\<exists>nm \<in> set (takeWhile (\<lambda>nm. nm \<in> set (table_names t)) (listed_names s)). syscall_number nm t = int n)))"
  using whitelist.filter_loop_spec [OF assms(1,3,2), of P errno "[]" 0 s] assms(4-7)
  by (auto simp: parse_syscall_filter_def)

lemma no_bits [simp]: "\<not> bitmap_has kernel_maps (replicate 8 0) n"
  by (simp add: bitmap_has_def array_lookup_def split: option.split)

lemma demo_names: "table_names demo_table = [''read'']"
proof -
  have "table_names (replicate n (unassigned 64)) = []" for n
    by (induction n) (simp_all add: table_names_def)
  then show ?thesis by (simp add: demo_table_def)
qed

lemma demo_number: "syscall_number ''read'' demo_table = int n \<longleftrightarrow> n = 63"
proof -
  have "ent_name (demo_table ! i) = (if i = 63 then Some ''read'' else None)" if "i < 473" for i
    using that by (auto simp: demo_table_def nth_append nth_Cons')
  then show ?thesis
    unfolding syscall_number_ok(1) [OF demo_table_ok] SYSCALL_TABLE_SIZE_def by (auto split: if_splits)
qed

lemma parse_syscall_filter_spec_witness:
  "\<exists>bm' log. parse_syscall_filter demo_platform kernel_maps 0 ([], demo_table) False (replicate 8 0) (Some '' read,, '') = (0, bm', log) \<and>
     (\<forall>n < MAX_SYSCALLS. bitmap_has kernel_maps bm' n = (n = 63))"
proof -
  obtain ret bm' log where r: "parse_syscall_filter demo_platform kernel_maps 0 ([], demo_table) False (replicate 8 0) (Some '' read,, '') = (ret, bm', log)"
    by (metis prod_cases3)
  have l: "listed_names '' read,, '' = [''read'']"
    by (simp add: listed_names_def COMMA_def trim_def is_blank_def)
  show ?thesis
    using parse_syscall_filter_spec [OF wl.whitelist_axioms _ demo_table_ok _ _ _ r] r
    by (simp add: l demo_names demo_number header_consts)
qed

section \<open>From the command line to the BPF program\<close>

definition comma_list :: "string list \<Rightarrow> string" where
  "comma_list ns = concat (map (\<lambda>n. n @ [COMMA]) (butlast ns)) @ (if ns = [] then [] else last ns)"

lemma comma_list_simps [simp]:
  "comma_list [n] = n" "comma_list (n # m # ns) = n @ COMMA # comma_list (m # ns)"
  by (simp_all add: comma_list_def)

lemma fields_no_comma: "COMMA \<notin> set n \<Longrightarrow> fields n = [n]"
  by (induction n) auto

lemma fields_append: "COMMA \<notin> set n \<Longrightarrow> fields (n @ COMMA # s) = n # fields s"
  by (induction n) auto

lemma fields_comma_list: "ns \<noteq> [] \<Longrightarrow> \<forall>n \<in> set ns. COMMA \<notin> set n \<Longrightarrow> fields (comma_list ns) = ns"
proof (induction ns)
  case (Cons n ns)
  then show ?case by (cases ns) (simp_all add: fields_no_comma fields_append)
qed simp

lemma trim_id: "\<forall>c \<in> set n. \<not> is_blank c \<Longrightarrow> trim n = n"
proof -
  have dw: "dropWhile is_blank xs = xs" if "\<forall>c \<in> set xs. \<not> is_blank c" for xs
    using that by (cases xs) simp_all
  show "\<forall>c \<in> set n. \<not> is_blank c \<Longrightarrow> ?thesis" by (simp add: trim_def dw)
qed

lemma table_name_facts:
  assumes "table_ok bits t" "n \<in> set (table_names t)"
  shows "n \<noteq> []" "COMMA \<notin> set n" "\<forall>c \<in> set n. \<not> is_blank c"
proof -
  obtain e where "e \<in> set t" "ent_name e = Some n" using assms(2) by (auto simp: set_table_names)
  moreover from this(1) have "entry_ok bits e" using assms(1) by (simp add: table_ok_def list_all_iff)
  ultimately have "n \<noteq> [] \<and> list_all (\<lambda>c. c \<noteq> CHR '','' \<and> c \<noteq> CHR '' '' \<and> c \<noteq> CHR 0x09) n"
    by (simp add: entry_ok_def)
  then show "n \<noteq> []" "COMMA \<notin> set n" "\<forall>c \<in> set n. \<not> is_blank c"
    by (auto simp: list_all_iff COMMA_def is_blank_def)
qed

lemma listed_comma_list:
  assumes "table_ok bits t" "ns \<noteq> []" "set ns \<subseteq> set (table_names t)"
  shows "listed_names (comma_list ns) = ns" "comma_list ns \<noteq> []"
proof -
  have f: "n \<noteq> []" "COMMA \<notin> set n" "trim n = n" if "n \<in> set ns" for n
    using table_name_facts [OF assms(1), of n] that assms(3) trim_id by auto
  then have fc: "fields (comma_list ns) = ns" using fields_comma_list [OF assms(2)] by blast
  have "map trim ns = ns" "filter (\<lambda>t. t \<noteq> []) ns = ns" using f(1,3) by (simp_all add: map_idI filter_id_conv)
  then show "listed_names (comma_list ns) = ns" by (simp add: listed_names_def fc)
  then show "comma_list ns \<noteq> []" using assms(2) by (auto simp: listed_names_def)
qed

text \<open>
  Claim C14. The option means what it says, from the command line to the decoder: after \<open>-e\<close> with
  any list of names of the table on an empty whitelist, the parser returns 0 and the BPF program
  lets exactly those calls pass that the decoder will print under one of the listed names.
\<close>

theorem filter_means_names:
  assumes "whitelist ops binv" "binv bm" "\<forall>n < MAX_SYSCALLS. \<not> bitmap_has ops bm n"
    and "table_ok bits t" "t = (if enable_32 then fst tables else snd tables)"
    and "ns \<noteq> []" "set ns \<subseteq> set (table_names t)" "sys_malloc P (length (comma_list ns) + 1)"
    and "parse_syscall_filter P ops errno tables enable_32 bm (Some (comma_list ns)) = (ret, bm', log)"
  shows "ret = 0 \<and> syscall_allowed ops bm' nr =
    (\<exists>e nm. syscall_table_lookup nr (Some t) = Some e \<and> ent_name e = Some nm \<and> nm \<in> set ns)"
proof -
  note names = listed_comma_list [OF assms(4,6,7)]
  have tw: "takeWhile (\<lambda>nm. nm \<in> set (table_names t)) ns = ns"
    using assms(7) by (simp add: takeWhile_eq_all_conv subset_iff)
  have spec: "ret = 0" "\<forall>n < MAX_SYSCALLS. bitmap_has ops bm' n = (\<exists>nm \<in> set ns. syscall_number nm t = int n)"
    using whitelist.filter_loop_spec [OF assms(1,4,2), of P errno "[]" 0 "comma_list ns"] assms(3,6-9) names
    by (auto simp: parse_syscall_filter_def assms(5) [symmetric] tw)
  have size: "SYSCALL_TABLE_SIZE \<le> MAX_SYSCALLS" by (simp add: SYSCALL_TABLE_SIZE_def MAX_SYSCALLS_def)
  have lookup: "(\<exists>e nm. syscall_table_lookup nr (Some t) = Some e \<and> ent_name e = Some nm \<and> nm \<in> set ns) \<longleftrightarrow>
      0 \<le> sint nr \<and> unat nr < SYSCALL_TABLE_SIZE \<and> (\<exists>nm \<in> set ns. ent_name (t ! unat nr) = Some nm)"
    by (auto simp: syscall_table_lookup_def split: option.split)
  show ?thesis
    using spec size unfolding lookup syscall_allowed_iff syscall_number_ok(1) [OF assms(4)] by auto
qed

lemma filter_means_names_witness:
  "\<exists>bm' log. parse_syscall_filter demo_platform kernel_maps 0 ([], demo_table) False (replicate 8 0) (Some ''read'') = (0, bm', log) \<and>
     syscall_allowed kernel_maps bm' 63 \<and> \<not> syscall_allowed kernel_maps bm' 64"
proof -
  obtain ret bm' log where r: "parse_syscall_filter demo_platform kernel_maps 0 ([], demo_table) False (replicate 8 0) (Some ''read'') = (ret, bm', log)"
    by (metis prod_cases3)
  have l: "syscall_table_lookup 64 (Some demo_table) = None"
    by (simp add: syscall_table_lookup_def demo_table_def nth_append)
  show ?thesis
    using filter_means_names [OF wl.whitelist_axioms _ _ demo_table_ok, of "replicate 8 0" False "([], demo_table)" "[''read'']"
        demo_platform 0 ret bm' log 63]
      filter_means_names [OF wl.whitelist_axioms _ _ demo_table_ok, of "replicate 8 0" False "([], demo_table)" "[''read'']"
        demo_platform 0 ret bm' log 64] r l
    by (simp add: demo_names demo_table_lookup header_consts)
qed

end
