(* ===== verification/Etrace_Cli.thy ===== *)
theory Etrace_Cli
  imports Syscall_Filter
begin

text \<open>
  The command line of \<open>src/mini_etrace.c\<close>: \<open>usage\<close> and the option loop at the start of
  \<open>main\<close>, on the sequence of options \<open>getopt\<close> returns (\<open>Etrace_Argv\<close> has the words they come from). An option that ends the program is the
  left value of a sum, with its exit status. The theorems say which process ids are accepted,
  which command name the BPF program is given, and what a successful command line guarantees of
  the configuration.
\<close>

section \<open>strtol\<close>

definition is_space :: "char \<Rightarrow> bool" where
  "is_space c \<longleftrightarrow> c = CHR '' '' \<or> (9 \<le> (of_char c :: nat) \<and> (of_char c :: nat) \<le> 13)"

definition is_digit :: "char \<Rightarrow> bool" where
  "is_digit c \<longleftrightarrow> 48 \<le> (of_char c :: nat) \<and> (of_char c :: nat) \<le> 57"

definition LONG_MAX :: int where "LONG_MAX = 2 ^ 63 - 1"
definition LONG_MIN :: int where "LONG_MIN = - (2 ^ 63)"

text \<open>\<open>strtol(s, &end, 10)\<close>: the value, whether \<open>errno\<close> was set, and what \<open>end\<close> points to.\<close>

definition strtol10 :: "string \<Rightarrow> int \<times> bool \<times> string" where
  "strtol10 s =
     (let s1 = dropWhile is_space s;
          neg = (s1 \<noteq> [] \<and> hd s1 = CHR ''-'');
          s2 = (if s1 \<noteq> [] \<and> (hd s1 = CHR ''-'' \<or> hd s1 = CHR ''+'') then tl s1 else s1);
          ds = takeWhile is_digit s2;
          v = (if neg then - int (undigits 10 ds) else int (undigits 10 ds))
      in if ds = [] then (0, False, s)
         else if v > LONG_MAX then (LONG_MAX, True, dropWhile is_digit s2)
         else if v < LONG_MIN then (LONG_MIN, True, dropWhile is_digit s2)
         else (v, False, dropWhile is_digit s2))"

section \<open>The option loop\<close>

record cli =
  cli_config :: trace_config
  cli_enable_32 :: bool
  cli_have_pid :: bool
  cli_have_comm :: bool
  cli_filter :: "string option"

definition cli_init :: cli where
  "cli_init = \<lparr>cli_config = \<lparr>filter_type = 0, target_pid = 0, syscall_filter_enabled = 0, print_stack_enabled = 0,
       target_comm = replicate COMM_LEN NUL\<rparr>,
     cli_enable_32 = False, cli_have_pid = False, cli_have_comm = False, cli_filter = None\<rparr>"

definition NEWLINE :: string where "NEWLINE = [CHR 0x0A]"

definition lines_text :: "string list \<Rightarrow> string" where
  "lines_text ls = concat (map (\<lambda>l. l @ NEWLINE) ls)"

definition usage :: "string \<Rightarrow> string" where
  "usage prog = lines_text [
     ''Usage:'',
     ''  '' @ prog @ '' -p <pid>'',
     ''  '' @ prog @ '' -c <comm>'',
     '''',
     ''Options:'',
     ''  -p <pid>   trace process by PID/TGID'',
     ''  -c <comm>  trace process by task comm'',
     ''  -e <syscall0>,<syscall1>  trace only specified syscalls'',
     ''  -t 32  trace the arm32 (default: arm64)'',
     ''  -s         print stack addresses'',
     ''  -h         show this help'',
     '''',
     ''Examples:'',
     ''  '' @ prog @ '' -p 1234 -t 32'',
     ''  '' @ prog @ '' -c nginx -e read,write'']"

text \<open>\<open>strncpy\<close> and \<open>strcpy\<close> into an array that was cleared before: the rest stays NUL.\<close>

definition fill_comm :: "string \<Rightarrow> string" where
  "fill_comm s = s @ replicate (COMM_LEN - length s) NUL"

definition comm_of_arg :: "string \<Rightarrow> string" where
  "comm_of_arg s =
     (if length s \<ge> COMM_LEN then
        if take 4 s = ''com.'' then fill_comm (take (COMM_LEN - 1) (drop (length s - (COMM_LEN - 1)) s))
        else fill_comm (take (COMM_LEN - 1) s)
      else fill_comm s)"

definition comm_warning :: "string \<Rightarrow> string list" where
  "comm_warning s =
     (if length s \<ge> COMM_LEN then
        [''warning: comm '' @ DQUOTE # s @ DQUOTE # '' is longer than '' @ fmt_d (int COMM_LEN - 1) @ '' characters; truncated'' @ NEWLINE]
      else [])"

text \<open>
  One option with its argument. The argument is present for the options that take one. The second
  component is the list of texts written to \<open>stderr\<close>.
\<close>

definition cli_option :: "string \<Rightarrow> char \<times> string \<Rightarrow> cli \<Rightarrow> (int + cli) \<times> string list" where
  "cli_option prog oa st =
     (case oa of (c, optarg) \<Rightarrow>
       if c = CHR ''p'' then
         (case strtol10 optarg of (pid, err, end_ptr) \<Rightarrow>
            if err \<or> end_ptr = optarg \<or> end_ptr \<noteq> [] \<or> pid \<le> 0 \<or> pid > 0x7fffffff then
              (Inl 1, [''invalid pid: '' @ optarg @ NEWLINE])
            else (Inr (st\<lparr>cli_config := (cli_config st)\<lparr>filter_type := FILTER_PID, target_pid := word_of_int pid\<rparr>,
                    cli_have_pid := True\<rparr>), []))
       else if c = CHR ''c'' then
         (Inr (st\<lparr>cli_config := (cli_config st)\<lparr>filter_type := FILTER_COMM, target_comm := comm_of_arg optarg\<rparr>,
            cli_have_comm := True\<rparr>), comm_warning optarg)
       else if c = CHR ''e'' then
         (Inr (st\<lparr>cli_config := (cli_config st)\<lparr>syscall_filter_enabled := FILTER_SYS\<rparr>, cli_filter := Some optarg\<rparr>), [])
       else if c = CHR ''t'' then
         (Inr (if take 2 optarg = ''32'' then st\<lparr>cli_enable_32 := True\<rparr> else st), [])
       else if c = CHR ''s'' then
         (Inr (st\<lparr>cli_config := (cli_config st)\<lparr>print_stack_enabled := ENABLE_STACK\<rparr>\<rparr>), [])
       else if c = CHR ''h'' then (Inl 0, [usage prog])
       else (Inl 1, [usage prog]))"

fun cli_loop :: "string \<Rightarrow> (char \<times> string) list \<Rightarrow> cli \<Rightarrow> (int + cli) \<times> string list" where
  "cli_loop prog [] st = (Inr st, [])"
| "cli_loop prog (oa # oas) st =
     (case cli_option prog oa st of
        (Inl rc, log) \<Rightarrow> (Inl rc, log)
      | (Inr st', log) \<Rightarrow> apsnd (append log) (cli_loop prog oas st'))"

text \<open>\<open>rest\<close> are the operands left when \<open>getopt\<close> has returned -1.\<close>

definition parse_command_line ::
  "string \<Rightarrow> (char \<times> string) list \<Rightarrow> string list \<Rightarrow> (int + cli) \<times> string list" where
  "parse_command_line prog oas rest =
     (case cli_loop prog oas cli_init of
        (Inl rc, log) \<Rightarrow> (Inl rc, log)
      | (Inr st, log) \<Rightarrow>
          if cli_have_pid st = cli_have_comm st then
            (Inl 1, log @ [''exactly one of -p or -c must be specified'' @ NEWLINE @ NEWLINE, usage prog])
          else if rest \<noteq> [] then (Inl 1, log @ [''unexpected argument: '' @ hd rest @ NEWLINE @ NEWLINE, usage prog])
          else (Inr st, log))"

section \<open>Process ids\<close>

lemma not_space_digit: "is_digit c \<Longrightarrow> \<not> is_space c"
  by (auto simp: is_digit_def is_space_def)

lemma sign_chars: "\<not> is_digit (CHR ''-'')" "\<not> is_digit (CHR ''+'')" "\<not> is_space (CHR ''-'')" "\<not> is_space (CHR ''+'')"
  by (simp_all add: is_digit_def is_space_def)

text \<open>The decimal numerals \<open>strtol\<close> reads whole and without a minus sign.\<close>

definition plain_numeral :: "string \<Rightarrow> nat \<Rightarrow> bool" where
  "plain_numeral s n \<longleftrightarrow>
     (\<exists>ws sg ds. s = ws @ sg @ ds \<and> list_all is_space ws \<and> sg \<in> {[], ''+''} \<and> ds \<noteq> [] \<and>
        list_all is_digit ds \<and> undigits 10 ds = n)"

lemma dropWhile_append_all: "list_all p xs \<Longrightarrow> dropWhile p (xs @ ys) = dropWhile p ys"
  by (induction xs) simp_all

lemma takeWhile_digits: "list_all is_digit ds \<Longrightarrow> takeWhile is_digit ds = ds \<and> dropWhile is_digit ds = []"
  by (induction ds) simp_all

lemma strtol10_plain:
  assumes "plain_numeral s n" "n \<le> 0x7fffffff"
  shows "strtol10 s = (int n, False, [])"
proof -
  obtain ws sg ds where s: "s = ws @ sg @ ds" "list_all is_space ws" "sg \<in> {[], ''+''}" "ds \<noteq> []"
      "list_all is_digit ds" "undigits 10 ds = n"
    using assms(1) by (auto simp: plain_numeral_def)
  obtain c cs where c: "ds = c # cs" "is_digit c" using s(4,5) by (cases ds) auto
  have sp: "dropWhile is_space s = sg @ ds"
    using s(1,2,3) c not_space_digit [OF c(2)] by (auto simp: dropWhile_append_all sign_chars)
  have tw: "takeWhile is_digit cs = cs" "dropWhile is_digit cs = []"
    using takeWhile_digits [of cs] s(5) c(1) by simp_all
  have "c \<noteq> CHR ''-''" "c \<noteq> CHR ''+''" using c(2) sign_chars by auto
  with sp show ?thesis
    using s(3,5,6) c assms(2)
    by (auto simp: strtol10_def Let_def LONG_MAX_def LONG_MIN_def sign_chars tw list_all_iff)
qed

lemma strtol10_positive:
  assumes "strtol10 s = (v, False, [])" "s \<noteq> []" "0 < v"
  shows "plain_numeral s (nat v)"
proof -
  define s1 where "s1 = dropWhile is_space s"
  define s2 where "s2 = (if s1 \<noteq> [] \<and> (hd s1 = CHR ''-'' \<or> hd s1 = CHR ''+'') then tl s1 else s1)"
  define ds where "ds = takeWhile is_digit s2"
  have ds: "ds \<noteq> []" and rest: "dropWhile is_digit s2 = []"
    and v: "v = (if s1 \<noteq> [] \<and> hd s1 = CHR ''-'' then - int (undigits 10 ds) else int (undigits 10 ds))"
    using assms by (auto simp: strtol10_def Let_def s1_def [symmetric] s2_def [symmetric] ds_def [symmetric] split: if_splits)
  have "takeWhile is_digit s2 @ dropWhile is_digit s2 = s2" by (rule takeWhile_dropWhile_id)
  then have s2: "s2 = ds" by (simp only: rest ds_def append_Nil2)
  have neg: "\<not> (s1 \<noteq> [] \<and> hd s1 = CHR ''-'')" using v assms(3) by (auto split: if_splits)
  then have "s1 = (if s1 \<noteq> [] \<and> hd s1 = CHR ''+'' then ''+'' else []) @ ds"
    using s2 by (cases s1) (auto simp: s2_def split: if_splits)
  moreover have "s = takeWhile is_space s @ s1" by (simp add: s1_def)
  moreover have "list_all is_space (takeWhile is_space s)" "list_all is_digit ds"
    by (auto simp: list_all_iff ds_def dest: set_takeWhileD)
  ultimately show ?thesis
    using ds v neg unfolding plain_numeral_def
    by (intro exI [of _ "takeWhile is_space s"] exI [of _ "if s1 \<noteq> [] \<and> hd s1 = CHR ''+'' then ''+'' else []"] exI [of _ ds])
      (auto split: if_splits)
qed

lemma pid_option_iff:
  "(fst (cli_option prog (CHR ''p'', s) st) = Inr st') =
     (\<exists>n. plain_numeral s n \<and> 0 < n \<and> n \<le> 0x7fffffff \<and>
        st' = st\<lparr>cli_config := (cli_config st)\<lparr>filter_type := FILTER_PID, target_pid := word_of_nat n\<rparr>,
                cli_have_pid := True\<rparr>)"
proof
  assume acc: "fst (cli_option prog (CHR ''p'', s) st) = Inr st'"
  obtain v err e where r: "strtol10 s = (v, err, e)" by (cases "strtol10 s") auto
  with acc have v: "\<not> err" "e = []" "s \<noteq> []" "0 < v" "v \<le> 0x7fffffff"
      "st' = st\<lparr>cli_config := (cli_config st)\<lparr>filter_type := FILTER_PID, target_pid := word_of_int v\<rparr>, cli_have_pid := True\<rparr>"
    by (auto simp: cli_option_def split: if_splits)
  have "plain_numeral s (nat v)" using strtol10_positive [of s v] r v by simp
  moreover have "(word_of_int v :: u32) = word_of_nat (nat v)" using v(4) by (simp add: of_nat_nat)
  ultimately show "\<exists>n. plain_numeral s n \<and> 0 < n \<and> n \<le> 0x7fffffff \<and>
      st' = st\<lparr>cli_config := (cli_config st)\<lparr>filter_type := FILTER_PID, target_pid := word_of_nat n\<rparr>, cli_have_pid := True\<rparr>"
    using v by (intro exI [of _ "nat v"]) simp
next
  assume "\<exists>n. plain_numeral s n \<and> 0 < n \<and> n \<le> 0x7fffffff \<and>
      st' = st\<lparr>cli_config := (cli_config st)\<lparr>filter_type := FILTER_PID, target_pid := word_of_nat n\<rparr>, cli_have_pid := True\<rparr>"
  then obtain n where n: "plain_numeral s n" "0 < n" "n \<le> 0x7fffffff"
      "st' = st\<lparr>cli_config := (cli_config st)\<lparr>filter_type := FILTER_PID, target_pid := word_of_nat n\<rparr>, cli_have_pid := True\<rparr>"
    by blast
  moreover have "s \<noteq> []" using n(1) by (auto simp: plain_numeral_def)
  ultimately show "fst (cli_option prog (CHR ''p'', s) st) = Inr st'"
    using strtol10_plain [OF n(1,3)] by (simp add: cli_option_def)
qed

text \<open>
  Claim C22. \<open>-p\<close> accepts exactly the decimal numerals of the process ids 1 to \<open>2^31 - 1\<close>
  (leading blanks and a plus sign allowed), and the process filter is then that very number.
\<close>

theorem pid_option:
  "(fst (cli_option prog (CHR ''p'', s) st) = Inr st') =
     (\<exists>n. plain_numeral s n \<and> 0 < n \<and> n \<le> 0x7fffffff \<and>
        st' = st\<lparr>cli_config := (cli_config st)\<lparr>filter_type := FILTER_PID, target_pid := word_of_nat n\<rparr>,
                cli_have_pid := True\<rparr>)"
  by (rule pid_option_iff)

section \<open>Command names\<close>

text \<open>The name a task must have: the argument, or 15 characters of one that is too long.\<close>

definition comm_name :: "string \<Rightarrow> string" where
  "comm_name s =
     (if length s < COMM_LEN then s
      else if take 4 s = ''com.'' then drop (length s - (COMM_LEN - 1)) s else take (COMM_LEN - 1) s)"

lemma length_comm_name: "length (comm_name s) < COMM_LEN"
  by (auto simp: comm_name_def COMM_LEN_def)

lemma set_comm_name: "set (comm_name s) \<subseteq> set s"
  by (auto simp: comm_name_def dest: in_set_takeD in_set_dropD)

lemma comm_of_arg_eq: "comm_of_arg s = fill_comm (comm_name s)"
  by (simp add: comm_of_arg_def comm_name_def)

lemma length_comm_of_arg: "length (comm_of_arg s) = COMM_LEN"
  using length_comm_name [of s] by (simp add: comm_of_arg_eq fill_comm_def)

lemma cstr_comm_of_arg: "NUL \<notin> set s \<Longrightarrow> cstr (comm_of_arg s) = comm_name s"
proof -
  assume "NUL \<notin> set s"
  then have "NUL \<notin> set (comm_name s)" using set_comm_name by blast
  moreover obtain k where "COMM_LEN - length (comm_name s) = Suc k"
    using length_comm_name [of s] by (metis Suc_diff_Suc)
  ultimately show ?thesis by (simp add: comm_of_arg_eq fill_comm_def cstr_append_NUL)
qed

text \<open>
  Claim C21. After \<open>-c\<close> the BPF program traces exactly the tasks whose command name is the
  argument, or, when that has more than 15 characters, its last 15 if it starts with \<open>com.\<close> and
  its first 15 otherwise; the configured array is always NUL-terminated.
\<close>

theorem comm_option_selects:
  assumes "NUL \<notin> set s" "length comm = COMM_LEN"
    and "fst (cli_option prog (CHR ''c'', s) st) = Inr st'"
  shows "filter_type (cli_config st') = FILTER_COMM \<and>
    comm_equal comm (target_comm (cli_config st')) = (cstr comm = comm_name s) \<and>
    target_comm (cli_config st') ! (COMM_LEN - 1) = NUL"
proof -
  have st': "filter_type (cli_config st') = FILTER_COMM" "target_comm (cli_config st') = comm_of_arg s"
    using assms(3) by (auto simp: cli_option_def)
  have "comm_of_arg s ! (COMM_LEN - 1) = NUL"
    using length_comm_name [of s] by (auto simp: comm_of_arg_eq fill_comm_def nth_append)
  then show ?thesis
    using comm_loop_cstr [of 0 COMM_LEN comm "comm_of_arg s"] assms(1,2) length_comm_of_arg [of s]
    by (simp add: st' comm_equal_def cstr_comm_of_arg)
qed

lemma comm_option_selects_witness:
  "\<exists>st'. fst (cli_option ''etrace'' (CHR ''c'', ''com.example.application'') cli_init) = Inr st' \<and>
     comm_equal (''ple.application'' @ [NUL]) (target_comm (cli_config st'))"
proof -
  obtain st' where st': "fst (cli_option ''etrace'' (CHR ''c'', ''com.example.application'') cli_init) = Inr st'"
    by (simp add: cli_option_def)
  have "cstr (''ple.application'' @ [NUL]) = comm_name ''com.example.application''"
    by (simp add: cstr_def comm_name_def COMM_LEN_def)
  with comm_option_selects [OF _ _ st', of "''ple.application'' @ [NUL]"] show ?thesis
    by (intro exI [of _ st']) (simp add: st' COMM_LEN_def)
qed

section \<open>What an accepted command line guarantees\<close>

definition cli_ok :: "cli \<Rightarrow> bool" where
  "cli_ok st \<longleftrightarrow>
     length (target_comm (cli_config st)) = COMM_LEN \<and>
     (syscall_filter_enabled (cli_config st) \<noteq> 0 \<longleftrightarrow> cli_filter st \<noteq> None) \<and>
     (cli_have_pid st \<longrightarrow> 0 < unat (target_pid (cli_config st)) \<and> unat (target_pid (cli_config st)) \<le> 0x7fffffff) \<and>
     (if cli_have_pid st \<or> cli_have_comm st
      then filter_type (cli_config st) = FILTER_PID \<and> cli_have_pid st \<or>
           filter_type (cli_config st) = FILTER_COMM \<and> cli_have_comm st
      else filter_type (cli_config st) = FILTER_NONE)"

lemma cli_option_ok:
  assumes "cli_ok st" "cli_option prog oa st = (Inr st', log)"
  shows "cli_ok st'"
proof -
  obtain c s where oa: "oa = (c, s)" by (cases oa)
  show ?thesis
  proof (cases "c = CHR ''p''")
    case True
    with assms(2) have "fst (cli_option prog (CHR ''p'', s) st) = Inr st'" by (simp add: oa)
    then obtain n where "0 < n" "n \<le> 0x7fffffff" "st' = st\<lparr>cli_config := (cli_config st)\<lparr>filter_type := FILTER_PID,
        target_pid := word_of_nat n\<rparr>, cli_have_pid := True\<rparr>" unfolding pid_option_iff by blast
    with assms(1) show ?thesis by (simp add: cli_ok_def unat_word_of_nat32)
  next
    case False
    with assms(2) have "st' \<in> {st\<lparr>cli_config := (cli_config st)\<lparr>filter_type := FILTER_COMM, target_comm := comm_of_arg s\<rparr>,
          cli_have_comm := True\<rparr>,
        st\<lparr>cli_config := (cli_config st)\<lparr>syscall_filter_enabled := FILTER_SYS\<rparr>, cli_filter := Some s\<rparr>,
        st\<lparr>cli_enable_32 := True\<rparr>, st,
        st\<lparr>cli_config := (cli_config st)\<lparr>print_stack_enabled := ENABLE_STACK\<rparr>\<rparr>}"
      by (auto simp: cli_option_def oa split: if_splits)
    with assms(1) show ?thesis
      by (elim insertE emptyE) (simp_all add: cli_ok_def FILTER_SYS_def length_comm_of_arg split: if_splits)
  qed
qed

lemma cli_loop_ok: "cli_ok st \<Longrightarrow> cli_loop prog oas st = (Inr st', log) \<Longrightarrow> cli_ok st'"
  by (induction prog oas st arbitrary: log rule: cli_loop.induct)
    (auto simp: apsnd_def map_prod_def split: prod.splits sum.splits dest: cli_option_ok)

lemma cli_ok_init: "cli_ok cli_init"
  by (simp add: cli_ok_def cli_init_def header_consts)

lemma accepted_ok: "parse_command_line prog oas rest = (Inr st, log) \<Longrightarrow> cli_ok st"
  using cli_loop_ok [OF cli_ok_init]
  by (auto simp: parse_command_line_def split: prod.splits sum.splits if_splits)

text \<open>
  Claim C20. When the command line is accepted, exactly one of the two task filters is configured:
  a process id between 1 and \<open>2^31 - 1\<close>, or a full command-name array, never none and never
  both; and the whitelist is on exactly when a list was given.
\<close>

theorem accepted_command_line:
  assumes "parse_command_line prog oas rest = (Inr st, log)"
  shows "rest = [] \<and> length (target_comm (cli_config st)) = COMM_LEN \<and>
    (syscall_filter_enabled (cli_config st) \<noteq> 0) = (cli_filter st \<noteq> None) \<and>
    (if cli_have_pid st
     then \<not> cli_have_comm st \<and> filter_type (cli_config st) = FILTER_PID \<and>
          unat (target_pid (cli_config st)) \<in> {1..0x7fffffff}
     else cli_have_comm st \<and> filter_type (cli_config st) = FILTER_COMM)"
proof -
  have r: "cli_loop prog oas cli_init = (Inr st, log)" "cli_have_pid st \<noteq> cli_have_comm st" "rest = []"
    using assms by (auto simp: parse_command_line_def split: prod.splits sum.splits if_splits)
  from cli_loop_ok [OF cli_ok_init r(1)] r(2,3) show ?thesis by (auto simp: cli_ok_def)
qed

lemma accepted_command_line_witness:
  "\<exists>st log. parse_command_line ''etrace'' [(CHR ''p'', ''1234''), (CHR ''e'', ''read'')] [] = (Inr st, log) \<and>
     filter_type (cli_config st) = FILTER_PID \<and> unat (target_pid (cli_config st)) = 1234"
proof -
  have "strtol10 ''1234'' = (1234, False, [])"
    by (simp add: strtol10_def is_space_def is_digit_def undigits_def digit_val_def LONG_MAX_def LONG_MIN_def Let_def)
  then obtain st log where r: "parse_command_line ''etrace'' [(CHR ''p'', ''1234''), (CHR ''e'', ''read'')] [] = (Inr st, log)"
      "target_pid (cli_config st) = 1234" "cli_have_pid st"
    by (simp add: parse_command_line_def cli_option_def cli_init_def)
  with accepted_command_line [OF r(1)] show ?thesis by simp
qed

end
