(* ===== verification/Etrace_Output.thy ===== *)
theory Etrace_Output
  imports Etrace_Cli
begin

text \<open>
  What \<open>src/mini_etrace.c\<close> prints while it runs: \<open>print_frame\<close>, \<open>show_stack_trace\<close>,
  \<open>handle_event\<close> and \<open>handle_lost\<close>, and the log callback \<open>libbpf_print_fn\<close>. The symbolizer is a
  parameter: for a process id and addresses it gives one record per address, or fails.
\<close>

section \<open>Stack frames\<close>

text \<open>
  The result structures of the symbolizer (\<open>blazesym.h\<close>), less their reserved bytes; a pointer that
  may be null is an option, and an array with its count is a list.
\<close>

record code_info =
  ci_dir :: "string option"
  ci_file :: "string option"
  ci_line :: nat
  ci_column :: nat

record inlined_fn =
  il_name :: string
  il_code :: code_info

record blaze_sym =
  sym_name :: "string option"
  sym_module :: "string option"
  sym_addr :: u64
  sym_offset :: u64
  sym_size :: s64
  sym_code :: code_info
  sym_inlined :: "inlined_fn list"
  sym_reason :: u8

text \<open>\<open>%016lx\<close> and \<open>%16s\<close>.\<close>

definition hex16 :: "u64 \<Rightarrow> string" where "hex16 v = zero_pad 16 (fmt_x (unat v))"

definition pad_left :: "nat \<Rightarrow> string \<Rightarrow> string" where
  "pad_left w s = replicate (w - length s) (CHR '' '') @ s"

text \<open>The pointer \<open>code_info\<close> is the address of a member at both calls and never null.\<close>

definition print_frame :: "string \<Rightarrow> u64 \<Rightarrow> u64 \<Rightarrow> u64 \<Rightarrow> code_info \<Rightarrow> string" where
  "print_frame nm input_addr addr offset ci =
     (if input_addr \<noteq> 0 then
        ''    '' @ hex16 input_addr @ '': '' @ nm @ '' @ 0x'' @ fmt_x (unat addr) @ ''+0x'' @ fmt_x (unat offset) @
        (case ci_file ci of
           Some f \<Rightarrow>
             (case ci_dir ci of
                Some dr \<Rightarrow> '' '' @ dr @ ''/'' @ f @ '':'' @ fmt_u (ci_line ci) @ NEWLINE
              | None \<Rightarrow> '' '' @ f @ '':'' @ fmt_u (ci_line ci) @ NEWLINE)
         | None \<Rightarrow> NEWLINE)
      else
        ''    '' @ pad_left 16 [] @ ''  '' @ nm @
        (case ci_file ci of
           Some f \<Rightarrow>
             (case ci_dir ci of
                Some dr \<Rightarrow> ''@ '' @ dr @ ''/'' @ f @ '':'' @ fmt_u (ci_line ci) @ '' [inlined]'' @ NEWLINE
              | None \<Rightarrow> ''@ '' @ f @ '':'' @ fmt_u (ci_line ci) @ '' [inlined]'' @ NEWLINE)
         | None \<Rightarrow> ''[inlined]'' @ NEWLINE))"

text \<open>
  \<open>show_stack_trace\<close>: \<open>symbolize\<close> is \<open>blaze_symbolize_process_abs_addrs\<close> for a process id and
  addresses. For process id 0 the variable \<open>syms\<close> is read uninitialised; its value then is the
  parameter \<open>uninit\<close>. \<open>stack_sz\<close> addresses of \<open>stack\<close> are read.
\<close>

definition sym_lines :: "u64 \<Rightarrow> blaze_sym option \<Rightarrow> string" where
  "sym_lines a bsym =
     (case bsym of
        None \<Rightarrow> ''    '' @ hex16 a @ '': <no-symbol>'' @ NEWLINE
      | Some b \<Rightarrow>
          (case sym_name b of
             None \<Rightarrow> ''    '' @ hex16 a @ '': <no-symbol>'' @ NEWLINE
           | Some n \<Rightarrow>
               print_frame n a (sym_addr b) (sym_offset b) (sym_code b) @
               concat (map (\<lambda>i. print_frame (il_name i) 0 0 0 (il_code i)) (sym_inlined b))))"

definition show_stack_trace ::
  "(u32 \<Rightarrow> u64 list \<Rightarrow> blaze_sym list option) \<Rightarrow> blaze_sym list option \<Rightarrow> u64 list \<Rightarrow> nat \<Rightarrow> u32 \<Rightarrow> string" where
  "show_stack_trace symbolize uninit stack stack_sz pid =
     (let addrs = take stack_sz stack;
          syms = (if pid \<noteq> 0 then symbolize pid addrs else uninit)
      in case syms of
           None \<Rightarrow> concat (map (\<lambda>a. ''    '' @ hex16 a @ NEWLINE) addrs)
         | Some ss \<Rightarrow>
             concat (map (\<lambda>i. sym_lines (addrs ! i) (if length ss \<le> i then None else Some (ss ! i))) [0..<length addrs]))"

section \<open>Events\<close>

definition LINE_SIZE :: nat where "LINE_SIZE = 1024"

definition EVENT_SIZE :: nat where "EVENT_SIZE = sizeof_event"

definition event_stack_text ::
  "(u32 \<Rightarrow> u64 list \<Rightarrow> blaze_sym list option) \<Rightarrow> blaze_sym list option \<Rightarrow> syscall_event \<Rightarrow> string" where
  "event_stack_text symbolize uninit e =
     (if sint (se_stack_size e) > 0 then
        ''Userspace Stack:'' @ NEWLINE @
        show_stack_trace symbolize uninit (se_user_stack e) (unat (se_stack_size e) div 8) (se_pid e) @ NEWLINE
      else ''No Userspace Stack'' @ NEWLINE)"

text \<open>What an event of \<open>data_sz\<close> bytes writes to \<open>stdout\<close>.\<close>

definition handle_event ::
  "platform \<Rightarrow> syscall_parser option \<Rightarrow> syscall_entry_t list \<times> syscall_entry_t list \<Rightarrow>
   (u32 \<Rightarrow> u64 list \<Rightarrow> blaze_sym list option) \<Rightarrow> blaze_sym list option \<Rightarrow> trace_config \<Rightarrow> bool \<Rightarrow> syscall_event \<Rightarrow> nat \<Rightarrow> string" where
  "handle_event P parser tables symbolize uninit cfg enable_32 e data_sz =
     (if data_sz < EVENT_SIZE then []
      else
        let line0 = replicate LINE_SIZE NUL;
            table = (if enable_32 then fst tables else snd tables);
            line = (case snd (syscall_parse_event P parser (Some e) (Some table) (Some line0) LINE_SIZE) of
                      None \<Rightarrow> line0 | Some l \<Rightarrow> l)
        in cstr line @ NEWLINE @
           (if print_stack_enabled cfg \<noteq> 0 then event_stack_text symbolize uninit e else []))"

definition handle_lost :: "int \<Rightarrow> u64 \<Rightarrow> string" where
  "handle_lost cpu lost_cnt = ''lost '' @ fmt_u (unat lost_cnt) @ '' events on CPU '' @ fmt_d cpu @ NEWLINE"

text \<open>\<open>LIBBPF_DEBUG\<close> is 2; the result is what goes to \<open>stderr\<close> and the return value.\<close>

definition libbpf_print_fn :: "nat \<Rightarrow> string \<Rightarrow> string \<times> int" where
  "libbpf_print_fn level msg = (if level = 2 then ([], 0) else (msg, int (length msg)))"

lemma handle_event_text:
  assumes "platform_clean P" "table_ok bits t" "t = (if enable_32 then fst tables else snd tables)"
    and "parse_accepts e t" "EVENT_SIZE \<le> data_sz"
  shows "\<exists>shown. shown = take 1023 (line_text P d (event_of (table_abi_bits (Some t)) e) (Some t)) \<and> clean shown \<and>
    handle_event P (Some d) tables symbolize uninit cfg enable_32 e data_sz =
      shown @ NEWLINE @ (if print_stack_enabled cfg \<noteq> 0 then event_stack_text symbolize uninit e else [])"
proof -
  define line where "line = line_text P d (event_of (table_abi_bits (Some t)) e) (Some t)"
  have line: "clean line" using assms(1,2) line_text_clean by (auto simp: table_ok_def line_def)
  then have "NUL \<notin> set line" by (auto simp: clean_def list_all_iff printable_def)
  then have c: "cstr (render_into (replicate LINE_SIZE NUL) LINE_SIZE line) = take 1023 line"
    by (simp add: render_into_cstr LINE_SIZE_def)
  have "clean (take 1023 line)" using line by (auto simp: clean_def list_all_iff dest: in_set_takeD)
  moreover have "snd (syscall_parse_event P (Some d) (Some e) (Some t) (Some (replicate LINE_SIZE NUL)) LINE_SIZE) =
      Some (render_into (replicate LINE_SIZE NUL) LINE_SIZE line)"
    using assms(4) decode_with_table_render [of "replicate LINE_SIZE NUL" LINE_SIZE P d]
    by (auto simp: syscall_parse_event_def parse_accepts_def line_def Let_def)
  ultimately show ?thesis
    using assms(5) c unfolding line_def [symmetric] by (simp add: handle_event_def Let_def assms(3) [symmetric])
qed


text \<open>
  For every complete event of the traced ABI one line is written: the specified line,
  cut to 1023 characters, all of it printable; then, only when stacks were asked for, the stack.
\<close>

theorem handle_event_line:
  assumes "platform_clean P" "table_ok bits t" "t = (if enable_32 then fst tables else snd tables)"
    and "parse_accepts e t" "EVENT_SIZE \<le> data_sz"
  shows "\<exists>shown. shown = take 1023 (line_text P d (event_of (table_abi_bits (Some t)) e) (Some t)) \<and> clean shown \<and>
    handle_event P (Some d) tables symbolize uninit cfg enable_32 e data_sz =
      shown @ NEWLINE @ (if print_stack_enabled cfg \<noteq> 0 then event_stack_text symbolize uninit e else [])"
  by (rule handle_event_text [OF assms])

lemma handle_event_line_witness:
  "\<exists>shown. shown = ''[pid 8] read(3, '' @ [DQUOTE] @ ''hi'' @ [DQUOTE] @ '', 6) = 2 <0.001500>'' \<and> clean shown \<and>
    handle_event demo_platform (Some (main_parser (mapped_readv demo_mem))) (demo_table, demo_table) (\<lambda>_ _. None) None
      (cli_config cli_init) False demo_syscall EVENT_SIZE = shown @ NEWLINE"
  using handle_event_line [of demo_platform 64 demo_table False "(demo_table, demo_table)" demo_syscall EVENT_SIZE
      "main_parser (mapped_readv demo_mem)" "\<lambda>_ _. None" None "cli_config cli_init"]
    demo_platform_clean demo_table_ok demo_accepts
  by (simp add: demo_bits demo_line cli_init_def)

section \<open>Stacks\<close>

lemma hex16_undigits [simp]: "undigits 16 (hex16 a) = unat a"
  by (simp add: hex16_def undigits_zero_pad)

lemma length_hex16 [simp]: "length (hex16 a) = 16"
proof -
  have "unat a < 16 ^ Suc 15" using unat_u64_less [of a] by simp
  then have "length (fmt_x (unat a)) \<le> 16" using digits_length [of 16 "unat a" 15] by (simp add: fmt_x_def)
  then show ?thesis by (simp add: hex16_def zero_pad_def)
qed

lemma sym_lines_head: "a \<noteq> 0 \<Longrightarrow> \<exists>t. sym_lines a b = ''    '' @ hex16 a @ '':'' @ t"
  by (cases "case b of None \<Rightarrow> None | Some b' \<Rightarrow> sym_name b'") (auto simp: sym_lines_def print_frame_def split: option.splits)

lemma map_nth_index: "map (\<lambda>i. f (xs ! i)) [0..<length xs] = map f xs"
  by (rule nth_equalityI) auto

lemma map_index_zip: "\<exists>ts. length ts = length xs \<and>
    concat (map (\<lambda>i. g (xs ! i) i) [0..<length xs]) = concat (map (\<lambda>(x, t). h x @ t) (zip xs ts))"
  if "\<And>x i. x \<in> set xs \<Longrightarrow> \<exists>t. g x i = h x @ t"
proof -
  from that obtain w where w: "\<And>x i. x \<in> set xs \<Longrightarrow> g x i = h x @ w x i" by metis
  let ?ts = "map (\<lambda>i. w (xs ! i) i) [0..<length xs]"
  have "map (\<lambda>i. g (xs ! i) i) [0..<length xs] = map (\<lambda>(x, t). h x @ t) (zip xs ?ts)"
    by (rule nth_equalityI) (auto simp: w)
  then show ?thesis by (intro exI [of _ ?ts]) simp
qed



text \<open>
  For process id 0 the result depends on what the variable \<open>syms\<close> held before it was assigned:
  the branch that assigns it is not taken.
\<close>

theorem uninitialised_symbols:
  "\<exists>u v. show_stack_trace symbolize u [0x400000] 1 0 \<noteq> show_stack_trace symbolize v [0x400000] 1 0"
  by (intro exI [of _ None] exI [of _ "Some []"]) (simp add: show_stack_trace_def sym_lines_def NEWLINE_def)

end
