(* ===== verification/Etrace_Main.thy ===== *)
theory Etrace_Main
  imports Etrace_Output "HOL-Library.Sublist"
begin

text \<open>
  \<open>main\<close> of \<open>src/mini_etrace.c\<close>: the acquisition of its resources, what it writes into the maps of
  the BPF program, its poll loop, its cleanup and its exit status. The kernel, libbpf and the
  symbolizer answer through a record of results; a run is a state with what is held, what was
  written into the maps, what was printed, and the sequence of actions taken.
\<close>

section \<open>The host\<close>

definition EINTR :: int where "EINTR = 4"
definition ENOENT :: int where "ENOENT = 2"

text \<open>What one \<open>perf_buffer__poll\<close> does: the callbacks it makes, the signals that arrive, its result.\<close>

datatype sample = Sample syscall_event nat | Lost int u64

record poll_answer =
  pa_samples :: "sample list"
  pa_signals :: "int list"
  pa_ret :: int

text \<open>
  Error codes are 0 for success and negative otherwise, file descriptors are negative for an error;
  \<open>h_errno\<close> is the value of \<open>errno\<close> after a refused map operation or \<open>setrlimit\<close>,
  which takes the current and the maximal limit.
\<close>

record host =
  h_setrlimit :: "u64 \<Rightarrow> u64 \<Rightarrow> int"
  h_errno :: int
  h_open_err :: int
  h_load_err :: int
  h_config_fd :: int
  h_config_update :: int
  h_bitmap_fd :: int
  h_enter_prog :: bool
  h_enter_err :: int
  h_exit_prog :: bool
  h_exit_err :: int
  h_events_fd :: int
  h_symbolizer :: bool
  h_parser :: bool
  h_pb_err :: int
  h_signals :: "int list"
  h_polls :: "poll_answer list"
  h_symbolize :: "u32 \<Rightarrow> u64 list \<Rightarrow> blaze_sym list option"
  h_uninit :: "blaze_sym list option"
  h_readv :: "u32 \<Rightarrow> u64 \<Rightarrow> nat \<Rightarrow> nat + u8 list"

section \<open>The run\<close>

datatype resource = Obj | Link_enter | Link_exit | Perf_buffer | Symbolizer | Parser

datatype action = Acquire resource | Release resource | Load | Write_config | Write_whitelist | Poll_loop

record 'b run =
  r_held :: "resource set"
  r_err :: int
  r_log :: "action list"
  r_text :: string
  r_config :: "trace_config option"
  r_bitmap :: 'b

text \<open>A step goes on, jumps to \<open>cleanup\<close>, or dereferences a null pointer.\<close>

datatype 'b flow = Next "'b run" | Jump "'b run" | Crash

type_synonym 'b step = "'b run \<Rightarrow> 'b flow"

definition say :: "string \<Rightarrow> 'b run \<Rightarrow> 'b run" where
  "say t r = r\<lparr>r_text := r_text r @ t\<rparr>"

definition note_action :: "action \<Rightarrow> 'b run \<Rightarrow> 'b run" where
  "note_action a r = r\<lparr>r_log := r_log r @ [a]\<rparr>"

definition fail_with :: "int \<Rightarrow> string \<Rightarrow> 'b step" where
  "fail_with e t r = Jump (say t (r\<lparr>r_err := e\<rparr>))"

text \<open>\<open>err = \<dots>; if (err) { fprintf(stderr, \<dots>); goto cleanup; }\<close>, with a resource on success.\<close>

definition acquire :: "int \<Rightarrow> resource \<Rightarrow> string \<Rightarrow> 'b step" where
  "acquire e x t r =
     (if e \<noteq> 0 then fail_with e t r
      else Next (note_action (Acquire x) (r\<lparr>r_held := insert x (r_held r), r_err := 0\<rparr>)))"

definition check :: "bool \<Rightarrow> int \<Rightarrow> string \<Rightarrow> 'b step" where
  "check good e t r = (if good then Next r else fail_with e t r)"

primrec run_steps :: "'b step list \<Rightarrow> 'b step" where
  "run_steps [] r = Next r"
| "run_steps (st # sts) r = (case st r of Next r' \<Rightarrow> run_steps sts r' | Jump r' \<Rightarrow> Jump r' | Crash \<Rightarrow> Crash)"

text \<open>\<open>sig_handler\<close> sets the flag for every signal it is registered for.\<close>

definition sig_handler :: "int \<Rightarrow> bool \<Rightarrow> bool" where
  "sig_handler signo exiting = True"

text \<open>\<open>bump_memlock_rlimit\<close>: both limits are infinite; the result is that of \<open>setrlimit\<close>.\<close>

definition RLIM_INFINITY :: u64 where "RLIM_INFINITY = - 1"

definition bump_memlock_rlimit :: "host \<Rightarrow> int" where
  "bump_memlock_rlimit h = h_setrlimit h RLIM_INFINITY RLIM_INFINITY"

definition error_line :: "platform \<Rightarrow> string \<Rightarrow> int \<Rightarrow> string" where
  "error_line P t e = t @ '': '' @ sys_strerror P (nat e) @ NEWLINE"

section \<open>The steps of main\<close>

definition load_object :: "platform \<Rightarrow> host \<Rightarrow> 'b step" where
  "load_object P h r =
     (if h_load_err h \<noteq> 0 then
        fail_with (h_load_err h)
          (''failed to load BPF object: '' @ sys_strerror P (nat (- h_load_err h)) @ '' ('' @ fmt_d (h_load_err h) @ '')'' @ NEWLINE) r
      else Next (note_action Load (r\<lparr>r_err := 0\<rparr>)))"

definition write_config :: "platform \<Rightarrow> host \<Rightarrow> cli \<Rightarrow> 'b step" where
  "write_config P h st r =
     (if h_config_update h \<noteq> 0 then fail_with (- h_errno h) (error_line P ''failed to update config_map'' (h_errno h)) r
      else Next (note_action Write_config (r\<lparr>r_config := Some (cli_config st)\<rparr>)))"

definition make_whitelist ::
  "platform \<Rightarrow> ('h, 'b) bpf_ops \<Rightarrow> host \<Rightarrow> syscall_entry_t list \<times> syscall_entry_t list \<Rightarrow> cli \<Rightarrow> 'b \<Rightarrow> int \<times> 'b \<times> string list" where
  "make_whitelist P ops h tables st bm =
     (if syscall_filter_enabled (cli_config st) \<noteq> 0
      then parse_syscall_filter P ops (h_errno h) tables (cli_enable_32 st) bm (cli_filter st)
      else (case set_all_syscall ops (h_errno h) bm of (e, bm') \<Rightarrow> (e, bm', [])))"

definition write_whitelist ::
  "platform \<Rightarrow> ('h, 'b) bpf_ops \<Rightarrow> host \<Rightarrow> syscall_entry_t list \<times> syscall_entry_t list \<Rightarrow> cli \<Rightarrow> 'b step" where
  "write_whitelist P ops h tables st r =
     (case make_whitelist P ops h tables st (r_bitmap r) of
        (e, bm, ls) \<Rightarrow>
          let r' = say (lines_text ls) (r\<lparr>r_err := e, r_bitmap := bm\<rparr>)
          in if e < 0 then Jump r' else Next (note_action Write_whitelist r'))"

definition create_parser :: "host \<Rightarrow> 'b step" where
  "create_parser h r =
     (if h_parser h then Next (note_action (Acquire Parser) (r\<lparr>r_held := insert Parser (r_held r)\<rparr>)) else Crash)"

definition banner :: "trace_config \<Rightarrow> string" where
  "banner cfg =
     (if filter_type cfg = FILTER_PID then
        ''Tracing PID '' @ fmt_u (unat (target_pid cfg)) @ '' and all its threads...'' @ NEWLINE
      else ''Tracing comm='' @ [DQUOTE] @ cstr (target_comm cfg) @ [DQUOTE] @ ''...'' @ NEWLINE) @
     ''Press Ctrl-C to stop.'' @ NEWLINE @ NEWLINE"

text \<open>From \<open>bpf_object__open_file\<close> to the banner.\<close>

definition setup_steps ::
  "platform \<Rightarrow> ('h, 'b) bpf_ops \<Rightarrow> host \<Rightarrow> syscall_entry_t list \<times> syscall_entry_t list \<Rightarrow> cli \<Rightarrow> 'b step list" where
  "setup_steps P ops h tables st = [
     acquire (h_open_err h) Obj (error_line P ''failed to open BPF object'' (- h_open_err h)),
     load_object P h,
     check (h_config_fd h \<ge> 0) (h_config_fd h) (''cannot find config_map'' @ NEWLINE),
     write_config P h st,
     check (h_bitmap_fd h \<ge> 0) (h_bitmap_fd h) (''cannot find syscall_bitmap map'' @ NEWLINE),
     write_whitelist P ops h tables st,
     check (h_enter_prog h) (- ENOENT) (''cannot find trace_enter program'' @ NEWLINE),
     acquire (h_enter_err h) Link_enter (error_line P ''failed to attach raw_syscalls:sys_enter'' (- h_enter_err h)),
     check (h_exit_prog h) (- ENOENT) (''cannot find trace_exit program'' @ NEWLINE),
     acquire (h_exit_err h) Link_exit (error_line P ''failed to attach raw_syscalls:sys_exit'' (- h_exit_err h)),
     check (h_events_fd h \<ge> 0) (h_events_fd h) (''cannot find events map'' @ NEWLINE),
     (\<lambda>r. if h_symbolizer h then Next (note_action (Acquire Symbolizer) (r\<lparr>r_held := insert Symbolizer (r_held r)\<rparr>))
          else fail_with (- 1) (''Fail to create a symbolizer'' @ NEWLINE) r),
     create_parser h,
     acquire (h_pb_err h) Perf_buffer (error_line P ''failed to create perf buffer'' (- h_pb_err h)),
     (\<lambda>r. Next (say (banner (cli_config st)) r))]"

text \<open>The callbacks of one poll, and the loop; none when the program still runs after the given answers.\<close>

definition on_sample :: "(syscall_event \<Rightarrow> nat \<Rightarrow> string) \<Rightarrow> sample \<Rightarrow> 'b run \<Rightarrow> 'b run" where
  "on_sample show_ev x r =
     (case x of Sample e data_sz \<Rightarrow> say (show_ev e data_sz) r | Lost cpu n \<Rightarrow> say (handle_lost cpu n) r)"

fun poll_loop :: "(syscall_event \<Rightarrow> nat \<Rightarrow> string) \<Rightarrow> bool \<Rightarrow> poll_answer list \<Rightarrow> 'b run \<Rightarrow> 'b run option" where
  "poll_loop show_ev True ps r = Some r"
| "poll_loop show_ev False [] r = None"
| "poll_loop show_ev False (p # ps) r =
     (let r1 = fold (on_sample show_ev) (pa_samples p) r; err = pa_ret p
      in if err < 0 \<and> err \<noteq> - EINTR then
           Some (say (''perf_buffer__poll failed: '' @ fmt_d err @ NEWLINE) (r1\<lparr>r_err := err\<rparr>))
         else poll_loop show_ev (fold sig_handler (pa_signals p) False) ps
                (r1\<lparr>r_err := (if err = - EINTR then 0 else err)\<rparr>))"

text \<open>The four releases of \<open>cleanup\<close>; on a null pointer each does nothing.\<close>

definition release :: "resource \<Rightarrow> 'b run \<Rightarrow> 'b run" where
  "release x r = (if x \<in> r_held r then note_action (Release x) (r\<lparr>r_held := r_held r - {x}\<rparr>) else r)"

definition cleanup :: "'b run \<Rightarrow> 'b run" where
  "cleanup r = release Obj (release Link_enter (release Link_exit (release Perf_buffer r)))"

text \<open>\<open>return err != 0\<close>.\<close>

datatype 'b outcome = Exits int "'b run" | Runs | Crashes

definition leave :: "'b run \<Rightarrow> 'b outcome" where
  "leave r = Exits (if r_err r \<noteq> 0 then 1 else 0) (cleanup r)"

definition run_start :: "string \<Rightarrow> 'b \<Rightarrow> 'b run" where
  "run_start t bm = \<lparr>r_held = {}, r_err = 0, r_log = [], r_text = t, r_config = None, r_bitmap = bm\<rparr>"

definition show_event ::
  "platform \<Rightarrow> host \<Rightarrow> syscall_entry_t list \<times> syscall_entry_t list \<Rightarrow> cli \<Rightarrow> syscall_event \<Rightarrow> nat \<Rightarrow> string" where
  "show_event P h tables st e data_sz =
     handle_event P (Some (main_parser (h_readv h))) tables (h_symbolize h) (h_uninit h) (cli_config st) (cli_enable_32 st) e data_sz"

definition etrace_main ::
  "platform \<Rightarrow> ('h, 'b) bpf_ops \<Rightarrow> host \<Rightarrow> syscall_entry_t list \<times> syscall_entry_t list \<Rightarrow> 'b \<Rightarrow>
   string \<Rightarrow> (char \<times> string) list \<Rightarrow> string list \<Rightarrow> 'b outcome" where
  "etrace_main P ops h tables bm prog oas rest =
     (case parse_command_line prog oas rest of
        (Inl rc, ts) \<Rightarrow> Exits rc (run_start (concat ts) bm)
      | (Inr st, ts) \<Rightarrow>
          let r0 = run_start (concat ts) bm
          in if bump_memlock_rlimit h \<noteq> 0 then
               Exits 1 (say (error_line P ''failed to increase RLIMIT_MEMLOCK'' (h_errno h)) r0)
             else
               (case run_steps (setup_steps P ops h tables st) r0 of
                  Crash \<Rightarrow> Crashes
                | Jump r \<Rightarrow> leave r
                | Next r \<Rightarrow>
                    (case poll_loop (show_event P h tables st) (fold sig_handler (h_signals h) False) (h_polls h) r of
                       None \<Rightarrow> Runs
                     | Some r' \<Rightarrow> leave (note_action Poll_loop r'))))"

section \<open>Setting up and cleaning up\<close>

text \<open>The actions of a run without failures up to its poll loop, and the resources \<open>cleanup\<close> knows.\<close>

definition plan :: "action list" where
  "plan = [Acquire Obj, Load, Write_config, Write_whitelist, Acquire Link_enter, Acquire Link_exit,
     Acquire Symbolizer, Acquire Parser, Acquire Perf_buffer]"

fun acquired :: "action list \<Rightarrow> resource list" where
  "acquired [] = []"
| "acquired (Acquire x # as) = x # acquired as"
| "acquired (a # as) = acquired as"

definition cleaned :: "resource \<Rightarrow> bool" where
  "cleaned x \<longleftrightarrow> x \<noteq> Symbolizer \<and> x \<noteq> Parser"

lemma acquired_append [simp]: "acquired (as @ bs) = acquired as @ acquired bs"
  by (induction as rule: acquired.induct) simp_all

lemma log_simps [simp]:
  "r_log (say t r) = r_log r" "r_held (say t r) = r_held r" "r_err (say t r) = r_err r"
  "r_config (say t r) = r_config r" "r_bitmap (say t r) = r_bitmap r" "r_text (say t r) = r_text r @ t"
  "r_log (note_action a r) = r_log r @ [a]" "r_held (note_action a r) = r_held r" "r_err (note_action a r) = r_err r"
  "r_config (note_action a r) = r_config r" "r_bitmap (note_action a r) = r_bitmap r" "r_text (note_action a r) = r_text r"
  "r_log (run_start t bm) = []" "r_held (run_start t bm) = {}" "r_err (run_start t bm) = 0"
  "r_config (run_start t bm) = None" "r_bitmap (run_start t bm) = bm" "r_text (run_start t bm) = t"
  by (simp_all add: say_def note_action_def run_start_def)

lemmas step_defs = acquire_def check_def load_object_def write_config_def create_parser_def fail_with_def

text \<open>What is true of a run at the jump to \<open>cleanup\<close> or at the start of the poll loop.\<close>

definition setup_ok :: "host \<Rightarrow> bool \<Rightarrow> 'b run \<Rightarrow> bool" where
  "setup_ok h finished r \<longleftrightarrow> prefix (r_log r) plan \<and> r_held r = set (acquired (r_log r)) \<and>
     (if finished then r_log r = plan \<and> r_err r = 0 else r_log r \<noteq> plan \<and> (0 < h_errno h \<longrightarrow> r_err r \<noteq> 0))"

lemma setup_jump:
  "run_steps (setup_steps P ops h tables st) (run_start t bm) = Jump r \<Longrightarrow> setup_ok h False r"
  by (auto simp: setup_steps_def setup_ok_def plan_def step_defs write_whitelist_def Let_def ENOENT_def
      split: if_splits prod.splits)

lemma setup_next:
  "run_steps (setup_steps P ops h tables st) (run_start t bm) = Next r \<Longrightarrow> setup_ok h True r"
  by (auto simp: setup_steps_def setup_ok_def plan_def step_defs write_whitelist_def Let_def
      split: if_splits prod.splits)

lemma plan_prefixes:
  "prefix xs (plan @ [Poll_loop]) \<longleftrightarrow> xs \<in> set (prefixes (plan @ [Poll_loop]))"
  by (simp only: in_set_prefixes)

lemma cleanup_log:
  assumes "prefix (r_log r) (plan @ [Poll_loop])" "r_held r = set (acquired (r_log r))"
  shows "r_log (cleanup r) = r_log r @ map Release (rev (filter cleaned (acquired (r_log r))))"
    and "r_held (cleanup r) = set (filter (\<lambda>x. \<not> cleaned x) (acquired (r_log r)))"
proof -
  have "r_log (cleanup r) = r_log r @ map Release (rev (filter cleaned (acquired (r_log r)))) \<and>
      r_held (cleanup r) = set (filter (\<lambda>x. \<not> cleaned x) (acquired (r_log r)))"
    using assms unfolding plan_prefixes unfolding plan_def
    by (simp only: append.simps prefixes.simps list.map set_simps insert_iff empty_iff simp_thms)
      (elim disjE; simp add: cleanup_def release_def cleaned_def insert_Diff_if insert_commute)
  then show "r_log (cleanup r) = r_log r @ map Release (rev (filter cleaned (acquired (r_log r))))"
    and "r_held (cleanup r) = set (filter (\<lambda>x. \<not> cleaned x) (acquired (r_log r)))" by simp_all
qed

lemma cleanup_keeps [simp]:
  "r_err (cleanup r) = r_err r" "r_config (cleanup r) = r_config r" "r_bitmap (cleanup r) = r_bitmap r"
  "r_text (cleanup r) = r_text r"
  by (simp_all add: cleanup_def release_def)

lemma samples_keep [simp]:
  "r_log (fold (on_sample show_ev) xs r) = r_log r" "r_held (fold (on_sample show_ev) xs r) = r_held r"
  "r_err (fold (on_sample show_ev) xs r) = r_err r" "r_config (fold (on_sample show_ev) xs r) = r_config r"
  "r_bitmap (fold (on_sample show_ev) xs r) = r_bitmap r"
  by (induction xs arbitrary: r) (auto simp: on_sample_def split: sample.split)

lemma poll_loop_keeps:
  "poll_loop show_ev ex ps r = Some r' \<Longrightarrow>
    r_log r' = r_log r \<and> r_held r' = r_held r \<and> r_config r' = r_config r \<and> r_bitmap r' = r_bitmap r"
  by (induction show_ev ex ps r rule: poll_loop.induct) (auto simp: Let_def split: if_splits)

text \<open>The ways \<open>main\<close> returns.\<close>

lemma main_cases [consumes 1, case_names usage rlimit failed polled]:
  assumes "etrace_main P ops h tables bm prog oas rest = Exits rc r"
  obtains ts where "parse_command_line prog oas rest = (Inl rc, ts)" "r = run_start (concat ts) bm"
  | st ts where "parse_command_line prog oas rest = (Inr st, ts)" "rc = 1" "r_log r = []" "r_held r = {}"
  | st ts r0 where "parse_command_line prog oas rest = (Inr st, ts)"
      "run_steps (setup_steps P ops h tables st) (run_start (concat ts) bm) = Jump r0" "setup_ok h False r0"
      "r = cleanup r0" "rc = (if r_err r \<noteq> 0 then 1 else 0)"
  | st ts r0 r1 where "parse_command_line prog oas rest = (Inr st, ts)"
      "run_steps (setup_steps P ops h tables st) (run_start (concat ts) bm) = Next r0" "setup_ok h True r0"
      "poll_loop (show_event P h tables st) (fold sig_handler (h_signals h) False) (h_polls h) r0 = Some r1"
      "r = cleanup (note_action Poll_loop r1)" "rc = (if r_err r \<noteq> 0 then 1 else 0)"
proof (cases "parse_command_line prog oas rest")
  case (Pair res ts)
  show thesis
  proof (cases res)
    case (Inl rc')
    with Pair assms show thesis by (intro that(1)) (auto simp: etrace_main_def)
  next
    case (Inr st)
    let ?r = "run_start (concat ts) bm"
    note main = assms [unfolded etrace_main_def Pair Inr Let_def, simplified]
    show thesis
    proof (cases "bump_memlock_rlimit h \<noteq> 0")
      case True
      with main have "rc = 1" "r_log r = []" "r_held r = {}" by auto
      with Pair Inr show thesis by (intro that(2)) auto
    next
      case False
      show thesis
      proof (cases "run_steps (setup_steps P ops h tables st) ?r")
        case (Jump r0)
        with main False have "r = cleanup r0" "rc = (if r_err r \<noteq> 0 then 1 else 0)" by (auto simp: leave_def)
        with Pair Inr Jump setup_jump [OF Jump] show thesis by (intro that(3)) auto
      next
        case (Next r0)
        with main False obtain r1 where
            "poll_loop (show_event P h tables st) (fold sig_handler (h_signals h) False) (h_polls h) r0 = Some r1"
            "r = cleanup (note_action Poll_loop r1)" "rc = (if r_err r \<noteq> 0 then 1 else 0)"
          by (auto simp: leave_def split: option.splits)
        with Pair Inr Next setup_next [OF Next] show thesis by (intro that(4)) auto
      qed (use main False in simp)
    qed
  qed
qed

text \<open>A host on which everything succeeds, and the run of \<open>etrace -c sh\<close> on it.\<close>

definition demo_host :: "poll_answer list \<Rightarrow> host" where
  "demo_host ps = \<lparr>h_setrlimit = (\<lambda>_ _. 0), h_errno = 1, h_open_err = 0, h_load_err = 0, h_config_fd = 3,
     h_config_update = 0, h_bitmap_fd = 4, h_enter_prog = True, h_enter_err = 0, h_exit_prog = True, h_exit_err = 0,
     h_events_fd = 5, h_symbolizer = True, h_parser = True, h_pb_err = 0, h_signals = [], h_polls = ps,
     h_symbolize = (\<lambda>_ _. None), h_uninit = None, h_readv = mapped_readv demo_mem\<rparr>"

lemma demo_host_simps [simp]:
  "h_setrlimit (demo_host ps) a b = 0" "h_errno (demo_host ps) = 1" "h_open_err (demo_host ps) = 0"
  "h_load_err (demo_host ps) = 0" "h_config_fd (demo_host ps) = 3" "h_config_update (demo_host ps) = 0"
  "h_bitmap_fd (demo_host ps) = 4" "h_enter_prog (demo_host ps)" "h_enter_err (demo_host ps) = 0"
  "h_exit_prog (demo_host ps)" "h_exit_err (demo_host ps) = 0" "h_events_fd (demo_host ps) = 5"
  "h_symbolizer (demo_host ps)" "h_parser (demo_host ps)" "h_pb_err (demo_host ps) = 0"
  "h_signals (demo_host ps) = []" "h_polls (demo_host ps) = ps"
  by (simp_all add: demo_host_def)

definition demo_cli :: cli where
  "demo_cli = cli_init\<lparr>cli_config := (cli_config cli_init)\<lparr>filter_type := FILTER_COMM, target_comm := comm_of_arg ''sh''\<rparr>,
     cli_have_comm := True\<rparr>"

lemma demo_command_line: "parse_command_line ''etrace'' [(CHR ''c'', ''sh'')] [] = (Inr demo_cli, [])"
  by (simp add: parse_command_line_def cli_option_def demo_cli_def cli_init_def comm_warning_def COMM_LEN_def)

text \<open>One poll that reports an event and during which \<open>SIGINT\<close> arrives; the poll returns 1.\<close>

definition event_polls :: "syscall_event \<Rightarrow> poll_answer list" where
  "event_polls ev = [\<lparr>pa_samples = [Sample ev EVENT_SIZE], pa_signals = [2], pa_ret = 1\<rparr>]"

abbreviation demo_polls :: "poll_answer list" where "demo_polls \<equiv> event_polls demo_syscall"

lemma good_run:
  assumes "parse_command_line prog oas rest = (Inr st, ts)"
    and "make_whitelist demo_platform kernel_maps (demo_host (event_polls ev)) tables st (replicate 8 0) = (0, bm, ls)"
  shows "\<exists>r. etrace_main demo_platform kernel_maps (demo_host (event_polls ev)) tables (replicate 8 0) prog oas rest = Exits 1 r \<and>
    r_err r = 1 \<and> Acquire Link_enter \<in> set (r_log r) \<and> Poll_loop \<in> set (r_log r)"
proof -
  let ?show = "show_event demo_platform (demo_host (event_polls ev)) tables st"
  let ?g = "\<lambda>r. (on_sample ?show (Sample ev EVENT_SIZE) r)\<lparr>r_err := 1\<rparr>"
  have loop: "poll_loop ?show False (event_polls ev) r = Some (?g r)" for r :: "u64 list run"
    by (simp add: event_polls_def sig_handler_def EINTR_def)
  obtain r0 where r0: "run_steps (setup_steps demo_platform kernel_maps (demo_host (event_polls ev)) tables st)
      (run_start (concat ts) (replicate 8 0)) = Next r0"
    by (simp add: setup_steps_def step_defs write_whitelist_def assms(2))
  then have "r_log r0 = plan" using setup_next [OF r0] by (simp add: setup_ok_def)
  then have "Acquire Link_enter \<in> set (r_log (cleanup (note_action Poll_loop (?g r0))))"
      "Poll_loop \<in> set (r_log (cleanup (note_action Poll_loop (?g r0))))"
    by (auto simp: cleanup_def release_def on_sample_def plan_def)
  moreover have "etrace_main demo_platform kernel_maps (demo_host (event_polls ev)) tables (replicate 8 0) prog oas rest =
      leave (note_action Poll_loop (?g r0))"
    using r0 loop [of r0] by (simp add: etrace_main_def assms(1) bump_memlock_rlimit_def)
  ultimately show ?thesis by (simp add: leave_def)
qed

lemma demo_run:
  "\<exists>r. etrace_main demo_platform kernel_maps (demo_host demo_polls) (demo_table, demo_table) (replicate 8 0)
      ''etrace'' [(CHR ''c'', ''sh'')] [] = Exits 1 r \<and> r_err r = 1 \<and> Acquire Link_enter \<in> set (r_log r) \<and> Poll_loop \<in> set (r_log r)"
proof -
  obtain bm where "set_all_loop kernel_maps 1 (replicate 8 0) [0..<SYSCALL_BITMAP_WORDS] = (0, bm)"
    using wl.set_all_words [of "replicate 8 0" "[0..<SYSCALL_BITMAP_WORDS]" 1] by (auto simp: header_consts)
  then have "make_whitelist demo_platform kernel_maps (demo_host demo_polls) (demo_table, demo_table) demo_cli (replicate 8 0) = (0, bm, [])"
    by (simp add: make_whitelist_def set_all_syscall_def demo_cli_def cli_init_def)
  from good_run [OF demo_command_line this] show ?thesis .
qed





text \<open>So a run that did everything it was asked to can end with status 1.\<close>

theorem interrupted_run_fails:
  "\<exists>r. etrace_main demo_platform kernel_maps (demo_host demo_polls) (demo_table, demo_table) (replicate 8 0)
      ''etrace'' [(CHR ''c'', ''sh'')] [] = Exits 1 r \<and> r_err r = 1"
  using demo_run by blast

section \<open>The poll loop\<close>

definition sample_text :: "(syscall_event \<Rightarrow> nat \<Rightarrow> string) \<Rightarrow> sample \<Rightarrow> string" where
  "sample_text show_ev x = (case x of Sample e n \<Rightarrow> show_ev e n | Lost cpu n \<Rightarrow> handle_lost cpu n)"

definition poll_fatal :: "poll_answer \<Rightarrow> bool" where
  "poll_fatal p \<longleftrightarrow> pa_ret p < 0 \<and> pa_ret p \<noteq> - EINTR"

definition poll_last :: "poll_answer \<Rightarrow> bool" where
  "poll_last p \<longleftrightarrow> poll_fatal p \<or> pa_signals p \<noteq> []"

lemma signals_set [simp]: "fold sig_handler ss False \<longleftrightarrow> ss \<noteq> []"
proof -
  have "fold sig_handler ss True" for ss by (induction ss) (simp_all add: sig_handler_def)
  then show ?thesis by (cases ss) (simp_all add: sig_handler_def)
qed

lemma samples_text: "r_text (fold (on_sample show_ev) xs r) = r_text r @ concat (map (sample_text show_ev) xs)"
  by (induction xs arbitrary: r) (auto simp: on_sample_def sample_text_def split: sample.split)

lemma poll_loop_result:
  "poll_loop show_ev exiting ps r =
    (if exiting then Some r
     else if \<forall>p \<in> set ps. \<not> poll_last p then None
     else
       let seen = takeWhile (\<lambda>p. \<not> poll_last p) ps; final = ps ! length seen;
           txt = concat (map (\<lambda>p. concat (map (sample_text show_ev) (pa_samples p))) (seen @ [final]))
       in Some (r\<lparr>r_text := r_text r @ txt @
              (if poll_fatal final then ''perf_buffer__poll failed: '' @ fmt_d (pa_ret final) @ NEWLINE else []),
            r_err := (if pa_ret final = - EINTR then 0 else pa_ret final)\<rparr>))"
proof (induction show_ev exiting ps r rule: poll_loop.induct)
  case (3 show_ev p ps r)
  have again: "poll_loop show_ev True qs r = Some r" for qs r by (cases qs) simp_all
  have fold_eq: "fold (on_sample show_ev) xs r = r\<lparr>r_text := r_text r @ concat (map (sample_text show_ev) xs)\<rparr>" for xs and r :: "'a run"
    by (rule run.equality) (simp_all add: samples_text)
  show ?case
  proof (cases "poll_last p")
    case True
    then show ?thesis
      by (auto simp: Let_def again fold_eq poll_last_def poll_fatal_def say_def)
  next
    case False
    with 3 show ?thesis by (auto simp: Let_def fold_eq poll_last_def poll_fatal_def)
  qed
qed simp_all

text \<open>
  Claim C19. The poll loop ends exactly when a signal has arrived before it starts, or with the
  first poll during which one arrives or which fails for another reason than an interruption; up
  to there, every callback of every poll is printed, in order.
\<close>

theorem poll_loop_runs:
  "poll_loop show_ev exiting ps r =
    (if exiting then Some r
     else if \<forall>p \<in> set ps. \<not> poll_last p then None
     else
       let seen = takeWhile (\<lambda>p. \<not> poll_last p) ps; final = ps ! length seen;
           txt = concat (map (\<lambda>p. concat (map (sample_text show_ev) (pa_samples p))) (seen @ [final]))
       in Some (r\<lparr>r_text := r_text r @ txt @
              (if poll_fatal final then ''perf_buffer__poll failed: '' @ fmt_d (pa_ret final) @ NEWLINE else []),
            r_err := (if pa_ret final = - EINTR then 0 else pa_ret final)\<rparr>))"
  by (rule poll_loop_result)

lemma poll_loop_runs_witness:
  "poll_loop (\<lambda>e _. fmt_d (sint (se_syscall_id e))) False [\<lparr>pa_samples = [Lost 1 5], pa_signals = [], pa_ret = 0\<rparr>,
      \<lparr>pa_samples = [], pa_signals = [15], pa_ret = - EINTR\<rparr>] (run_start [] (replicate 8 0)) =
    Some ((run_start [] (replicate 8 0))\<lparr>r_text := ''lost 5 events on CPU 1'' @ NEWLINE, r_err := 0\<rparr>)"
proof -
  have "handle_lost 1 5 = ''lost 5 events on CPU 1'' @ NEWLINE"
    by (simp add: handle_lost_def fmt_d_def fmt_u_def digits_small digit_char_def)
  then show ?thesis
    by (subst poll_loop_runs) (simp add: poll_last_def poll_fatal_def EINTR_def sample_text_def Let_def)
qed

section \<open>The output of a run\<close>

text \<open>
  The callbacks the perf buffer makes while the program runs: none when a signal came before the
  loop, otherwise those of every poll up to the one the loop ends with; and that poll's failure.
\<close>

definition last_polls :: "host \<Rightarrow> poll_answer list" where
  "last_polls h =
     (if h_signals h \<noteq> [] then []
      else take (Suc (length (takeWhile (\<lambda>p. \<not> poll_last p) (h_polls h)))) (h_polls h))"

definition delivered :: "host \<Rightarrow> sample list" where
  "delivered h = concat (map pa_samples (last_polls h))"

definition poll_failure :: "host \<Rightarrow> string" where
  "poll_failure h =
     (if last_polls h \<noteq> [] \<and> poll_fatal (last (last_polls h))
      then ''perf_buffer__poll failed: '' @ fmt_d (pa_ret (last (last_polls h))) @ NEWLINE else [])"

lemma take_first_last:
  assumes "\<not> (\<forall>p \<in> set ps. \<not> Q p)"
  shows "take (Suc (length (takeWhile (\<lambda>p. \<not> Q p) ps))) ps =
    takeWhile (\<lambda>p. \<not> Q p) ps @ [ps ! length (takeWhile (\<lambda>p. \<not> Q p) ps)]"
  using assms by (induction ps) auto

lemma poll_loop_text:
  assumes "poll_loop show_ev (fold sig_handler (h_signals h) False) (h_polls h) r = Some r'"
  shows "r_text r' = r_text r @ concat (map (sample_text show_ev) (delivered h)) @ poll_failure h"
proof (cases "h_signals h = []")
  case True
  then have r': "poll_loop show_ev False (h_polls h) r = Some r'" using assms by simp
  then have ends: "\<not> (\<forall>p \<in> set (h_polls h). \<not> poll_last p)"
    using poll_loop_result [of show_ev False "h_polls h" r] by (auto split: if_splits)
  note result = poll_loop_result [of show_ev False "h_polls h" r, unfolded r' if_False if_not_P [OF ends] Let_def option.inject]
  have "concat (map (\<lambda>p. concat (map (sample_text show_ev) (pa_samples p))) ps) =
      concat (map (sample_text show_ev) (concat (map pa_samples ps)))" for ps
    by (induction ps) simp_all
  with True show ?thesis
    by (simp add: result delivered_def poll_failure_def last_polls_def take_first_last [OF ends])
next
  case False
  with assms show ?thesis by (simp add: poll_loop_result delivered_def poll_failure_def last_polls_def)
qed

lemma setup_text:
  "run_steps (setup_steps P ops h tables st) (run_start t bm) = Next r \<Longrightarrow>
    \<exists>ls. r_text r = t @ lines_text ls @ banner (cli_config st)"
  by (auto simp: setup_steps_def step_defs write_whitelist_def Let_def split: if_splits prod.splits)

lemma run_text:
  assumes "etrace_main P ops h tables bm prog oas rest = Exits rc r"
    and "parse_command_line prog oas rest = (Inr st, ts)" "Poll_loop \<in> set (r_log r)"
  shows "\<exists>ls. r_text r = concat ts @ lines_text ls @ banner (cli_config st) @
    concat (map (sample_text (show_event P h tables st)) (delivered h)) @ poll_failure h"
  using assms(1)
proof (cases rule: main_cases)
  case (failed st' ts' r0)
  then show ?thesis
    using assms(3) cleanup_log(1) [of r0] by (auto simp: setup_ok_def plan_def prefix_Cons)
next
  case (polled st' ts' r0 r1)
  then obtain ls where "r_text r0 = concat ts @ lines_text ls @ banner (cli_config st)"
    using setup_text [OF polled(2)] assms(2) by auto
  with polled(1,5) poll_loop_text [OF polled(4)] assms(2) show ?thesis by auto
qed (use assms(2,3) in auto)

text \<open>
  Claim C18. What a run prints: after the lines of its start and the banner, the text of every
  callback the perf buffer makes up to the end of the loop, once each, in the order they are made,
  and, when the last poll failed, its error; nothing else.
\<close>

theorem main_prints_delivered:
  assumes "etrace_main P ops h tables bm prog oas rest = Exits rc r"
    and "parse_command_line prog oas rest = (Inr st, ts)" "Poll_loop \<in> set (r_log r)"
  shows "\<exists>ls. r_text r = concat ts @ lines_text ls @ banner (cli_config st) @
    concat (map (sample_text (show_event P h tables st)) (delivered h)) @ poll_failure h"
  by (rule run_text [OF assms])

lemma main_prints_delivered_witness:
  "\<exists>r before. etrace_main demo_platform kernel_maps (demo_host demo_polls) (demo_table, demo_table) (replicate 8 0)
      ''etrace'' [(CHR ''c'', ''sh'')] [] = Exits 1 r \<and>
    r_text r = before @ show_event demo_platform (demo_host demo_polls) (demo_table, demo_table) demo_cli demo_syscall EVENT_SIZE"
proof -
  obtain r where r: "etrace_main demo_platform kernel_maps (demo_host demo_polls) (demo_table, demo_table) (replicate 8 0)
      ''etrace'' [(CHR ''c'', ''sh'')] [] = Exits 1 r" "Poll_loop \<in> set (r_log r)"
    using demo_run by blast
  have "last_polls (demo_host demo_polls) = demo_polls"
    by (simp add: last_polls_def event_polls_def)
  then have "delivered (demo_host demo_polls) = [Sample demo_syscall EVENT_SIZE]" "poll_failure (demo_host demo_polls) = []"
    by (simp_all add: delivered_def poll_failure_def event_polls_def poll_fatal_def)
  with main_prints_delivered [OF r(1) demo_command_line r(2)] r(1) show ?thesis by (auto simp: sample_text_def)
qed

section \<open>What the probes find\<close>

lemma setup_written:
  assumes "run_steps (setup_steps P ops h tables st) (run_start t bm) = res" "res = Jump r \<or> res = Next r"
    and "Acquire Link_enter \<in> set (r_log r)"
  shows "r_config r = Some (cli_config st) \<and> (\<exists>e ls. make_whitelist P ops h tables st bm = (e, r_bitmap r, ls) \<and> 0 \<le> e)"
  using assms by (auto simp: setup_steps_def step_defs write_whitelist_def Let_def split: if_splits prod.splits)

lemma filter_accepts:
  assumes "whitelist ops binv" "binv bm" "\<forall>n < MAX_SYSCALLS. \<not> bitmap_has ops bm n"
    and "table_ok bits t" "t = (if enable_32 then fst tables else snd tables)"
    and "parse_syscall_filter P ops errno tables enable_32 bm (Some s) = (ret, bm', log)" "0 \<le> ret"
  shows "syscall_allowed ops bm' nr =
    (\<exists>e nm. syscall_table_lookup nr (Some t) = Some e \<and> ent_name e = Some nm \<and> nm \<in> set (listed_names s))"
proof -
  have ok: "filter_loop P ops errno t bm [] 0 s = (ret, bm', log)"
    using assms(5-7) by (auto simp: parse_syscall_filter_def EINVAL_def split: if_splits)
  obtain bm2 log2 where run: "filter_loop P ops errno t bm [] 0 s =
        (if set (listed_names s) \<subseteq> set (table_names t) \<and> ((0::nat) \<noteq> 0 \<or> listed_names s \<noteq> []) then 0 else - EINVAL, bm2, log2)"
      and bits: "\<forall>n < MAX_SYSCALLS. bitmap_has ops bm2 n \<longleftrightarrow> bitmap_has ops bm n \<or>
        (\<exists>nm \<in> set (takeWhile (\<lambda>nm. nm \<in> set (table_names t)) (listed_names s)). syscall_number nm t = int n)"
    using whitelist.filter_loop_spec [OF assms(1,4,2), of P errno "[]" 0 s] by blast
  have all: "set (listed_names s) \<subseteq> set (table_names t)" "bm2 = bm'"
    using run ok assms(7) by (auto simp: EINVAL_def split: if_splits)
  then have tw: "takeWhile (\<lambda>nm. nm \<in> set (table_names t)) (listed_names s) = listed_names s"
    by (simp add: takeWhile_eq_all_conv subset_iff)
  have size: "SYSCALL_TABLE_SIZE \<le> MAX_SYSCALLS" by (simp add: SYSCALL_TABLE_SIZE_def MAX_SYSCALLS_def)
  have lookup: "(\<exists>e nm. syscall_table_lookup nr (Some t) = Some e \<and> ent_name e = Some nm \<and> nm \<in> set (listed_names s)) \<longleftrightarrow>
      0 \<le> sint nr \<and> unat nr < SYSCALL_TABLE_SIZE \<and> (\<exists>nm \<in> set (listed_names s). ent_name (t ! unat nr) = Some nm)"
    by (auto simp: syscall_table_lookup_def split: option.split)
  show ?thesis
    using bits assms(3) size unfolding lookup syscall_allowed_iff syscall_number_ok(1) [OF assms(4)] all(2) tw by auto
qed

lemma set_all_accepts:
  assumes "whitelist ops binv" "binv bm" "set_all_syscall ops errno bm = (ret, bm')"
  shows "syscall_allowed ops bm' nr = (0 \<le> sint nr \<and> unat nr < MAX_SYSCALLS)"
proof -
  have "\<forall>n < MAX_SYSCALLS. bitmap_has ops bm' n"
    using whitelist.set_all_words [OF assms(1,2), of "[0..<SYSCALL_BITMAP_WORDS]" errno] assms(3)
    by (auto simp: set_all_syscall_def header_consts)
  then show ?thesis by (auto simp: syscall_allowed_iff)
qed

text \<open>The numbers a command line asks for.\<close>

definition asked_for :: "syscall_entry_t list \<times> syscall_entry_t list \<Rightarrow> cli \<Rightarrow> s32 \<Rightarrow> bool" where
  "asked_for tables st nr \<longleftrightarrow>
     (case cli_filter st of
        None \<Rightarrow> 0 \<le> sint nr \<and> unat nr < MAX_SYSCALLS
      | Some s \<Rightarrow> \<exists>e nm. syscall_table_lookup nr (Some (if cli_enable_32 st then fst tables else snd tables)) = Some e \<and>
          ent_name e = Some nm \<and> nm \<in> set (listed_names s))"

lemma maps_as_asked:
  assumes "whitelist ops binv" "binv bm" "\<forall>n < MAX_SYSCALLS. \<not> bitmap_has ops bm n"
    and "table_ok bits32 (fst tables)" "table_ok bits64 (snd tables)"
    and "etrace_main P ops h tables bm prog oas rest = Exits rc r" "Acquire Link_enter \<in> set (r_log r)"
  shows "\<exists>st ts. parse_command_line prog oas rest = (Inr st, ts) \<and> r_config r = Some (cli_config st) \<and>
    (\<forall>nr. syscall_allowed ops (r_bitmap r) nr = asked_for tables st nr)"
proof -
  have written: "\<forall>nr. syscall_allowed ops bm' nr = asked_for tables st nr"
    if "parse_command_line prog oas rest = (Inr st, ts)" "make_whitelist P ops h tables st bm = (e, bm', ls)" "0 \<le> e" for st ts e bm' ls
  proof -
    have "table_ok (if cli_enable_32 st then bits32 else bits64) (if cli_enable_32 st then fst tables else snd tables)"
      using assms(4,5) by simp
    with accepted_ok [OF that(1)] that(2,3) show ?thesis
      using filter_accepts [OF assms(1-3), of _ _ "cli_enable_32 st" tables] set_all_accepts [OF assms(1,2)]
      by (auto simp: make_whitelist_def asked_for_def cli_ok_def split: if_splits prod.splits option.splits)
  qed
  from assms(6) show ?thesis
  proof (cases rule: main_cases)
    case (failed st ts r0)
    then have "Acquire Link_enter \<in> set (r_log r0)" using assms(7) cleanup_log(1) [of r0] by (auto simp: setup_ok_def)
    from setup_written [OF failed(2) _ this] failed(1,4) written show ?thesis by fastforce
  next
    case (polled st ts r0 r1)
    then have "Acquire Link_enter \<in> set (r_log r0)" by (simp add: setup_ok_def plan_def)
    from setup_written [OF polled(2) _ this] polled(1,5) poll_loop_keeps [OF polled(4)] written show ?thesis by fastforce
  qed (use assms(7) in simp_all)
qed

text \<open>
  Claim C13. Once the entry probe is attached, the maps of the BPF program hold the configuration of
  the command line, and the whitelist test of the BPF program accepts exactly the system calls the
  command line names, or all of them when it names none.
\<close>

theorem probes_see_configuration:
  assumes "whitelist ops binv" "binv bm" "\<forall>n < MAX_SYSCALLS. \<not> bitmap_has ops bm n"
    and "table_ok bits32 (fst tables)" "table_ok bits64 (snd tables)"
    and "etrace_main P ops h tables bm prog oas rest = Exits rc r" "Acquire Link_enter \<in> set (r_log r)"
  shows "\<exists>st ts. parse_command_line prog oas rest = (Inr st, ts) \<and> r_config r = Some (cli_config st) \<and>
    (\<forall>nr. syscall_allowed ops (r_bitmap r) nr = asked_for tables st nr)"
  by (rule maps_as_asked [OF assms])

lemma probes_see_configuration_witness:
  "\<exists>r. etrace_main demo_platform kernel_maps (demo_host demo_polls) (demo_table, demo_table) (replicate 8 0)
      ''etrace'' [(CHR ''c'', ''sh'')] [] = Exits 1 r \<and> r_config r = Some (cli_config demo_cli) \<and>
    syscall_allowed kernel_maps (r_bitmap r) 63"
proof -
  obtain r where r: "etrace_main demo_platform kernel_maps (demo_host demo_polls) (demo_table, demo_table) (replicate 8 0)
      ''etrace'' [(CHR ''c'', ''sh'')] [] = Exits 1 r" "Acquire Link_enter \<in> set (r_log r)" using demo_run by blast
  have "asked_for (demo_table, demo_table) demo_cli 63"
    by (simp add: asked_for_def demo_cli_def cli_init_def MAX_SYSCALLS_def)
  with probes_see_configuration [OF wl.whitelist_axioms _ _ _ _ r] demo_table_ok demo_command_line r(1)
  show ?thesis by (auto simp: header_consts)
qed

end
