(* ===== verification/Etrace_Argv.thy ===== *)
theory Etrace_Argv
  imports Etrace_Main
begin

text \<open>
  From the words of the command line to the options: \<open>getopt(argc, argv, "p:c:e:t:hs")\<close> as the C
  library of the target documents it, and \<open>main\<close> on the words. An option word is a cluster of option
  characters, the last of which may take the rest of the word or the next word as its argument; words
  that are no options are moved behind the options, unless \<open>POSIXLY_CORRECT\<close> is set, which ends the
  options at the first of them, as \<open>--\<close> always does.
\<close>

section \<open>getopt\<close>

definition optstring :: string where "optstring = ''p:c:e:t:hs''"

text \<open>\<open>strchr\<close> in the option string, and whether a colon follows.\<close>

fun opt_in :: "string \<Rightarrow> char \<Rightarrow> bool option" where
  "opt_in [] c = None"
| "opt_in (x # xs) c = (if x = c then Some (xs \<noteq> [] \<and> hd xs = CHR '':'') else opt_in xs c)"

definition opt_takes :: "char \<Rightarrow> bool option" where
  "opt_takes c = (if c = CHR '':'' \<or> c = CHR '';'' then None else opt_in optstring c)"

text \<open>An option with its argument, or the message that goes with the result \<open>?\<close>.\<close>

datatype opt_result = Opt char string | Bad string

definition invalid_option :: "string \<Rightarrow> char \<Rightarrow> string" where
  "invalid_option prog c = prog @ '': invalid option -- '' @ [CHR 0x27, c, CHR 0x27] @ NEWLINE"

definition missing_argument :: "string \<Rightarrow> char \<Rightarrow> string" where
  "missing_argument prog c = prog @ '': option requires an argument -- '' @ [CHR 0x27, c, CHR 0x27] @ NEWLINE"

text \<open>
  The options of one cluster, and the words left for the next; none after a bad option, where \<open>main\<close>
  calls \<open>getopt\<close> no more.
\<close>

fun opt_cluster :: "string \<Rightarrow> string \<Rightarrow> string list \<Rightarrow> opt_result list \<times> string list option" where
  "opt_cluster prog [] ws = ([], Some ws)"
| "opt_cluster prog (c # cs) ws =
     (case opt_takes c of
        None \<Rightarrow> ([Bad (invalid_option prog c)], None)
      | Some False \<Rightarrow> apfst (Cons (Opt c [])) (opt_cluster prog cs ws)
      | Some True \<Rightarrow>
          if cs \<noteq> [] then ([Opt c cs], Some ws)
          else (case ws of
                  [] \<Rightarrow> ([Bad (missing_argument prog c)], None)
                | w # ws' \<Rightarrow> ([Opt c w], Some ws')))"

lemma opt_cluster_shorter: "opt_cluster prog cs ws = (os, Some ws') \<Longrightarrow> length ws' \<le> length ws"
  by (induction prog cs ws arbitrary: os rule: opt_cluster.induct)
    (auto simp: apfst_def map_prod_def split: option.splits bool.splits if_splits list.splits prod.splits)

function getopt :: "bool \<Rightarrow> string \<Rightarrow> string list \<Rightarrow> opt_result list \<times> string list" where
  "getopt posix prog [] = ([], [])"
| "getopt posix prog (w # ws) =
     (if w = ''--'' then ([], ws)
      else if w = ''-'' \<or> take 1 w \<noteq> ''-'' then
        if posix then ([], w # ws) else apsnd (Cons w) (getopt posix prog ws)
      else (case opt_cluster prog (tl w) ws of
              (os, None) \<Rightarrow> (os, [])
            | (os, Some ws') \<Rightarrow> apfst (append os) (getopt posix prog ws')))"
  by pat_completeness auto
termination
  by (relation "measure (\<lambda>(posix, prog, ws). length ws)") (auto dest: opt_cluster_shorter [OF sym])

section \<open>main on the words\<close>

text \<open>The option loop of \<open>main\<close>; a bad option is its \<open>default\<close>, after the message of \<open>getopt\<close>.\<close>

fun argv_loop :: "string \<Rightarrow> opt_result list \<Rightarrow> cli \<Rightarrow> (int + cli) \<times> string list" where
  "argv_loop prog [] st = (Inr st, [])"
| "argv_loop prog (Opt c a # os) st =
     (case cli_option prog (c, a) st of
        (Inl rc, log) \<Rightarrow> (Inl rc, log)
      | (Inr st', log) \<Rightarrow> apsnd (append log) (argv_loop prog os st'))"
| "argv_loop prog (Bad m # os) st = apsnd (Cons m) (cli_option prog (CHR ''?'', []) st)"

fun options_of :: "opt_result list \<Rightarrow> (char \<times> string) list" where
  "options_of [] = []"
| "options_of (Opt c a # os) = (c, a) # options_of os"
| "options_of (Bad m # os) = (CHR ''?'', []) # options_of os"

text \<open>When the loop ends without an error, the checks after it and the rest of \<open>main\<close> follow.\<close>

definition etrace_argv ::
  "platform \<Rightarrow> ('h, 'b) bpf_ops \<Rightarrow> host \<Rightarrow> syscall_entry_t list \<times> syscall_entry_t list \<Rightarrow> 'b \<Rightarrow>
   bool \<Rightarrow> string \<Rightarrow> string list \<Rightarrow> 'b outcome" where
  "etrace_argv P ops h tables bm posix prog ws =
     (case getopt posix prog ws of
        (os, rest) \<Rightarrow>
          (case argv_loop prog os cli_init of
             (Inl rc, ts) \<Rightarrow> Exits rc (run_start (concat ts) bm)
           | (Inr st, ts) \<Rightarrow> etrace_main P ops h tables bm prog (options_of os) rest))"

lemma argv_loop_opts: "argv_loop prog (map (\<lambda>(c, a). Opt c a) oas) st = cli_loop prog oas st"
  by (induction prog oas st rule: cli_loop.induct) (auto split: prod.splits sum.splits)

lemma options_of_opts [simp]: "options_of (map (\<lambda>(c, a). Opt c a) oas) = oas"
  by (induction oas) auto

lemma question_mark: "cli_option prog (CHR ''?'', []) st = (Inl 1, [usage prog])"
  by (simp add: cli_option_def)

lemma argv_loop_bad:
  "Bad m \<in> set os \<Longrightarrow> \<exists>rc ts. argv_loop prog os st = (Inl rc, ts) \<and> rc \<in> {0, 1}"
proof (induction prog os st rule: argv_loop.induct)
  case (2 prog c a os st)
  have rc: "rc \<in> {0, 1}" if "cli_option prog (c, a) st = (Inl rc, log)" for rc log
    using that by (auto simp: cli_option_def split: if_splits prod.splits)
  show ?case
  proof (cases "cli_option prog (c, a) st")
    case (Pair res log)
    with 2 rc show ?thesis by (cases res) (fastforce simp: apsnd_def map_prod_def)+
  qed
qed (simp_all add: question_mark)

lemma main_on_options:
  assumes "getopt posix prog ws = (map (\<lambda>(c, a). Opt c a) oas, rest)"
  shows "etrace_argv P ops h tables bm posix prog ws = etrace_main P ops h tables bm prog oas rest"
proof (cases "cli_loop prog oas cli_init")
  case (Pair res ts)
  then show ?thesis
    using assms
    by (cases res) (simp_all add: etrace_argv_def argv_loop_opts etrace_main_def parse_command_line_def)
qed

lemma argv_main:
  assumes "etrace_argv P ops h tables bm posix prog ws = Exits rc r" "getopt posix prog ws = (os, rest)" "r_log r \<noteq> []"
  shows "etrace_main P ops h tables bm prog (options_of os) rest = Exits rc r"
  using assms by (auto simp: etrace_argv_def run_start_def split: prod.splits sum.splits)

section \<open>Spellings\<close>

text \<open>The ways to write a list of options: an argument in its own word or joined, flags in clusters.\<close>

inductive spells :: "(char \<times> string) list \<Rightarrow> string list \<Rightarrow> bool" where
  spell_none: "spells [] []"
| spell_apart: "opt_takes c = Some True \<Longrightarrow> spells oas ws \<Longrightarrow> spells ((c, a) # oas) ([CHR ''-'', c] # a # ws)"
| spell_joined: "opt_takes c = Some True \<Longrightarrow> a \<noteq> [] \<Longrightarrow> spells oas ws \<Longrightarrow> spells ((c, a) # oas) ((CHR ''-'' # c # a) # ws)"
| spell_flag: "opt_takes c = Some False \<Longrightarrow> spells oas ws \<Longrightarrow> spells ((c, []) # oas) ([CHR ''-'', c] # ws)"
| spell_cluster: "opt_takes c = Some False \<Longrightarrow> spells oas ((CHR ''-'' # cs) # ws) \<Longrightarrow>
    spells ((c, []) # oas) ((CHR ''-'' # c # cs) # ws)"

lemma dash_no_option: "opt_takes (CHR ''-'') = None"
  by (simp add: opt_takes_def optstring_def)

lemma option_word:
  assumes "opt_takes c = Some b"
  shows "getopt posix prog ((CHR ''-'' # c # cs) # ws) =
    (case opt_cluster prog (c # cs) ws of
       (os, None) \<Rightarrow> (os, []) | (os, Some ws') \<Rightarrow> apfst (append os) (getopt posix prog ws'))"
proof -
  have "c \<noteq> CHR ''-''" using assms dash_no_option by auto
  then show ?thesis by simp
qed

lemma cluster_word:
  assumes "opt_takes c = Some False" "opt_takes d = Some b"
  shows "getopt posix prog ((CHR ''-'' # c # d # ds) # ws) = apfst (Cons (Opt c [])) (getopt posix prog ((CHR ''-'' # d # ds) # ws))"
proof -
  have "opt_cluster prog (c # d # ds) ws = apfst (Cons (Opt c [])) (opt_cluster prog (d # ds) ws)"
    using assms(1) by (simp only: opt_cluster.simps option.case bool.case)
  then show ?thesis
    unfolding option_word [OF assms(1)] option_word [OF assms(2)]
    by (cases "opt_cluster prog (d # ds) ws") (auto simp: apfst_def map_prod_def split: option.split prod.split)
qed

lemma spells_getopt:
  "spells oas ws \<Longrightarrow> getopt posix prog (ws @ ts) =
    (case getopt posix prog ts of (os, rest) \<Rightarrow> (map (\<lambda>(c, a). Opt c a) oas @ os, rest))"
proof (induction rule: spells.induct)
  case (spell_cluster c oas cs ws)
  obtain d ds b where cs: "cs = d # ds" "opt_takes d = Some b"
    using spell_cluster.hyps(2) by (cases rule: spells.cases) auto
  from spell_cluster.IH cluster_word [OF spell_cluster.hyps(1) cs(2), of posix prog ds "ws @ ts"] cs(1)
  show ?case by (auto simp: apfst_def map_prod_def split: prod.splits)
qed (auto simp: option_word dash_no_option apfst_def map_prod_def split: prod.splits)

text \<open>
  Conversely, when \<open>getopt\<close> moves no words, what it reads without a bad option was spelled so.
\<close>

lemma opt_cluster_spells:
  assumes "opt_cluster prog cs ws = (map (\<lambda>(c, a). Opt c a) oas, Some ws')" "cs \<noteq> []" "spells oas' us" "ws' = us @ ts"
  shows "\<exists>vs. ws = vs @ ts \<and> spells (oas @ oas') ((CHR ''-'' # cs) # vs)"
  using assms
proof (induction prog cs ws arbitrary: oas rule: opt_cluster.induct)
  case (2 prog c cs ws)
  show ?case
  proof (cases "opt_takes c")
    case None
    with 2(2) show ?thesis by (auto simp: map_eq_Cons_conv Cons_eq_map_conv)
  next
    case (Some b)
    show ?thesis
    proof (cases b)
      case True
      show ?thesis
      proof (cases "cs = []")
        case True': True
        with 2(2) Some True obtain w where "ws = w # ws'" "oas = [(c, w)]"
          by (cases ws) (auto simp: Cons_eq_map_conv)
        with 2(4,5) Some True True' show ?thesis
          by (intro exI [of _ "w # us"]) (simp add: spell_apart)
      next
        case False
        with 2(2) Some True have "ws = ws'" "oas = [(c, cs)]" by (auto simp: Cons_eq_map_conv)
        with 2(4,5) Some True False show ?thesis
          by (intro exI [of _ us]) (simp add: spell_joined)
      qed
    next
      case False
      with 2(2) Some obtain oas1 where o: "oas = (c, []) # oas1" "opt_cluster prog cs ws = (map (\<lambda>(c, a). Opt c a) oas1, Some ws')"
        by (cases "opt_cluster prog cs ws") (auto simp: apfst_def map_prod_def Cons_eq_map_conv)
      show ?thesis
      proof (cases "cs = []")
        case True
        with o have "oas1 = []" "ws = ws'" by simp_all
        with 2(4,5) Some False True o(1) show ?thesis
          by (intro exI [of _ us]) (simp add: spell_flag)
      next
        case nonempty: False
        from 2(1) [OF _ _ o(2) nonempty 2(4,5)] Some False
        obtain vs where "ws = vs @ ts" "spells (oas1 @ oas') ((CHR ''-'' # cs) # vs)" by auto
        with Some False o(1) show ?thesis by (intro exI [of _ vs]) (simp add: spell_cluster)
      qed
    qed
  qed
qed simp

lemma opt_cluster_None: "opt_cluster prog cs ws = (os, None) \<Longrightarrow> \<exists>m. Bad m \<in> set os"
  by (induction prog cs ws arbitrary: os rule: opt_cluster.induct)
    (auto simp: apfst_def map_prod_def split: option.splits bool.splits if_splits list.splits prod.splits)

lemma getopt_spells:
  "getopt True prog ws = (map (\<lambda>(c, a). Opt c a) oas, rest) \<Longrightarrow>
    \<exists>us ts. ws = us @ ts \<and> spells oas us \<and> (ts = rest \<or> ts = ''--'' # rest)"
proof (induction ws arbitrary: oas rule: length_induct)
  case (1 ws)
  consider "ws = []" | w vs where "ws = w # vs" "w = ''--'' \<or> w = ''-'' \<or> take 1 w \<noteq> ''-''"
    | c cs vs where "ws = (CHR ''-'' # c # cs) # vs" "CHR ''-'' # c # cs \<noteq> ''--''"
  proof (cases ws)
    case (Cons w vs)
    then show thesis using that(2,3) by (cases w; cases "tl w") auto
  qed (use that in simp)
  then show ?case
  proof cases
    case 3
    note word = 3(1)
    obtain os x where cl: "opt_cluster prog (c # cs) vs = (os, x)" by (cases "opt_cluster prog (c # cs) vs")
    have g: "getopt True prog ws = (case x of None \<Rightarrow> (os, []) | Some ws' \<Rightarrow> apfst (append os) (getopt True prog ws'))"
      using 3(2) unfolding word by (simp only: getopt.simps cl list.sel) (simp split: option.split)
    show ?thesis
    proof (cases x)
      case None
      with opt_cluster_None cl obtain m where "Bad m \<in> set os" by blast
      with g None 1(2) show ?thesis by auto
    next
      case (Some ws')
      obtain os2 r2 where g2: "getopt True prog ws' = (os2, r2)" by (cases "getopt True prog ws'")
      with g Some 1(2) have "map (\<lambda>(c, a). Opt c a) oas = os @ os2" "r2 = rest" by simp_all
      then obtain oas1 oas2 where o: "oas = oas1 @ oas2" "os = map (\<lambda>(c, a). Opt c a) oas1" "os2 = map (\<lambda>(c, a). Opt c a) oas2"
        by (auto simp: map_eq_append_conv)
      have "length ws' < length ws" using opt_cluster_shorter cl Some word by fastforce
      with 1(1) g2 o(3) \<open>r2 = rest\<close> obtain us ts where u: "ws' = us @ ts" "spells oas2 us" "ts = rest \<or> ts = ''--'' # rest"
        by blast
      from opt_cluster_spells [OF cl [unfolded Some o(2)] _ u(2,1)]
      obtain us' where "vs = us' @ ts" "spells (oas1 @ oas2) ((CHR ''-'' # c # cs) # us')" by auto
      with word o(1) u(3) show ?thesis
        by (intro exI [of _ "(CHR ''-'' # c # cs) # us'"] exI [of _ ts]) simp
    qed
  qed (use 1(2) in \<open>auto intro: spell_none split: if_splits\<close>)
qed

text \<open>
  Claim C23. However a list of options is spelled on the command line, \<open>main\<close> gets that list: with
  arguments in their own words or joined to the option, with flags clustered, and with \<open>--\<close> before the
  operands or not. So what is proved of \<open>main\<close> on lists of options holds of the program as it is called.
\<close>

theorem argv_spelled:
  assumes "spells oas ws" "(ts, rest) = ([], []) \<or> ts = ''--'' # rest"
  shows "getopt posix prog (ws @ ts) = (map (\<lambda>(c, a). Opt c a) oas, rest) \<and>
    etrace_argv P ops h tables bm posix prog (ws @ ts) = etrace_main P ops h tables bm prog oas rest"
proof -
  have "getopt posix prog ts = ([], rest)" using assms(2) by auto
  with spells_getopt [OF assms(1), of posix prog ts]
  have "getopt posix prog (ws @ ts) = (map (\<lambda>(c, a). Opt c a) oas, rest)" by simp
  with main_on_options [OF this] show ?thesis by simp
qed

lemma argv_spelled_witness:
  "etrace_argv demo_platform kernel_maps (demo_host demo_polls) (demo_table, demo_table) (replicate 8 0) False ''etrace''
      [''-sc'', ''sh'', ''-eread'', ''--''] =
    etrace_main demo_platform kernel_maps (demo_host demo_polls) (demo_table, demo_table) (replicate 8 0) ''etrace''
      [(CHR ''s'', []), (CHR ''c'', ''sh''), (CHR ''e'', ''read'')] []"
proof -
  have t: "opt_takes (CHR ''s'') = Some False" "opt_takes (CHR ''c'') = Some True" "opt_takes (CHR ''e'') = Some True"
    by (simp_all add: opt_takes_def optstring_def)
  have "spells [(CHR ''s'', []), (CHR ''c'', ''sh''), (CHR ''e'', ''read'')] [''-sc'', ''sh'', ''-eread'']"
    by (intro spell_cluster spell_apart spell_joined spell_none t) simp
  from conjunct2 [OF argv_spelled [OF this, of "[''--'']" "[]"]] show ?thesis by simp
qed

text \<open>
  An unknown option, or one whose argument is missing, ends the program before it has done anything:
  with status 1, or with the status of an earlier option that ends it.
\<close>

theorem argv_bad:
  assumes "getopt posix prog ws = (os, rest)" "Bad m \<in> set os"
  shows "\<exists>rc ts. etrace_argv P ops h tables bm posix prog ws = Exits rc (run_start ts bm) \<and> rc \<in> {0, 1}"
  using argv_loop_bad [OF assms(2), of prog cli_init] assms(1) by (auto simp: etrace_argv_def)

end
