(* ===== verification/Bpf_Smp.thy ===== *)
theory Bpf_Smp
  imports Bpf_Trace "HOL-Library.Sublist"
begin

text \<open>
  The handlers of \<open>src/mini_etrace.bpf.c\<close> on several CPUs. \<open>Bpf_Trace\<close> runs a handler in one step;
  here it is a sequence of accesses to the maps, between which handlers on other CPUs make theirs.
  A CPU runs one handler at a time and a thread is in one handler at a time, which are the guards
  of starting one. Every interleaving ends in the maps and the rings of a sequential history that
  keeps the order of the handlers of each thread and of each CPU, so what is proved of histories
  holds on a machine with many CPUs; and a handler never uses an entry after another has freed it.
\<close>

section \<open>Handlers in progress\<close>

text \<open>The next access a handler makes to the maps: of \<open>trace_enter\<close> two, of \<open>trace_exit\<close> four.\<close>

datatype handler =
  Enter_begin tp_env sys_enter_ctx
| Enter_update tp_env sys_enter_ctx
| Exit_lookup tp_env sys_exit_ctx
| Exit_fill tp_env sys_exit_ctx
| Exit_output tp_env sys_exit_ctx
| Exit_delete tp_env sys_exit_ctx

fun handler_call :: "handler \<Rightarrow> tp_call" where
  "handler_call (Enter_begin env ctx) = Enter env ctx"
| "handler_call (Enter_update env ctx) = Enter env ctx"
| "handler_call (Exit_lookup env ctx') = Exit env ctx'"
| "handler_call (Exit_fill env ctx') = Exit env ctx'"
| "handler_call (Exit_output env ctx') = Exit env ctx'"
| "handler_call (Exit_delete env ctx') = Exit env ctx'"

fun first_access :: "tp_call \<Rightarrow> handler" where
  "first_access (Enter env ctx) = Enter_begin env ctx"
| "first_access (Exit env ctx') = Exit_lookup env ctx'"

fun call_cpu :: "tp_call \<Rightarrow> nat" where
  "call_cpu (Enter env ctx) = tp_cpu env"
| "call_cpu (Exit env ctx') = tp_cpu env"

text \<open>The maps, a perf ring per CPU, and the handler each CPU is in.\<close>

record ('h, 'b) smp_state = "('h, 'b) bpf_maps" +
  sm_ring :: "nat \<Rightarrow> syscall_event list"
  sm_running :: "nat \<Rightarrow> handler option"

definition leave_cpu :: "nat \<Rightarrow> ('h, 'b) smp_state \<Rightarrow> ('h, 'b) smp_state" where
  "leave_cpu cpu s = s\<lparr>sm_running := (sm_running s)(cpu := None)\<rparr>"

definition go :: "nat \<Rightarrow> handler \<Rightarrow> ('h, 'b) smp_state \<Rightarrow> ('h, 'b) smp_state" where
  "go cpu hn s = s\<lparr>sm_running := (sm_running s)(cpu \<mapsto> hn)\<rparr>"

text \<open>
  One access. \<open>None\<close> is the use of a pointer into a map whose element is gone: \<open>in\<close> points to the
  entry that \<open>Exit_lookup\<close> found, and \<open>data\<close> and \<open>event\<close> to the slots of the CPU.
\<close>

fun access :: "('h, 'b) bpf_ops \<Rightarrow> handler \<Rightarrow> ('h, 'b) smp_state \<Rightarrow> ('h, 'b) smp_state option" where
  "access ops (Enter_begin env ctx) s =
     (case st_config s of None \<Rightarrow> Some (leave_cpu (tp_cpu env) s)
      | Some cfg \<Rightarrow>
          if \<not> wanted ops cfg (st_bitmap s) env ctx then Some (leave_cpu (tp_cpu env) s)
          else
            (case st_in s (tp_cpu env) of None \<Rightarrow> Some (leave_cpu (tp_cpu env) s)
             | Some data0 \<Rightarrow>
                 Some (go (tp_cpu env) (Enter_update env ctx)
                   (s\<lparr>st_in := (st_in s)(tp_cpu env \<mapsto> fill_data cfg env ctx data0)\<rparr>))))"
| "access ops (Enter_update env ctx) s =
     (case st_in s (tp_cpu env) of None \<Rightarrow> None
      | Some data \<Rightarrow>
          (case inflight_update ops (st_inflight s) (tp_pid_tgid env) data of
             None \<Rightarrow> Some (leave_cpu (tp_cpu env) s)
           | Some h \<Rightarrow> Some (leave_cpu (tp_cpu env) (s\<lparr>st_inflight := h\<rparr>))))"
| "access ops (Exit_lookup env ctx') s =
     (case inflight_lookup ops (st_inflight s) (tp_pid_tgid env) of
        None \<Rightarrow> Some (leave_cpu (tp_cpu env) s)
      | Some i \<Rightarrow> Some (go (tp_cpu env) (Exit_fill env ctx') s))"
| "access ops (Exit_fill env ctx') s =
     (case st_event s (tp_cpu env) of None \<Rightarrow> Some (leave_cpu (tp_cpu env) s)
      | Some event0 \<Rightarrow>
          (case st_config s of None \<Rightarrow> Some (leave_cpu (tp_cpu env) s)
           | Some cfg \<Rightarrow>
               (case inflight_lookup ops (st_inflight s) (tp_pid_tgid env) of
                  None \<Rightarrow> None
                | Some i \<Rightarrow>
                    Some (go (tp_cpu env) (Exit_output env ctx')
                      (s\<lparr>st_event := (st_event s)(tp_cpu env \<mapsto> fill_event cfg env ctx' i event0)\<rparr>)))))"
| "access ops (Exit_output env ctx') s =
     (case st_event s (tp_cpu env) of None \<Rightarrow> None
      | Some event \<Rightarrow>
          Some (go (tp_cpu env) (Exit_delete env ctx')
            (s\<lparr>sm_ring := (sm_ring s)(tp_cpu env := perf_event_output env event (sm_ring s (tp_cpu env)))\<rparr>)))"
| "access ops (Exit_delete env ctx') s =
     Some (leave_cpu (tp_cpu env) (s\<lparr>st_inflight := inflight_delete ops (st_inflight s) (tp_pid_tgid env)\<rparr>))"

section \<open>Interleavings\<close>

datatype smp_move = Start tp_call | Run nat

inductive smp_step :: "('h, 'b) bpf_ops \<Rightarrow> ('h, 'b) smp_state \<Rightarrow> smp_move \<Rightarrow> ('h, 'b) smp_state \<Rightarrow> bool"
  for ops where
  step_start: "sm_running s (call_cpu c) = None \<Longrightarrow>
    (\<And>cpu hn. sm_running s cpu = Some hn \<Longrightarrow> call_key (handler_call hn) \<noteq> call_key c) \<Longrightarrow>
    smp_step ops s (Start c) (go (call_cpu c) (first_access c) s)"
| step_run: "sm_running s cpu = Some hn \<Longrightarrow> access ops hn s = Some s' \<Longrightarrow> smp_step ops s (Run cpu) s'"

inductive smp_steps :: "('h, 'b) bpf_ops \<Rightarrow> ('h, 'b) smp_state \<Rightarrow> smp_move list \<Rightarrow> ('h, 'b) smp_state \<Rightarrow> bool"
  for ops where
  smp_none: "smp_steps ops s [] s"
| smp_snoc: "smp_steps ops s ms s' \<Longrightarrow> smp_step ops s' m s'' \<Longrightarrow> smp_steps ops s (ms @ [m]) s''"

lemma smp_steps_Nil [simp]: "smp_steps ops s [] s' \<longleftrightarrow> s' = s"
  by (auto intro: smp_none elim: smp_steps.cases)

lemma smp_steps_Cons: "smp_steps ops s (m # ms) s'' \<longleftrightarrow> (\<exists>s'. smp_step ops s m s' \<and> smp_steps ops s' ms s'')"
proof
  have "smp_steps ops s ns s'' \<Longrightarrow> ns = m # ms \<Longrightarrow> \<exists>s'. smp_step ops s m s' \<and> smp_steps ops s' ms s''" for ns
  proof (induction arbitrary: ms rule: smp_steps.induct)
    case (smp_snoc s ns s' n s'')
    then show ?case by (cases ms rule: rev_cases) (auto intro: smp_steps.smp_snoc)
  qed simp
  then show "smp_steps ops s (m # ms) s'' \<Longrightarrow> \<exists>s'. smp_step ops s m s' \<and> smp_steps ops s' ms s''" by blast
  have "smp_steps ops s' ms s'' \<Longrightarrow> smp_step ops s m s' \<Longrightarrow> smp_steps ops s (m # ms) s''" for s'
  proof (induction rule: smp_steps.induct)
    case (smp_none s')
    then show ?case using smp_steps.smp_snoc [OF smp_steps.smp_none, of ops s m s'] by simp
  next
    case (smp_snoc s' ms t n u)
    then show ?case using smp_steps.smp_snoc [of ops s "m # ms" t n u] by simp
  qed
  then show "\<exists>s'. smp_step ops s m s' \<and> smp_steps ops s' ms s'' \<Longrightarrow> smp_steps ops s (m # ms) s''" by blast
qed

inductive_simps smp_step_simps: "smp_step ops s (Start c) s'" "smp_step ops s (Run cpu) s'"

definition smp_init :: "trace_config \<Rightarrow> 'b \<Rightarrow> 'h \<Rightarrow> ('h, 'b) smp_state" where
  "smp_init cfg bm h = \<lparr>st_config = Some cfg, st_bitmap = bm, st_inflight = h,
     st_in = (\<lambda>_. Some zero_inflight), st_event = (\<lambda>_. Some zero_event), sm_ring = (\<lambda>_. []), sm_running = (\<lambda>_. None)\<rparr>"

fun started :: "smp_move list \<Rightarrow> tp_call list" where
  "started [] = []"
| "started (Start c # ms) = c # started ms"
| "started (Run cpu # ms) = started ms"

lemma started_append [simp]: "started (ms @ ns) = started ms @ started ns"
  by (induction ms rule: started.induct) auto

text \<open>What the handlers of one CPU send in a sequential history.\<close>

fun sent_on :: "('h, 'b) bpf_ops \<Rightarrow> nat \<Rightarrow> tp_call list \<Rightarrow> ('h, 'b) bpf_state \<Rightarrow> syscall_event list" where
  "sent_on ops cpu [] s = []"
| "sent_on ops cpu (c # cs) s =
     (if call_cpu c = cpu then drop (length (st_output s)) (st_output (tp_run1 ops c s)) else []) @
     sent_on ops cpu cs (tp_run1 ops c s)"

lemma sent_on_snoc:
  "sent_on ops cpu (cs @ [c]) s = sent_on ops cpu cs s @
     (if call_cpu c = cpu then drop (length (st_output (tp_run ops cs s))) (st_output (tp_run ops (cs @ [c]) s)) else [])"
  by (induction cs arbitrary: s) auto

section \<open>The sequential history of an interleaving\<close>

text \<open>
  A handler takes its place in the history with its last access: until then the map \<open>inflight\<close> is
  as if it had not run, and only its own CPU's slots and ring are ahead.
\<close>

definition same_slots :: "('h, 'b) smp_state \<Rightarrow> ('h, 'b) bpf_state \<Rightarrow> nat \<Rightarrow> bool" where
  "same_slots s a cpu \<longleftrightarrow> st_in s cpu = st_in a cpu \<and> st_event s cpu = st_event a cpu"

fun ahead ::
  "('h, 'b) bpf_ops \<Rightarrow> trace_config \<Rightarrow> ('h, 'b) smp_state \<Rightarrow> ('h, 'b) bpf_state \<Rightarrow> syscall_event list \<Rightarrow> nat \<Rightarrow>
    handler option \<Rightarrow> bool" where
  "ahead ops cfg s a sent cpu None = (same_slots s a cpu \<and> sm_ring s cpu = sent)"
| "ahead ops cfg s a sent cpu (Some (Enter_begin env ctx)) =
     (tp_cpu env = cpu \<and> same_slots s a cpu \<and> sm_ring s cpu = sent)"
| "ahead ops cfg s a sent cpu (Some (Enter_update env ctx)) =
     (tp_cpu env = cpu \<and> wanted ops cfg (st_bitmap s) env ctx \<and> st_event s cpu = st_event a cpu \<and> sm_ring s cpu = sent \<and>
      (\<exists>d. st_in a cpu = Some d \<and> st_in s cpu = Some (fill_data cfg env ctx d)))"
| "ahead ops cfg s a sent cpu (Some (Exit_lookup env ctx')) =
     (tp_cpu env = cpu \<and> same_slots s a cpu \<and> sm_ring s cpu = sent)"
| "ahead ops cfg s a sent cpu (Some (Exit_fill env ctx')) =
     (tp_cpu env = cpu \<and> same_slots s a cpu \<and> sm_ring s cpu = sent \<and>
      inflight_lookup ops (st_inflight s) (tp_pid_tgid env) \<noteq> None)"
| "ahead ops cfg s a sent cpu (Some (Exit_output env ctx')) =
     (tp_cpu env = cpu \<and> st_in s cpu = st_in a cpu \<and> sm_ring s cpu = sent \<and>
      (\<exists>i e. inflight_lookup ops (st_inflight s) (tp_pid_tgid env) = Some i \<and> st_event a cpu = Some e \<and>
         st_event s cpu = Some (fill_event cfg env ctx' i e)))"
| "ahead ops cfg s a sent cpu (Some (Exit_delete env ctx')) =
     (tp_cpu env = cpu \<and> st_in s cpu = st_in a cpu \<and>
      (\<exists>i e. inflight_lookup ops (st_inflight s) (tp_pid_tgid env) = Some i \<and> st_event a cpu = Some e \<and>
         st_event s cpu = Some (fill_event cfg env ctx' i e) \<and>
         sm_ring s cpu = perf_event_output env (fill_event cfg env ctx' i e) sent))"

text \<open>The handlers in progress are those started and not yet in the history.\<close>

definition in_call :: "('h, 'b) smp_state \<Rightarrow> nat \<Rightarrow> tp_call option" where
  "in_call s cpu = map_option handler_call (sm_running s cpu)"

definition of_thread :: "u64 \<Rightarrow> tp_call list \<Rightarrow> tp_call list" where
  "of_thread k = filter (\<lambda>c. call_key c = k)"

definition of_cpu :: "nat \<Rightarrow> tp_call list \<Rightarrow> tp_call list" where
  "of_cpu cpu = filter (\<lambda>c. call_cpu c = cpu)"

definition alone :: "(nat \<Rightarrow> tp_call option) \<Rightarrow> bool" where
  "alone r \<longleftrightarrow> (\<forall>i j c d. r i = Some c \<longrightarrow> r j = Some d \<longrightarrow> call_key c = call_key d \<longrightarrow> i = j)"

definition thread_order :: "(nat \<Rightarrow> tp_call option) \<Rightarrow> tp_call list \<Rightarrow> tp_call list \<Rightarrow> bool" where
  "thread_order r cs st \<longleftrightarrow>
     (\<forall>k. of_thread k st = of_thread k cs \<and> (\<forall>i c. r i = Some c \<longrightarrow> call_key c \<noteq> k) \<or>
        (\<exists>i c. r i = Some c \<and> call_key c = k \<and> of_thread k st = of_thread k cs @ [c]))"

definition cpu_order :: "(nat \<Rightarrow> tp_call option) \<Rightarrow> tp_call list \<Rightarrow> tp_call list \<Rightarrow> bool" where
  "cpu_order r cs st \<longleftrightarrow>
     (\<forall>cpu. of_cpu cpu st = of_cpu cpu cs @ (case r cpu of None \<Rightarrow> [] | Some c \<Rightarrow> [c]))"

lemma of_simps [simp]:
  "of_thread k (xs @ ys) = of_thread k xs @ of_thread k ys" "of_thread k [c] = (if call_key c = k then [c] else [])"
  "of_cpu n (xs @ ys) = of_cpu n xs @ of_cpu n ys" "of_cpu n [c] = (if call_cpu c = n then [c] else [])"
  "of_thread k [] = []" "of_cpu n [] = []"
  by (simp_all add: of_thread_def of_cpu_def)

lemma alone_start: "alone r \<Longrightarrow> \<forall>i d. r i = Some d \<longrightarrow> call_key d \<noteq> call_key c \<Longrightarrow> alone (r(n \<mapsto> c))"
  unfolding alone_def by (metis fun_upd_apply option.inject)

lemma alone_finish: "alone r \<Longrightarrow> alone (r(n := None))"
  by (simp add: alone_def)

lemma cpu_order_start: "cpu_order r cs st \<Longrightarrow> r n = None \<Longrightarrow> call_cpu c = n \<Longrightarrow> cpu_order (r(n \<mapsto> c)) cs (st @ [c])"
  by (simp add: cpu_order_def)

lemma cpu_order_finish: "cpu_order r cs st \<Longrightarrow> r n = Some c \<Longrightarrow> call_cpu c = n \<Longrightarrow> cpu_order (r(n := None)) (cs @ [c]) st"
  by (simp add: cpu_order_def)

lemma thread_order_start:
  assumes "thread_order r cs st" "r n = None" "\<forall>i d. r i = Some d \<longrightarrow> call_key d \<noteq> call_key c"
  shows "thread_order (r(n \<mapsto> c)) cs (st @ [c])"
  unfolding thread_order_def
proof
  fix k
  from assms(1) consider
      "of_thread k st = of_thread k cs" "\<forall>i d. r i = Some d \<longrightarrow> call_key d \<noteq> k"
    | i d where "r i = Some d" "call_key d = k" "of_thread k st = of_thread k cs @ [d]"
    unfolding thread_order_def by meson
  then show "of_thread k (st @ [c]) = of_thread k cs \<and> (\<forall>i d. (r(n \<mapsto> c)) i = Some d \<longrightarrow> call_key d \<noteq> k) \<or>
      (\<exists>i d. (r(n \<mapsto> c)) i = Some d \<and> call_key d = k \<and> of_thread k (st @ [c]) = of_thread k cs @ [d])"
  proof cases
    case 1
    then show ?thesis by (cases "call_key c = k") auto
  next
    case 2
    have "call_key c \<noteq> k" using 2(1,2) assms(3) by metis
    moreover have "i \<noteq> n" using 2(1) assms(2) by auto
    ultimately    show ?thesis using 2 by (intro disjI2 exI [of _ i] exI [of _ d]) simp
  qed
qed

lemma thread_order_finish:
  assumes "thread_order r cs st" "r n = Some c" "alone r"
  shows "thread_order (r(n := None)) (cs @ [c]) st"
  unfolding thread_order_def
proof
  fix k
  from assms(1) consider
      "of_thread k st = of_thread k cs" "\<forall>i d. r i = Some d \<longrightarrow> call_key d \<noteq> k"
    | i d where "r i = Some d" "call_key d = k" "of_thread k st = of_thread k cs @ [d]"
    unfolding thread_order_def by meson
  then show "of_thread k st = of_thread k (cs @ [c]) \<and> (\<forall>i d. (r(n := None)) i = Some d \<longrightarrow> call_key d \<noteq> k) \<or>
      (\<exists>i d. (r(n := None)) i = Some d \<and> call_key d = k \<and> of_thread k st = of_thread k (cs @ [c]) @ [d])"
  proof cases
    case 1
    with assms(2) show ?thesis by simp
  next
    case 2
    show ?thesis
    proof (cases "i = n")
      case True
      then have "d = c" using 2(1) assms(2) by simp
      moreover have "call_key e \<noteq> k" if "(r(n := None)) j = Some e" for j e
        using that assms(2,3) 2(2) \<open>d = c\<close> unfolding alone_def by (metis fun_upd_apply option.discI)
      ultimately show ?thesis using 2 by auto
    next
      case False
      have "call_key c \<noteq> k" using 2(1,2) assms(2,3) False unfolding alone_def by metis
      with 2 False show ?thesis by (intro disjI2 exI [of _ i] exI [of _ d]) simp
    qed
  qed
qed

definition follows ::
  "('h, 'b) bpf_ops \<Rightarrow> ('h \<Rightarrow> bool) \<Rightarrow> trace_config \<Rightarrow> 'b \<Rightarrow> 'h \<Rightarrow> ('h, 'b) smp_state \<Rightarrow> tp_call list \<Rightarrow> tp_call list \<Rightarrow> bool" where
  "follows ops hinv cfg bm h s cs st \<longleftrightarrow>
     (let a = tp_run ops cs (bpf_init cfg bm h)
      in st_config s = Some cfg \<and> st_bitmap s = bm \<and> st_inflight s = st_inflight a \<and> hinv (st_inflight a) \<and>
         (\<forall>cpu. ahead ops cfg s a (sent_on ops cpu cs (bpf_init cfg bm h)) cpu (sm_running s cpu)) \<and>
         alone (in_call s) \<and> thread_order (in_call s) cs st \<and> cpu_order (in_call s) cs st)"

lemma ahead_cong:
  assumes "st_in s' j = st_in s j" "st_event s' j = st_event s j" "sm_ring s' j = sm_ring s j"
    and "st_bitmap s' = st_bitmap s" "st_in a' j = st_in a j" "st_event a' j = st_event a j"
    and "\<And>hn. x = Some hn \<Longrightarrow> inflight_lookup ops (st_inflight s') (call_key (handler_call hn)) =
      inflight_lookup ops (st_inflight s) (call_key (handler_call hn))"
  shows "ahead ops cfg s' a' sent j x = ahead ops cfg s a sent j x"
  using assms by (cases "(ops, cfg, s, a, sent, j, x)" rule: ahead.cases) (auto simp: same_slots_def)

lemma ahead_cpu: "ahead ops cfg s a sent j (Some hn) \<Longrightarrow> call_cpu (handler_call hn) = j"
  by (cases hn) auto

lemma other_cpu:
  "j \<noteq> call_cpu c \<Longrightarrow> st_in (tp_run1 ops c a) j = st_in a j \<and> st_event (tp_run1 ops c a) j = st_event a j"
  by (cases c) (auto simp: trace_enter_def trace_exit_def Let_def split: option.split)

lemma in_call_upd:
  "sm_running s' = (sm_running s)(cpu := None) \<Longrightarrow> in_call s' = (in_call s)(cpu := None)"
  "sm_running s' = (sm_running s)(cpu \<mapsto> hn) \<Longrightarrow> in_call s' = (in_call s)(cpu \<mapsto> handler_call hn)"
  by (auto simp: in_call_def fun_eq_iff)

text \<open>What an access of one CPU leaves alone.\<close>

definition touches_only :: "nat \<Rightarrow> ('h, 'b) smp_state \<Rightarrow> ('h, 'b) smp_state \<Rightarrow> bool" where
  "touches_only cpu s s' \<longleftrightarrow> st_config s' = st_config s \<and> st_bitmap s' = st_bitmap s \<and>
     (\<forall>j. j \<noteq> cpu \<longrightarrow> st_in s' j = st_in s j \<and> st_event s' j = st_event s j \<and> sm_ring s' j = sm_ring s j)"

lemma follows_advance:
  assumes "follows ops hinv cfg bm h s cs st" "sm_running s cpu = Some hn" "handler_call hn' = handler_call hn"
    and "sm_running s' = (sm_running s)(cpu \<mapsto> hn')" "touches_only cpu s s'" "st_inflight s' = st_inflight s"
    and "ahead ops cfg s' (tp_run ops cs (bpf_init cfg bm h)) (sent_on ops cpu cs (bpf_init cfg bm h)) cpu (Some hn')"
  shows "follows ops hinv cfg bm h s' cs st"
proof -
  have "in_call s' = in_call s"
    using assms(2-4) by (auto simp: in_call_def fun_eq_iff)
  moreover have "ahead ops cfg s' (tp_run ops cs (bpf_init cfg bm h)) (sent_on ops j cs (bpf_init cfg bm h)) j (sm_running s' j)" for j
  proof (cases "j = cpu")
    case True
    with assms(4,7) show ?thesis by simp
  next
    case False
    with assms(5,6) have "ahead ops cfg s' (tp_run ops cs (bpf_init cfg bm h)) t j x =
        ahead ops cfg s (tp_run ops cs (bpf_init cfg bm h)) t j x" for t x
      by (intro ahead_cong) (auto simp: touches_only_def)
    with False assms(1,4) show ?thesis by (simp add: follows_def Let_def)
  qed
  ultimately show ?thesis
    using assms(1,5,6) by (simp add: follows_def Let_def touches_only_def)
qed

lemma follows_start:
  assumes "follows ops hinv cfg bm h s cs st" "sm_running s (call_cpu c) = None"
    and "\<And>cpu hn. sm_running s cpu = Some hn \<Longrightarrow> call_key (handler_call hn) \<noteq> call_key c"
  shows "follows ops hinv cfg bm h (go (call_cpu c) (first_access c) s) cs (st @ [c])"
proof -
  let ?s = "go (call_cpu c) (first_access c) s"
  have call: "handler_call (first_access c) = c" by (cases c) simp_all
  then have r: "in_call ?s = (in_call s)(call_cpu c \<mapsto> c)"
    by (auto simp: in_call_def go_def fun_eq_iff)
  have idle: "in_call s (call_cpu c) = None" using assms(2) by (simp add: in_call_def)
  have keys: "\<forall>i d. in_call s i = Some d \<longrightarrow> call_key d \<noteq> call_key c" using assms(3) by (auto simp: in_call_def)
  have same: "ahead ops cfg ?s a t j x = ahead ops cfg s a t j x" for a t j x
    by (intro ahead_cong) (simp_all add: go_def)
  have "ahead ops cfg ?s (tp_run ops cs (bpf_init cfg bm h)) (sent_on ops j cs (bpf_init cfg bm h)) j (sm_running ?s j)" for j
  proof (cases "j = call_cpu c")
    case True
    have "ahead ops cfg s (tp_run ops cs (bpf_init cfg bm h)) (sent_on ops j cs (bpf_init cfg bm h)) j None"
      using assms(1,2) True unfolding follows_def Let_def by metis
    with True show ?thesis unfolding same by (cases c) (simp_all add: go_def)
  next
    case False
    with assms(1) show ?thesis unfolding same by (simp add: follows_def Let_def go_def)
  qed
  with assms(1) alone_start [OF _ keys] thread_order_start [OF _ idle keys] cpu_order_start [of _ _ _ "call_cpu c" c] idle
  show ?thesis by (simp add: follows_def Let_def r) (simp add: go_def)
qed

context bpf_kernel
begin

lemma other_key:
  assumes "loaded cfg bm a" "hinv (st_inflight a)" "k \<noteq> call_key c"
  shows "inflight_lookup ops (st_inflight (tp_run1 ops c a)) k = inflight_lookup ops (st_inflight a) k"
  using assms(3) enter_inflight(3) [OF assms(1,2)] exit_inflight(2) [OF assms(1,2)] by (cases c) auto

lemma run1_hinv: "loaded cfg bm a \<Longrightarrow> hinv (st_inflight a) \<Longrightarrow> hinv (st_inflight (tp_run1 ops c a))"
  using enter_inflight(1) exit_inflight(1) by (cases c) auto

lemma follows_finish:
  assumes "follows ops hinv cfg bm h s cs st" "sm_running s cpu = Some hn" "handler_call hn = c"
    and "a = tp_run ops cs (bpf_init cfg bm h)" "st_inflight s' = st_inflight (tp_run1 ops c a)"
    and "sm_running s' = (sm_running s)(cpu := None)" "touches_only cpu s s'" "same_slots s' (tp_run1 ops c a) cpu"
    and "sm_ring s' cpu = sent_on ops cpu cs (bpf_init cfg bm h) @ drop (length (st_output a)) (st_output (tp_run1 ops c a))"
  shows "follows ops hinv cfg bm h s' (cs @ [c]) st"
proof -
  let ?i = "bpf_init cfg bm h"
  have f: "st_inflight s = st_inflight a" "hinv (st_inflight a)" "alone (in_call s)"
    and ah: "\<And>j. ahead ops cfg s a (sent_on ops j cs ?i) j (sm_running s j)"
    using assms(1) by (auto simp: follows_def Let_def assms(4))
  have l: "loaded cfg bm a" unfolding assms(4) by (rule loaded_run) simp
  have cpu: "call_cpu c = cpu" using ah [of cpu] assms(2,3) ahead_cpu by metis
  have r: "in_call s' = (in_call s)(cpu := None)" "in_call s cpu = Some c"
    using assms(2,3,6) by (auto simp: in_call_def fun_eq_iff)
  have "ahead ops cfg s' (tp_run1 ops c a) (sent_on ops j (cs @ [c]) ?i) j (sm_running s' j)" for j
  proof (cases "j = cpu")
    case True
    with assms(4,6,8,9) show ?thesis by (simp add: sent_on_snoc cpu)
  next
    case False
    have "ahead ops cfg s' (tp_run1 ops c a) t j (sm_running s j) = ahead ops cfg s a t j (sm_running s j)" for t
    proof (intro ahead_cong)
      fix hn2
      assume x: "sm_running s j = Some hn2"
      have "call_key (handler_call hn2) \<noteq> call_key c"
        using f(3) x r(2) False unfolding alone_def in_call_def by fastforce
      then show "inflight_lookup ops (st_inflight s') (call_key (handler_call hn2)) =
          inflight_lookup ops (st_inflight s) (call_key (handler_call hn2))"
        using other_key [OF l f(2)] by (simp add: assms(5) f(1))
    qed (use False assms(7) other_cpu [of j c ops a] cpu in \<open>auto simp: touches_only_def\<close>)
    with False ah [of j] assms(6) cpu show ?thesis by (simp add: sent_on_snoc)
  qed
  moreover have "alone (in_call s')" "thread_order (in_call s') (cs @ [c]) st" "cpu_order (in_call s') (cs @ [c]) st"
    using assms(1) r cpu f(3) alone_finish thread_order_finish cpu_order_finish by (auto simp: follows_def Let_def)
  ultimately show ?thesis
    using assms(1,4,5,7) run1_hinv [OF l f(2)] by (simp add: follows_def Let_def touches_only_def)
qed

lemma follows_facts:
  assumes "follows ops hinv cfg bm h s cs st" "sm_running s cpu = Some hn"
  shows "loaded cfg bm (tp_run ops cs (bpf_init cfg bm h))" "st_inflight s = st_inflight (tp_run ops cs (bpf_init cfg bm h))"
    "st_config s = Some cfg" "st_bitmap s = bm"
    "ahead ops cfg s (tp_run ops cs (bpf_init cfg bm h)) (sent_on ops cpu cs (bpf_init cfg bm h)) cpu (Some hn)"
  using assms loaded_run [OF loaded_init] by (auto simp: follows_def Let_def dest: spec [of _ cpu])

lemma follows_enter_begin:
  assumes "follows ops hinv cfg bm h s cs st" "sm_running s cpu = Some (Enter_begin env ctx)"
  shows "\<exists>s' cs'. access ops (Enter_begin env ctx) s = Some s' \<and> follows ops hinv cfg bm h s' cs' st"
proof -
  let ?i = "bpf_init cfg bm h"
  define a where "a = tp_run ops cs ?i"
  note l = follows_facts(1) [OF assms, folded a_def]
  note f = follows_facts(2-4) [OF assms, folded a_def]
  note ah = follows_facts(5) [OF assms, folded a_def]
  note advance = follows_advance [OF assms, folded a_def]
  note finish = follows_finish [OF assms refl a_def]
  from ah have cpu: "tp_cpu env = cpu" "same_slots s a cpu" "sm_ring s cpu = sent_on ops cpu cs ?i" by auto
  obtain d where d: "st_in a cpu = Some d" using l by (auto simp: loaded_def)
  then have ds: "st_in s cpu = Some d" using cpu(2) by (simp add: same_slots_def)
  show ?thesis
  proof (cases "wanted ops cfg bm env ctx")
    case True
    have "follows ops hinv cfg bm h (go cpu (Enter_update env ctx)
        (s\<lparr>st_in := (st_in s)(cpu \<mapsto> fill_data cfg env ctx d)\<rparr>)) cs st"
      by (rule advance [where hn' = "Enter_update env ctx"])
        (use cpu d f True in \<open>auto simp: go_def touches_only_def same_slots_def\<close>)
    then show ?thesis using cpu ds f True by auto
  next
    case False
    have "tp_run1 ops (Enter env ctx) a = a" using trace_enter_unwanted [OF l False] by simp
    then have "follows ops hinv cfg bm h (leave_cpu cpu s) (cs @ [Enter env ctx]) st"
      using finish [of "leave_cpu cpu s"] cpu f by (simp add: leave_cpu_def touches_only_def same_slots_def)
    then show ?thesis using cpu f False by auto
  qed
qed

lemma follows_enter_update:
  assumes "follows ops hinv cfg bm h s cs st" "sm_running s cpu = Some (Enter_update env ctx)"
  shows "\<exists>s' cs'. access ops (Enter_update env ctx) s = Some s' \<and> follows ops hinv cfg bm h s' cs' st"
proof -
  let ?i = "bpf_init cfg bm h"
  define a where "a = tp_run ops cs ?i"
  note l = follows_facts(1) [OF assms, folded a_def]
  note f = follows_facts(2-4) [OF assms, folded a_def]
  note ah = follows_facts(5) [OF assms, folded a_def]
  note finish = follows_finish [OF assms refl a_def]
  from ah f obtain d where cpu: "tp_cpu env = cpu" "wanted ops cfg bm env ctx" "st_event s cpu = st_event a cpu"
      "sm_ring s cpu = sent_on ops cpu cs ?i" "st_in a cpu = Some d" "st_in s cpu = Some (fill_data cfg env ctx d)" by auto
  note t = trace_enter_filled [OF l cpu(2), of d]
  show ?thesis
  proof (cases "inflight_update ops (st_inflight a) (tp_pid_tgid env) (fill_data cfg env ctx d)")
    case None
    have "follows ops hinv cfg bm h (leave_cpu cpu s) (cs @ [Enter env ctx]) st"
      using finish [of "leave_cpu cpu s"] cpu f t None by (simp add: leave_cpu_def touches_only_def same_slots_def)
    then show ?thesis using cpu f None by auto
  next
    case (Some h')
    have "follows ops hinv cfg bm h (leave_cpu cpu (s\<lparr>st_inflight := h'\<rparr>)) (cs @ [Enter env ctx]) st"
      using finish [of "leave_cpu cpu (s\<lparr>st_inflight := h'\<rparr>)"] cpu f t Some
      by (simp add: leave_cpu_def touches_only_def same_slots_def)
    then show ?thesis using cpu f Some by auto
  qed
qed

lemma follows_exit_lookup:
  assumes "follows ops hinv cfg bm h s cs st" "sm_running s cpu = Some (Exit_lookup env ctx')"
  shows "\<exists>s' cs'. access ops (Exit_lookup env ctx') s = Some s' \<and> follows ops hinv cfg bm h s' cs' st"
proof -
  let ?i = "bpf_init cfg bm h"
  define a where "a = tp_run ops cs ?i"
  note l = follows_facts(1) [OF assms, folded a_def]
  note f = follows_facts(2-4) [OF assms, folded a_def]
  note ah = follows_facts(5) [OF assms, folded a_def]
  note advance = follows_advance [OF assms, folded a_def]
  note finish = follows_finish [OF assms refl a_def]
  from ah have cpu: "tp_cpu env = cpu" "same_slots s a cpu" "sm_ring s cpu = sent_on ops cpu cs ?i" by auto
  show ?thesis
  proof (cases "inflight_lookup ops (st_inflight a) (tp_pid_tgid env)")
    case None
    then have "tp_run1 ops (Exit env ctx') a = a" by (simp add: trace_exit_idle)
    then have "follows ops hinv cfg bm h (leave_cpu cpu s) (cs @ [Exit env ctx']) st"
      using finish [of "leave_cpu cpu s"] cpu f by (simp add: leave_cpu_def touches_only_def same_slots_def)
    then show ?thesis using cpu f None by auto
  next
    case (Some i)
    have "follows ops hinv cfg bm h (go cpu (Exit_fill env ctx') s) cs st"
      by (rule advance [where hn' = "Exit_fill env ctx'"])
        (use cpu f Some in \<open>auto simp: go_def touches_only_def same_slots_def\<close>)
    then show ?thesis using cpu f Some by auto
  qed
qed

lemma follows_exit_fill:
  assumes "follows ops hinv cfg bm h s cs st" "sm_running s cpu = Some (Exit_fill env ctx')"
  shows "\<exists>s' cs'. access ops (Exit_fill env ctx') s = Some s' \<and> follows ops hinv cfg bm h s' cs' st"
proof -
  let ?i = "bpf_init cfg bm h"
  define a where "a = tp_run ops cs ?i"
  note l = follows_facts(1) [OF assms, folded a_def]
  note f = follows_facts(2-4) [OF assms, folded a_def]
  note ah = follows_facts(5) [OF assms, folded a_def]
  note advance = follows_advance [OF assms, folded a_def]
  from ah obtain i where cpu: "tp_cpu env = cpu" "same_slots s a cpu" "sm_ring s cpu = sent_on ops cpu cs ?i"
      "inflight_lookup ops (st_inflight a) (tp_pid_tgid env) = Some i" using f by auto
  obtain e where e: "st_event a cpu = Some e" "st_event s cpu = Some e"
    using l cpu(2) by (auto simp: loaded_def same_slots_def)
  have "follows ops hinv cfg bm h (go cpu (Exit_output env ctx')
      (s\<lparr>st_event := (st_event s)(cpu \<mapsto> fill_event cfg env ctx' i e)\<rparr>)) cs st"
    by (rule advance [where hn' = "Exit_output env ctx'"])
      (use cpu e f in \<open>auto simp: go_def touches_only_def same_slots_def\<close>)
  then show ?thesis using cpu e f by auto
qed

lemma follows_exit_output:
  assumes "follows ops hinv cfg bm h s cs st" "sm_running s cpu = Some (Exit_output env ctx')"
  shows "\<exists>s' cs'. access ops (Exit_output env ctx') s = Some s' \<and> follows ops hinv cfg bm h s' cs' st"
proof -
  let ?i = "bpf_init cfg bm h"
  define a where "a = tp_run ops cs ?i"
  note l = follows_facts(1) [OF assms, folded a_def]
  note f = follows_facts(2-4) [OF assms, folded a_def]
  note ah = follows_facts(5) [OF assms, folded a_def]
  note advance = follows_advance [OF assms, folded a_def]
  from ah f obtain i e where cpu: "tp_cpu env = cpu" "st_in s cpu = st_in a cpu" "sm_ring s cpu = sent_on ops cpu cs ?i"
      "inflight_lookup ops (st_inflight a) (tp_pid_tgid env) = Some i" "st_event a cpu = Some e"
      "st_event s cpu = Some (fill_event cfg env ctx' i e)" by auto
  have "follows ops hinv cfg bm h (go cpu (Exit_delete env ctx')
      (s\<lparr>sm_ring := (sm_ring s)(cpu := perf_event_output env (fill_event cfg env ctx' i e) (sm_ring s cpu))\<rparr>)) cs st"
    by (rule advance [where hn' = "Exit_delete env ctx'"])
      (use cpu f in \<open>auto simp: go_def touches_only_def same_slots_def\<close>)
  then show ?thesis using cpu f by auto
qed

lemma follows_exit_delete:
  assumes "follows ops hinv cfg bm h s cs st" "sm_running s cpu = Some (Exit_delete env ctx')"
  shows "\<exists>s' cs'. access ops (Exit_delete env ctx') s = Some s' \<and> follows ops hinv cfg bm h s' cs' st"
proof -
  let ?i = "bpf_init cfg bm h"
  define a where "a = tp_run ops cs ?i"
  note l = follows_facts(1) [OF assms, folded a_def]
  note f = follows_facts(2-4) [OF assms, folded a_def]
  note ah = follows_facts(5) [OF assms, folded a_def]
  note finish = follows_finish [OF assms refl a_def]
  from ah f obtain i e where cpu: "tp_cpu env = cpu" "st_in s cpu = st_in a cpu"
      "inflight_lookup ops (st_inflight a) (tp_pid_tgid env) = Some i" "st_event a cpu = Some e"
      "st_event s cpu = Some (fill_event cfg env ctx' i e)"
      "sm_ring s cpu = perf_event_output env (fill_event cfg env ctx' i e) (sent_on ops cpu cs ?i)" by auto
  have t: "tp_run1 ops (Exit env ctx') a = a\<lparr>st_event := (st_event a)(cpu \<mapsto> fill_event cfg env ctx' i e),
      st_output := perf_event_output env (fill_event cfg env ctx' i e) (st_output a),
      st_inflight := inflight_delete ops (st_inflight a) (tp_pid_tgid env)\<rparr>"
    using cpu l by (simp add: trace_exit_def loaded_def Let_def)
  have "follows ops hinv cfg bm h (leave_cpu cpu (s\<lparr>st_inflight := inflight_delete ops (st_inflight s) (tp_pid_tgid env)\<rparr>))
      (cs @ [handler_call (Exit_delete env ctx')]) st"
  proof (rule finish)
    show "sm_ring (leave_cpu cpu (s\<lparr>st_inflight := inflight_delete ops (st_inflight s) (tp_pid_tgid env)\<rparr>)) cpu =
        sent_on ops cpu cs ?i @ drop (length (st_output a)) (st_output (tp_run1 ops (handler_call (Exit_delete env ctx')) a))"
      by (simp only: handler_call.simps t) (simp add: leave_cpu_def cpu(6) perf_event_output_def)
    show "same_slots (leave_cpu cpu (s\<lparr>st_inflight := inflight_delete ops (st_inflight s) (tp_pid_tgid env)\<rparr>))
        (tp_run1 ops (handler_call (Exit_delete env ctx')) a) cpu"
      by (simp only: handler_call.simps t) (simp add: leave_cpu_def same_slots_def cpu(2,5))
    show "st_inflight (leave_cpu cpu (s\<lparr>st_inflight := inflight_delete ops (st_inflight s) (tp_pid_tgid env)\<rparr>)) =
        st_inflight (tp_run1 ops (handler_call (Exit_delete env ctx')) a)"
      by (simp only: handler_call.simps t) (simp add: leave_cpu_def f(1))
  qed (simp_all add: leave_cpu_def touches_only_def)
  then show ?thesis using cpu f by auto
qed

lemma follows_run:
  assumes "follows ops hinv cfg bm h s cs st" "sm_running s cpu = Some hn"
  shows "\<exists>s' cs'. access ops hn s = Some s' \<and> follows ops hinv cfg bm h s' cs' st"
  using assms
  by (cases hn)
    (simp_all only: follows_enter_begin
      follows_enter_update
      follows_exit_lookup
      follows_exit_fill
      follows_exit_output
      follows_exit_delete)

lemma follows_init: "hinv h \<Longrightarrow> follows ops hinv cfg bm h (smp_init cfg bm h) [] []"
  by (simp add: follows_def smp_init_def bpf_init_def same_slots_def alone_def in_call_def thread_order_def cpu_order_def)

lemma follows_steps:
  assumes "hinv h" "smp_steps ops (smp_init cfg bm h) ms s"
  shows "\<exists>cs. follows ops hinv cfg bm h s cs (started ms)"
  using assms(2)
proof (induction "smp_init cfg bm h" ms s rule: smp_steps.induct)
  case smp_none
  then show ?case using follows_init [OF assms(1)] by (intro exI [of _ "[]"]) simp
next
  case (smp_snoc ms s' m s'')
  then obtain cs where f: "follows ops hinv cfg bm h s' cs (started ms)" by blast
  from smp_snoc(3) show ?case
  proof cases
    case (step_start c)
    with follows_start [OF f] show ?thesis by (intro exI [of _ cs]) simp
  next
    case (step_run cpu hn)
    with follows_run [OF f] show ?thesis by fastforce
  qed
qed

end

lemma output_grows: "\<exists>out. st_output (tp_run1 ops c a) = st_output a @ out"
  by (cases c) (auto simp: trace_enter_def trace_exit_def perf_event_output_def Let_def split: option.split)

lemma output_grows_run: "set (st_output a) \<subseteq> set (st_output (tp_run ops cs a))"
proof (induction cs arbitrary: a)
  case (Cons c cs)
  show ?case using output_grows [of ops c a] Cons [of "tp_run1 ops c a"] by auto
qed simp

lemma sent_on_output: "set (sent_on ops cpu cs a) \<subseteq> set (st_output (tp_run ops cs a))"
proof (induction cs arbitrary: a)
  case (Cons c cs)
  have "set (drop n (st_output (tp_run1 ops c a))) \<subseteq> set (st_output (tp_run1 ops c a))" for n
    by (auto dest: in_set_dropD)
  with output_grows_run [of "tp_run1 ops c a" ops cs] Cons [of "tp_run1 ops c a"] show ?case by fastforce
qed simp

lemma thread_order_prefix: "thread_order r cs st \<Longrightarrow> prefix (of_thread k cs) (of_thread k st)"
  by (auto simp: thread_order_def dest!: spec [of _ k])

section \<open>What holds on many CPUs\<close>

fun accesses_left :: "handler \<Rightarrow> nat" where
  "accesses_left (Enter_begin env ctx) = 2"
| "accesses_left (Enter_update env ctx) = 1"
| "accesses_left (Exit_lookup env ctx') = 4"
| "accesses_left (Exit_fill env ctx') = 3"
| "accesses_left (Exit_output env ctx') = 2"
| "accesses_left (Exit_delete env ctx') = 1"

lemma accesses_left_pos [simp]: "accesses_left hn \<noteq> 0"
  by (cases hn) simp_all

lemma access_advances:
  "access ops hn s = Some s' \<Longrightarrow> call_cpu (handler_call hn) = cpu \<Longrightarrow>
    case sm_running s' cpu of None \<Rightarrow> True
    | Some hn' \<Rightarrow> handler_call hn' = handler_call hn \<and> accesses_left hn' < accesses_left hn"
  by (cases hn) (auto simp: leave_cpu_def go_def split: option.splits if_splits)

text \<open>
  Two threads on two CPUs: both enter, the accesses interleaved; then each leaves its call on the
  other's CPU, again interleaved.
\<close>

definition on_cpu :: "nat \<Rightarrow> tp_call \<Rightarrow> tp_call" where
  "on_cpu n c = (case c of Enter env ctx \<Rightarrow> Enter (env\<lparr>tp_cpu := n\<rparr>) ctx | Exit env ctx' \<Rightarrow> Exit (env\<lparr>tp_cpu := n\<rparr>) ctx')"

definition demo_moves :: "smp_move list" where
  "demo_moves = [Start (on_cpu 0 (demo_enter 0x700000008 1000 63)), Start (on_cpu 1 (demo_enter 0x700000009 1100 64)),
     Run 0, Run 1, Run 1, Run 0,
     Start (on_cpu 1 (demo_exit 0x700000008 1600 63 6)), Start (on_cpu 0 (demo_exit 0x700000009 1700 64 1)),
     Run 1, Run 0, Run 0, Run 1, Run 1, Run 0, Run 0, Run 1]"

lemma demo_wanted [simp]: "wanted ops demo_config bm (demo_env 0x700000008 t\<lparr>tp_cpu := n\<rparr>) ctx"
    "wanted ops demo_config bm (demo_env 0x700000009 t\<lparr>tp_cpu := n\<rparr>) ctx"
  by (simp_all add: wanted_def demo_env_def demo_config_def env_pid_def demo_pid FILTER_PID_def FILTER_COMM_def)

lemma demo_smp:
  "\<exists>s. smp_steps kernel_maps (smp_init demo_config (replicate 8 0) []) demo_moves s \<and> (\<forall>cpu. sm_running s cpu = None) \<and>
     (\<exists>ev. sm_ring s 1 = [ev] \<and> se_syscall_id ev = 63 \<and> se_ret ev = 6)"
  by (simp add: demo_moves_def smp_steps_Cons smp_step_simps smp_init_def on_cpu_def demo_enter_def demo_exit_def go_def leave_cpu_def
      table_update_def INFLIGHT_ENTRIES_def)
    (simp add: perf_event_output_def perf_accepts_def events_map_def fill_event_def fill_data_def demo_env_def demo_config_def Let_def)

text \<open>One call alone, its entry on one CPU and its exit on another.\<close>

abbreviation demo_read_enter :: sys_enter_ctx where
  "demo_read_enter \<equiv> \<lparr>common_type = 0, common_flags = 0, common_preempt_count = 0, common_pid = 8,
     en_id = 63, en_args = [3, 0x1000, 6, 0, 0, 0]\<rparr>"

abbreviation demo_read_exit :: sys_exit_ctx where
  "demo_read_exit \<equiv> \<lparr>common_type = 0, common_flags = 0, common_preempt_count = 0, common_pid = 8, ex_id = 63, ex_ret = 6\<rparr>"

definition moved_read :: "smp_move list" where
  "moved_read = [Start (Enter (demo_env 0x700000008 1000) demo_read_enter), Run 0, Run 0,
     Start (Exit ((demo_env 0x700000008 1600)\<lparr>tp_cpu := 1\<rparr>) demo_read_exit), Run 1, Run 1, Run 1, Run 1]"

definition moved_event :: "trace_config \<Rightarrow> syscall_event" where
  "moved_event cfg = fill_event cfg ((demo_env 0x700000008 1600)\<lparr>tp_cpu := 1\<rparr>) demo_read_exit
     (fill_data cfg (demo_env 0x700000008 1000) demo_read_enter zero_inflight) zero_event"

lemma moved_read_runs:
  assumes "wanted kernel_maps cfg bm (demo_env 0x700000008 1000) demo_read_enter"
  shows "\<exists>s. smp_steps kernel_maps (smp_init cfg bm []) moved_read s \<and> (\<forall>cpu. sm_running s cpu = None) \<and>
     sm_ring s 1 = [moved_event cfg]"
  using assms
  by (simp add: moved_read_def smp_steps_Cons smp_step_simps smp_init_def go_def leave_cpu_def table_update_def INFLIGHT_ENTRIES_def
      demo_env_def [of _ 1600])
    (simp add: perf_event_output_def perf_accepts_def events_map_def moved_event_def fill_event_def fill_data_def demo_env_def Let_def)

lemma moved_event_simps [simp]: "se_syscall_id (moved_event cfg) = 63" "se_ret (moved_event cfg) = 6"
  by (simp_all add: moved_event_def fill_event_def fill_data_def demo_env_def Let_def split: prod.split)

lemma kernel_empty: "table_ok_inflight []" "\<forall>k. inflight_lookup kernel_maps [] k = None"
  by (simp_all add: table_ok_inflight_def)

lemma serial_history:
  assumes "bpf_kernel ops hinv" "hinv h" "smp_steps ops (smp_init cfg bm h) ms s" "\<forall>cpu. sm_running s cpu = None"
  shows "\<exists>cs. (\<forall>k. of_thread k cs = of_thread k (started ms)) \<and> (\<forall>cpu. of_cpu cpu cs = of_cpu cpu (started ms)) \<and>
    bpf_maps.truncate s = bpf_maps.truncate (tp_run ops cs (bpf_init cfg bm h)) \<and>
    (\<forall>cpu. sm_ring s cpu = sent_on ops cpu cs (bpf_init cfg bm h))"
proof -
  obtain cs where f: "follows ops hinv cfg bm h s cs (started ms)"
    using bpf_kernel.follows_steps [OF assms(1-3)] by blast
  let ?a = "tp_run ops cs (bpf_init cfg bm h)"
  have idle: "in_call s = (\<lambda>_. None)" using assms(4) by (auto simp: in_call_def)
  have "loaded cfg bm ?a" by (rule loaded_run) simp
  moreover have slots: "same_slots s ?a cpu \<and> sm_ring s cpu = sent_on ops cpu cs (bpf_init cfg bm h)" for cpu
    using f assms(4) by (simp add: follows_def Let_def)
  ultimately have "bpf_maps.truncate s = bpf_maps.truncate ?a"
    using f by (simp add: bpf_maps.truncate_def follows_def Let_def loaded_def same_slots_def fun_eq_iff)
  moreover have "of_thread k cs = of_thread k (started ms)" "of_cpu cpu cs = of_cpu cpu (started ms)" for k cpu
    using f by (auto simp: follows_def Let_def idle thread_order_def cpu_order_def)
  ultimately show ?thesis using slots by blast
qed

text \<open>
  Claim C5. Handlers that run on different CPUs at the same time, their accesses to the maps
  interleaved in any order, do what they would do one after the other: when all have finished, the
  maps and the ring of every CPU are those of one sequential history, in which every thread's and
  every CPU's handlers stand in the order they were started.
\<close>

theorem smp_serializable:
  assumes "bpf_kernel ops hinv" "hinv h" "smp_steps ops (smp_init cfg bm h) ms s" "\<forall>cpu. sm_running s cpu = None"
  shows "\<exists>cs. (\<forall>k. of_thread k cs = of_thread k (started ms)) \<and> (\<forall>cpu. of_cpu cpu cs = of_cpu cpu (started ms)) \<and>
    bpf_maps.truncate s = bpf_maps.truncate (tp_run ops cs (bpf_init cfg bm h)) \<and>
    (\<forall>cpu. sm_ring s cpu = sent_on ops cpu cs (bpf_init cfg bm h))"
  by (rule serial_history [OF assms])

lemma smp_serializable_witness:
  "\<exists>s cs. smp_steps kernel_maps (smp_init demo_config (replicate 8 0) []) demo_moves s \<and>
    (\<forall>k. of_thread k cs = of_thread k (started demo_moves)) \<and>
    sm_ring s 1 = sent_on kernel_maps 1 cs (bpf_init demo_config (replicate 8 0) []) \<and> sm_ring s 1 \<noteq> []"
proof -
  obtain s where s: "smp_steps kernel_maps (smp_init demo_config (replicate 8 0) []) demo_moves s"
      "\<forall>cpu. sm_running s cpu = None" "sm_ring s 1 \<noteq> []"
    using demo_smp by auto
  from smp_serializable [OF kern.bpf_kernel_axioms kernel_empty(1) s(1,2)] s(1,3) show ?thesis by blast
qed

text \<open>
  Also while handlers on other CPUs are in the middle of their work, every event in the
  ring of a CPU comes from a wanted entry and the next exit of one thread, as that thread ran them.
\<close>

theorem smp_events_paired:
  assumes "bpf_kernel ops hinv" "hinv h" "\<forall>k. inflight_lookup ops h k = None"
    and "smp_steps ops (smp_init cfg bm h) ms s" "ev \<in> set (sm_ring s cpu)"
  shows "\<exists>cs. event_from ops cfg bm cs ev \<and> (\<forall>k. prefix (of_thread k cs) (of_thread k (started ms)))"
proof -
  obtain cs where f: "follows ops hinv cfg bm h s cs (started ms)"
    using bpf_kernel.follows_steps [OF assms(1,2,4)] by blast
  then have o: "thread_order (in_call s) cs (started ms)" by (auto simp: follows_def Let_def)
  let ?i = "bpf_init cfg bm h"
  have evs: "event_from ops cfg bm ds e" if "e \<in> set (st_output (tp_run ops ds ?i))" for ds e
    using bpf_kernel.run_invariant [OF assms(1,2), of ds cfg bm] assms(3) that by blast
  have ah: "ahead ops cfg s (tp_run ops cs ?i) (sent_on ops cpu cs ?i) cpu (sm_running s cpu)"
    using f by (simp add: follows_def Let_def)
  have sent: "ev \<in> set (sent_on ops cpu cs ?i) \<Longrightarrow> ?thesis"
    using evs sent_on_output thread_order_prefix [OF o] by blast
  show ?thesis
  proof (cases "\<exists>env ctx'. sm_running s cpu = Some (Exit_delete env ctx')")
    case True
    then obtain env ctx' where r: "sm_running s cpu = Some (Exit_delete env ctx')" by blast
    obtain s' cs' where "access ops (Exit_delete env ctx') s = Some s'" "follows ops hinv cfg bm h s' cs' (started ms)"
      using bpf_kernel.follows_run [OF assms(1) f r] by blast
    then have "sm_running s' cpu = None" "sm_ring s' cpu = sm_ring s cpu"
      using ah r by (auto simp: leave_cpu_def)
    then show ?thesis
      using \<open>follows ops hinv cfg bm h s' cs' (started ms)\<close> assms(5) evs sent_on_output thread_order_prefix
      by (fastforce simp: follows_def Let_def dest: spec [of _ cpu])
  next
    case False
    then have "sm_ring s cpu = sent_on ops cpu cs ?i"
      using ah by (cases "(ops, cfg, s, tp_run ops cs ?i, sent_on ops cpu cs ?i, cpu, sm_running s cpu)" rule: ahead.cases) auto
    with assms(5) sent show ?thesis by simp
  qed
qed

lemma smp_events_paired_witness:
  "\<exists>cs ev. event_from kernel_maps demo_config (replicate 8 0) cs ev \<and> se_syscall_id ev = 63 \<and> se_ret ev = 6 \<and>
    (\<forall>k. prefix (of_thread k cs) (of_thread k (started demo_moves)))"
proof -
  obtain s ev where s: "smp_steps kernel_maps (smp_init demo_config (replicate 8 0) []) demo_moves s"
      "sm_ring s 1 = [ev]" "se_syscall_id ev = 63" "se_ret ev = 6"
    using demo_smp by auto
  from smp_events_paired [OF kern.bpf_kernel_axioms kernel_empty s(1), of ev 1] s(2-4) show ?thesis by auto
qed

section \<open>No wanted call is lost\<close>

lemma filter_split:
  "filter P cs = xs @ ys \<Longrightarrow> \<exists>us vs. cs = us @ vs \<and> filter P us = xs \<and> filter P vs = ys"
proof (induction cs arbitrary: xs)
  case (Cons c cs)
  show ?case
  proof (cases "P c \<and> xs \<noteq> []")
    case True
    then obtain xs' where x: "xs = c # xs'" "filter P cs = xs' @ ys" using Cons.prems by (cases xs) auto
    from Cons.IH [OF x(2)] obtain us vs where "cs = us @ vs" "filter P us = xs'" "filter P vs = ys" by blast
    then have "c # cs = (c # us) @ vs \<and> filter P (c # us) = xs \<and> filter P vs = ys" using x(1) True by simp
    then show ?thesis by blast
  next
    case False
    then show ?thesis
    proof (cases "P c")
      case True
      with False have "c # cs = [] @ (c # cs) \<and> filter P [] = xs \<and> filter P (c # cs) = ys" using Cons.prems by simp
      then show ?thesis by blast
    next
      case no: False
      with Cons.prems have "filter P cs = xs @ ys" by simp
      from Cons.IH [OF this] obtain us vs where "cs = us @ vs" "filter P us = xs" "filter P vs = ys" by blast
      then have "c # cs = (c # us) @ vs \<and> filter P (c # us) = xs \<and> filter P vs = ys" using no by simp
      then show ?thesis by blast
    qed
  qed
qed simp

lemma filter_two:
  assumes "filter P cs = xs @ a # b # zs"
  shows "\<exists>us vs ws. cs = us @ a # vs @ b # ws \<and> (\<forall>c \<in> set vs. \<not> P c)"
proof -
  obtain us ts where u: "cs = us @ ts" "filter P ts = a # b # zs" using filter_split [OF assms] by blast
  then obtain us' ts' where t: "ts = us' @ a # ts'" "b # zs = filter P ts'" by (auto simp: filter_eq_Cons_iff)
  then obtain vs ws where "ts' = vs @ b # ws" "\<forall>c \<in> set vs. \<not> P c" using filter_eq_Cons_iff [of P ts' b zs] by auto
  then have "cs = (us @ us') @ a # vs @ b # ws \<and> (\<forall>c \<in> set vs. \<not> P c)" using u(1) t(1) by simp
  then show ?thesis by blast
qed

lemma same_keys:
  assumes "\<forall>k. of_thread k cs = of_thread k ds"
  shows "set cs = set ds"
proof -
  have "c \<in> set cs \<longleftrightarrow> c \<in> set ds" for c
    using arg_cong [OF spec [OF assms, of "call_key c"], of "\<lambda>xs. c \<in> set xs"] by (simp add: of_thread_def)
  then show ?thesis by blast
qed

lemma sent_on_append:
  "sent_on ops cpu (cs @ ds) s = sent_on ops cpu cs s @ sent_on ops cpu ds (tp_run ops cs s)"
  by (induction cs arbitrary: s) auto

text \<open>
  With handlers running on any number of CPUs, their accesses to the maps interleaved in
  any order, no wanted call is lost: once the handlers have finished, every wanted entry that the same
  thread followed with its exit has an event with the data of both in the ring of the CPU of the
  exit, as long as there are at most \<open>0x1000\<close> threads and this CPU is one of the first 16 with a ring.
\<close>

theorem smp_calls_reported:
  assumes "smp_steps kernel_maps (smp_init cfg bm []) ms s" "\<forall>cpu. sm_running s cpu = None"
    and "card (call_key ` set (started ms)) \<le> INFLIGHT_ENTRIES"
    and "of_thread k (started ms) = xs @ Enter env ctx # Exit env' ctx' # zs"
    and "wanted kernel_maps cfg bm env ctx" "tp_cpu env' < 16" "tp_ring env'"
  shows "\<exists>ev. ev \<in> set (sm_ring s (tp_cpu env')) \<and> event_is cfg ev env ctx env' ctx'"
proof -
  obtain cs where cs: "\<forall>k. of_thread k cs = of_thread k (started ms)"
      "\<forall>cpu. sm_ring s cpu = sent_on kernel_maps cpu cs (bpf_init cfg bm [])"
    using serial_history [OF kern.bpf_kernel_axioms kernel_empty(1) assms(1,2)] by blast
  have two: "filter (\<lambda>c. call_key c = k) cs = xs @ Enter env ctx # Exit env' ctx' # zs"
    using cs(1) assms(4) by (simp add: of_thread_def)
  have "Enter env ctx \<in> set (filter (\<lambda>c. call_key c = k) cs)" "Exit env' ctx' \<in> set (filter (\<lambda>c. call_key c = k) cs)"
    unfolding two by simp_all
  then have keys: "tp_pid_tgid env = k" "tp_pid_tgid env' = k" by simp_all
  obtain us vs ws where split: "cs = us @ Enter env ctx # vs @ Exit env' ctx' # ws" "\<forall>c \<in> set vs. call_key c \<noteq> k"
    using filter_two [OF two] by blast
  let ?cs = "us @ Enter env ctx # vs" and ?i = "bpf_init cfg bm [] :: (inflight_table, u64 list) bpf_state"
  have "call_key ` set ?cs \<subseteq> call_key ` set (started ms)"
    unfolding same_keys [OF cs(1), symmetric] split(1) by auto
  then have "card (call_key ` set ?cs) \<le> INFLIGHT_ENTRIES"
    using assms(3) card_mono [of "call_key ` set (started ms)"] by (meson List.finite_set finite_imageI le_trans)
  from call_reported [OF this assms(5), of env' ctx'] keys split(2) assms(6,7)
  obtain ev where ev: "event_is cfg ev env ctx env' ctx'"
      "st_output (tp_run kernel_maps (?cs @ [Exit env' ctx']) ?i) = st_output (tp_run kernel_maps ?cs ?i) @ [ev]"
    by auto
  have "cs = (?cs @ [Exit env' ctx']) @ ws" using split(1) by simp
  then have "set (sent_on kernel_maps (tp_cpu env') (?cs @ [Exit env' ctx']) ?i) \<subseteq> set (sm_ring s (tp_cpu env'))"
    using cs(2) by (simp only: sent_on_append set_append) blast
  moreover have "ev \<in> set (sent_on kernel_maps (tp_cpu env') (?cs @ [Exit env' ctx']) ?i)"
    unfolding sent_on_snoc using ev(2) by simp
  ultimately show ?thesis using ev(1) by blast
qed

lemma smp_calls_reported_witness:
  "\<exists>s ev. smp_steps kernel_maps (smp_init demo_config (replicate 8 0) []) demo_moves s \<and>
    ev \<in> set (sm_ring s 1) \<and> se_ret ev = 6 \<and> se_duration_ns ev = 600"
proof -
  let ?c = "\<lparr>common_type = 0, common_flags = 0, common_preempt_count = 0, common_pid = 8,
      en_id = 63, en_args = [3, 0x1000, 6, 0, 0, 0]\<rparr>"
    and ?c' = "\<lparr>common_type = 0, common_flags = 0, common_preempt_count = 0, common_pid = 8, ex_id = 63, ex_ret = 6\<rparr>"
    and ?e = "(demo_env 0x700000008 1000)\<lparr>tp_cpu := 0\<rparr>" and ?e' = "(demo_env 0x700000008 1600)\<lparr>tp_cpu := 1\<rparr>"
  obtain s where s: "smp_steps kernel_maps (smp_init demo_config (replicate 8 0) []) demo_moves s" "\<forall>cpu. sm_running s cpu = None"
    using demo_smp by auto
  have k: "card (call_key ` set (started demo_moves)) \<le> INFLIGHT_ENTRIES"
    by (simp add: demo_moves_def on_cpu_def demo_enter_def demo_exit_def demo_env_def INFLIGHT_ENTRIES_def card_insert_if)
  have "of_thread 0x700000008 (started demo_moves) = [] @ Enter ?e ?c # Exit ?e' ?c' # []"
    by (simp add: demo_moves_def on_cpu_def demo_enter_def demo_exit_def of_thread_def demo_env_def)
  from smp_calls_reported [OF s k this demo_wanted(1)] have "\<exists>ev. ev \<in> set (sm_ring s 1) \<and> event_is demo_config ev ?e ?c ?e' ?c'"
    by (simp add: demo_env_def)
  then obtain ev where "ev \<in> set (sm_ring s 1)" "event_is demo_config ev ?e ?c ?e' ?c'" by blast
  with s(1) show ?thesis by (intro exI [of _ s] exI [of _ ev]) (simp add: event_is_def demo_env_def)
qed



end
