(* ===== verification/Bpf_Endian.thy ===== *)
theory Bpf_Endian
  imports Trace_Prelude
begin

text \<open>
  The byte order macros of the bundled \<open>bpf/bpf_endian.h\<close>: the byte swaps made of shifts, which the
  compiler can fold, and the conversions between host and network order for both byte orders of the
  host. The compiler's \<open>__builtin_bswap\<close> reverses the bytes of its argument.
\<close>

unbundle bit_operations_syntax

section \<open>Bytes of a word\<close>

definition byte_at :: "nat \<Rightarrow> 'a::len word \<Rightarrow> u8" where
  "byte_at n w = ucast (drop_bit (8 * n) w)"

lemma bit_byte_at: "bit (byte_at n w) j \<longleftrightarrow> j < 8 \<and> bit w (8 * n + j)"
  by (auto simp: byte_at_def bit_ucast_iff bit_drop_bit_eq)

lemma byte_at_cong: "(\<And>j. j < 8 \<Longrightarrow> bit v (8 * m + j) = bit w (8 * n + j)) \<Longrightarrow> byte_at m v = byte_at n w"
  by (rule bit_word_eqI) (simp add: bit_byte_at)

lemma bytes_eqI:
  fixes v w :: "'a::len word"
  assumes "LENGTH('a) = 8 * k" "\<And>n. n < k \<Longrightarrow> byte_at n v = byte_at n w"
  shows "v = w"
proof (rule bit_word_eqI)
  fix i assume "i < LENGTH('a)"
  then have "i div 8 < k" using assms(1) by auto
  then have "bit (byte_at (i div 8) v) (i mod 8) = bit (byte_at (i div 8) w) (i mod 8)" using assms(2) by simp
  then show "bit v i = bit w i" by (simp add: bit_byte_at)
qed

text \<open>The word with the given bytes, lowest first, and the reversal of the \<open>k\<close> bytes of a word.\<close>

fun of_bytes :: "u8 list \<Rightarrow> 'a::len word" where
  "of_bytes [] = 0"
| "of_bytes (b # bs) = ucast b OR push_bit 8 (of_bytes bs)"

lemma byte_at_of_bytes:
  "n < length bs \<Longrightarrow> 8 * length bs \<le> LENGTH('a) \<Longrightarrow> byte_at n (of_bytes bs :: 'a::len word) = bs ! n"
proof (induction bs arbitrary: n)
  case (Cons b bs)
  show ?case
  proof (cases n)
    case 0
    show ?thesis
      using Cons.prems by (intro bit_word_eqI) (auto simp: 0 bit_byte_at bit_or_iff bit_push_bit_iff bit_ucast_iff)
  next
    case (Suc m)
    have "byte_at n (of_bytes (b # bs) :: 'a word) = byte_at m (of_bytes bs :: 'a word)"
    proof (rule byte_at_cong)
      fix j :: nat assume "j < 8"
      have "\<not> bit (ucast b :: 'a word) (8 * n + j)" using bit_imp_le_length [of b "8 * n + j"] by (auto simp: Suc bit_ucast_iff)
      then show "bit (of_bytes (b # bs) :: 'a word) (8 * n + j) = bit (of_bytes bs :: 'a word) (8 * m + j)"
        using Cons.prems \<open>j < 8\<close> by (auto simp: Suc bit_or_iff bit_push_bit_iff)
    qed
    also have "\<dots> = bs ! m" using Cons by (simp add: Suc)
    finally show ?thesis by (simp add: Suc)
  qed
qed simp

definition bswap :: "nat \<Rightarrow> 'a::len word \<Rightarrow> 'a word" where
  "bswap k w = of_bytes (rev (map (\<lambda>n. byte_at n w) [0..<k]))"

lemma byte_at_bswap: "n < k \<Longrightarrow> 8 * k \<le> LENGTH('a) \<Longrightarrow> byte_at n (bswap k w :: 'a::len word) = byte_at (k - 1 - n) w"
  by (simp add: bswap_def byte_at_of_bytes rev_nth)

section \<open>The swaps by shifts\<close>

text \<open>
  \<open>___bpf_mvb(x, b, n, m)\<close>. For \<open>b\<close> = 16 the operand is promoted to \<open>int\<close>, whose 32 bits keep what a
  16-bit shift would drop; the cast in \<open>___bpf_swab16\<close> removes it again.
\<close>

definition bpf_mvb16 :: "u16 \<Rightarrow> nat \<Rightarrow> nat \<Rightarrow> u32" where
  "bpf_mvb16 x n m = push_bit (m * 8) (drop_bit (16 - 8) (push_bit (16 - (n + 1) * 8) (ucast x)))"

definition bpf_mvb32 :: "u32 \<Rightarrow> nat \<Rightarrow> nat \<Rightarrow> u32" where
  "bpf_mvb32 x n m = push_bit (m * 8) (drop_bit (32 - 8) (push_bit (32 - (n + 1) * 8) x))"

definition bpf_mvb64 :: "u64 \<Rightarrow> nat \<Rightarrow> nat \<Rightarrow> u64" where
  "bpf_mvb64 x n m = push_bit (m * 8) (drop_bit (64 - 8) (push_bit (64 - (n + 1) * 8) x))"

definition bpf_swab16 :: "u16 \<Rightarrow> u16" where
  "bpf_swab16 x = ucast (bpf_mvb16 x 0 1 OR bpf_mvb16 x 1 0)"

definition bpf_swab32 :: "u32 \<Rightarrow> u32" where
  "bpf_swab32 x = bpf_mvb32 x 0 3 OR bpf_mvb32 x 1 2 OR bpf_mvb32 x 2 1 OR bpf_mvb32 x 3 0"

definition bpf_swab64 :: "u64 \<Rightarrow> u64" where
  "bpf_swab64 x =
     bpf_mvb64 x 0 7 OR bpf_mvb64 x 1 6 OR bpf_mvb64 x 2 5 OR bpf_mvb64 x 3 4 OR
     bpf_mvb64 x 4 3 OR bpf_mvb64 x 5 2 OR bpf_mvb64 x 6 1 OR bpf_mvb64 x 7 0"

lemma bit_bpf_mvb32: "n < 4 \<Longrightarrow> m < 4 \<Longrightarrow> bit (bpf_mvb32 x n m) i \<longleftrightarrow> m * 8 \<le> i \<and> i < m * 8 + 8 \<and> bit x (i - m * 8 + n * 8)"
  by (auto simp: bpf_mvb32_def bit_push_bit_iff bit_drop_bit_eq algebra_simps)

lemma bit_bpf_mvb64: "n < 8 \<Longrightarrow> m < 8 \<Longrightarrow> bit (bpf_mvb64 x n m) i \<longleftrightarrow> m * 8 \<le> i \<and> i < m * 8 + 8 \<and> bit x (i - m * 8 + n * 8)"
  by (auto simp: bpf_mvb64_def bit_push_bit_iff bit_drop_bit_eq algebra_simps)

lemma less_cases:
  "n < 2 \<Longrightarrow> n = 0 \<or> n = (1 :: nat)" "n < 4 \<Longrightarrow> n = 0 \<or> n = 1 \<or> n = 2 \<or> n = (3 :: nat)"
  "n < 8 \<Longrightarrow> n = 0 \<or> n = 1 \<or> n = 2 \<or> n = 3 \<or> n = 4 \<or> n = 5 \<or> n = 6 \<or> n = (7 :: nat)"
  by auto

lemma byte_at_swab16: "n < 2 \<Longrightarrow> byte_at n (bpf_swab16 x) = byte_at (1 - n) x"
  by (drule less_cases, elim disjE; simp)
    (rule byte_at_cong; auto simp: bpf_swab16_def bpf_mvb16_def bit_ucast_iff bit_or_iff bit_push_bit_iff bit_drop_bit_eq
      dest: bit_imp_le_length)+

lemma byte_at_swab32: "n < 4 \<Longrightarrow> byte_at n (bpf_swab32 x) = byte_at (3 - n) x"
  by (drule less_cases, elim disjE; simp)
    (rule byte_at_cong; simp add: bpf_swab32_def bit_or_iff bit_bpf_mvb32 add.commute)+

lemma byte_at_swab64: "n < 8 \<Longrightarrow> byte_at n (bpf_swab64 x) = byte_at (7 - n) x"
  by (drule less_cases, elim disjE; simp)
    (rule byte_at_cong; simp add: bpf_swab64_def bit_or_iff bit_bpf_mvb64 add.commute)+

lemma swab_bswap: "bpf_swab16 x = bswap 2 x" "bpf_swab32 y = bswap 4 y" "bpf_swab64 z = bswap 8 z"
  by (rule bytes_eqI [where k = 2], simp, simp add: byte_at_swab16 byte_at_bswap,
      rule bytes_eqI [where k = 4], simp, simp add: byte_at_swab32 byte_at_bswap,
      rule bytes_eqI [where k = 8], simp, simp add: byte_at_swab64 byte_at_bswap)

lemma bswap_bswap: "LENGTH('a) = 8 * k \<Longrightarrow> bswap k (bswap k w) = (w :: 'a::len word)"
proof (rule bytes_eqI)
  fix n assume "LENGTH('a) = 8 * k" "n < k"
  moreover from \<open>n < k\<close> have "k - 1 - n < k" "k - 1 - (k - 1 - n) = n" by auto
  ultimately show "byte_at n (bswap k (bswap k w)) = byte_at n w" by (simp add: byte_at_bswap del: diff_diff_left)
qed

section \<open>Host and network order\<close>

datatype byte_order = LITTLE_ENDIAN_ORDER | BIG_ENDIAN_ORDER

text \<open>The run-time and the constant variant of each conversion.\<close>

definition run_ntohs :: "byte_order \<Rightarrow> u16 \<Rightarrow> u16" where
  "run_ntohs ord x = (case ord of LITTLE_ENDIAN_ORDER \<Rightarrow> bswap 2 x | BIG_ENDIAN_ORDER \<Rightarrow> x)"
definition run_htons :: "byte_order \<Rightarrow> u16 \<Rightarrow> u16" where
  "run_htons ord x = (case ord of LITTLE_ENDIAN_ORDER \<Rightarrow> bswap 2 x | BIG_ENDIAN_ORDER \<Rightarrow> x)"
definition constant_ntohs :: "byte_order \<Rightarrow> u16 \<Rightarrow> u16" where
  "constant_ntohs ord x = (case ord of LITTLE_ENDIAN_ORDER \<Rightarrow> bpf_swab16 x | BIG_ENDIAN_ORDER \<Rightarrow> x)"
definition constant_htons :: "byte_order \<Rightarrow> u16 \<Rightarrow> u16" where
  "constant_htons ord x = (case ord of LITTLE_ENDIAN_ORDER \<Rightarrow> bpf_swab16 x | BIG_ENDIAN_ORDER \<Rightarrow> x)"
definition run_ntohl :: "byte_order \<Rightarrow> u32 \<Rightarrow> u32" where
  "run_ntohl ord x = (case ord of LITTLE_ENDIAN_ORDER \<Rightarrow> bswap 4 x | BIG_ENDIAN_ORDER \<Rightarrow> x)"
definition run_htonl :: "byte_order \<Rightarrow> u32 \<Rightarrow> u32" where
  "run_htonl ord x = (case ord of LITTLE_ENDIAN_ORDER \<Rightarrow> bswap 4 x | BIG_ENDIAN_ORDER \<Rightarrow> x)"
definition constant_ntohl :: "byte_order \<Rightarrow> u32 \<Rightarrow> u32" where
  "constant_ntohl ord x = (case ord of LITTLE_ENDIAN_ORDER \<Rightarrow> bpf_swab32 x | BIG_ENDIAN_ORDER \<Rightarrow> x)"
definition constant_htonl :: "byte_order \<Rightarrow> u32 \<Rightarrow> u32" where
  "constant_htonl ord x = (case ord of LITTLE_ENDIAN_ORDER \<Rightarrow> bpf_swab32 x | BIG_ENDIAN_ORDER \<Rightarrow> x)"
definition run_be64_to_cpu :: "byte_order \<Rightarrow> u64 \<Rightarrow> u64" where
  "run_be64_to_cpu ord x = (case ord of LITTLE_ENDIAN_ORDER \<Rightarrow> bswap 8 x | BIG_ENDIAN_ORDER \<Rightarrow> x)"
definition run_cpu_to_be64 :: "byte_order \<Rightarrow> u64 \<Rightarrow> u64" where
  "run_cpu_to_be64 ord x = (case ord of LITTLE_ENDIAN_ORDER \<Rightarrow> bswap 8 x | BIG_ENDIAN_ORDER \<Rightarrow> x)"
definition constant_be64_to_cpu :: "byte_order \<Rightarrow> u64 \<Rightarrow> u64" where
  "constant_be64_to_cpu ord x = (case ord of LITTLE_ENDIAN_ORDER \<Rightarrow> bpf_swab64 x | BIG_ENDIAN_ORDER \<Rightarrow> x)"
definition constant_cpu_to_be64 :: "byte_order \<Rightarrow> u64 \<Rightarrow> u64" where
  "constant_cpu_to_be64 ord x = (case ord of LITTLE_ENDIAN_ORDER \<Rightarrow> bpf_swab64 x | BIG_ENDIAN_ORDER \<Rightarrow> x)"

text \<open>The macros choose by whether the compiler knows their argument: \<open>const\<close> is \<open>__builtin_constant_p\<close>.\<close>

definition bpf_htons :: "byte_order \<Rightarrow> bool \<Rightarrow> u16 \<Rightarrow> u16" where
  "bpf_htons ord const x = (if const then constant_htons ord x else run_htons ord x)"
definition bpf_ntohs :: "byte_order \<Rightarrow> bool \<Rightarrow> u16 \<Rightarrow> u16" where
  "bpf_ntohs ord const x = (if const then constant_ntohs ord x else run_ntohs ord x)"
definition bpf_htonl :: "byte_order \<Rightarrow> bool \<Rightarrow> u32 \<Rightarrow> u32" where
  "bpf_htonl ord const x = (if const then constant_htonl ord x else run_htonl ord x)"
definition bpf_ntohl :: "byte_order \<Rightarrow> bool \<Rightarrow> u32 \<Rightarrow> u32" where
  "bpf_ntohl ord const x = (if const then constant_ntohl ord x else run_ntohl ord x)"
definition bpf_cpu_to_be64 :: "byte_order \<Rightarrow> bool \<Rightarrow> u64 \<Rightarrow> u64" where
  "bpf_cpu_to_be64 ord const x = (if const then constant_cpu_to_be64 ord x else run_cpu_to_be64 ord x)"
definition bpf_be64_to_cpu :: "byte_order \<Rightarrow> bool \<Rightarrow> u64 \<Rightarrow> u64" where
  "bpf_be64_to_cpu ord const x = (if const then constant_be64_to_cpu ord x else run_be64_to_cpu ord x)"

lemmas order_defs = bpf_htons_def bpf_ntohs_def bpf_htonl_def bpf_ntohl_def bpf_cpu_to_be64_def bpf_be64_to_cpu_def
  run_ntohs_def run_htons_def constant_ntohs_def constant_htons_def run_ntohl_def run_htonl_def constant_ntohl_def
  constant_htonl_def run_be64_to_cpu_def run_cpu_to_be64_def constant_be64_to_cpu_def constant_cpu_to_be64_def

text \<open>The bytes of a \<open>k\<close>-byte word in the memory of a host.\<close>

definition memory_bytes :: "byte_order \<Rightarrow> nat \<Rightarrow> 'a::len word \<Rightarrow> u8 list" where
  "memory_bytes ord k w =
     (case ord of LITTLE_ENDIAN_ORDER \<Rightarrow> map (\<lambda>n. byte_at n w) [0..<k]
      | BIG_ENDIAN_ORDER \<Rightarrow> rev (map (\<lambda>n. byte_at n w) [0..<k]))"

lemma memory_bswap:
  "8 * k \<le> LENGTH('a) \<Longrightarrow> map (\<lambda>n. byte_at n (bswap k w :: 'a::len word)) [0..<k] = rev (map (\<lambda>n. byte_at n w) [0..<k])"
  by (rule nth_equalityI) (simp_all add: byte_at_bswap rev_nth)

lemma network_order_bytes:
  "memory_bytes ord 2 (bpf_htons ord const x) = rev (map (\<lambda>n. byte_at n x) [0..<2])"
  "memory_bytes ord 4 (bpf_htonl ord const y) = rev (map (\<lambda>n. byte_at n y) [0..<4])"
  "memory_bytes ord 8 (bpf_cpu_to_be64 ord const z) = rev (map (\<lambda>n. byte_at n z) [0..<8])"
  using memory_bswap [of 2 x] memory_bswap [of 4 y] memory_bswap [of 8 z]
  by (cases ord; simp add: order_defs memory_bytes_def swab_bswap)+

text \<open>
  On a host of either byte order, and whether or not the compiler folds a conversion, the
  converted value lies in memory with its most significant byte first, and converting it back gives
  the value.
\<close>

theorem network_order:
  "memory_bytes ord 2 (bpf_htons ord c x) = rev (map (\<lambda>n. byte_at n x) [0..<2]) \<and> bpf_ntohs ord c' (bpf_htons ord c x) = x \<and>
   memory_bytes ord 4 (bpf_htonl ord c y) = rev (map (\<lambda>n. byte_at n y) [0..<4]) \<and> bpf_ntohl ord c' (bpf_htonl ord c y) = y \<and>
   memory_bytes ord 8 (bpf_cpu_to_be64 ord c z) = rev (map (\<lambda>n. byte_at n z) [0..<8]) \<and>
   bpf_be64_to_cpu ord c' (bpf_cpu_to_be64 ord c z) = z"
  unfolding network_order_bytes by (cases ord) (simp_all add: order_defs swab_bswap bswap_bswap)

end
