(* ===== verification/Core_Read.thy ===== *)
theory Core_Read
  imports Bpf_Endian "HOL-Library.Monad_Syntax"
begin

text \<open>
  The bundled \<open>bpf/bpf_core_read.h\<close>: reading bit fields and chains of pointers in a relocatable
  way. The compiler's built-ins, whose results libbpf fills in when it loads the program, and the
  kernel's \<open>bpf_probe_read\<close> functions are parameters. The macros that take a program's arguments
  apart are functions on the list of the arguments; an expansion that pastes a name no macro has is
  \<open>None\<close>.
\<close>

unbundle bit_operations_syntax

section \<open>The built-ins\<close>

datatype field_info_kind =
  BPF_FIELD_BYTE_OFFSET | BPF_FIELD_BYTE_SIZE | BPF_FIELD_EXISTS | BPF_FIELD_SIGNED | BPF_FIELD_LSHIFT_U64 | BPF_FIELD_RSHIFT_U64

datatype type_id_kind = BPF_TYPE_ID_LOCAL | BPF_TYPE_ID_TARGET

datatype type_info_kind = BPF_TYPE_EXISTS | BPF_TYPE_SIZE

datatype enum_value_kind = BPF_ENUMVAL_EXISTS | BPF_ENUMVAL_VALUE

record ('f, 't, 'e) core_builtins =
  preserve_field_info :: "'f \<Rightarrow> field_info_kind \<Rightarrow> u32"
  btf_type_id :: "'t \<Rightarrow> type_id_kind \<Rightarrow> u32"
  preserve_type_info :: "'t \<Rightarrow> type_info_kind \<Rightarrow> u32"
  preserve_enum_value :: "'e \<Rightarrow> enum_value_kind \<Rightarrow> u64"

definition CORE_RELO :: "('f, 't, 'e, 'x) core_builtins_scheme \<Rightarrow> 'f \<Rightarrow> field_info_kind \<Rightarrow> u32" where
  "CORE_RELO cb field info = preserve_field_info cb field info"

definition bpf_core_field_exists :: "('f, 't, 'e) core_builtins \<Rightarrow> 'f \<Rightarrow> u32" where
  "bpf_core_field_exists cb field = preserve_field_info cb field BPF_FIELD_EXISTS"

definition bpf_core_field_size :: "('f, 't, 'e) core_builtins \<Rightarrow> 'f \<Rightarrow> u32" where
  "bpf_core_field_size cb field = preserve_field_info cb field BPF_FIELD_BYTE_SIZE"

definition bpf_core_type_id_local :: "('f, 't, 'e) core_builtins \<Rightarrow> 't \<Rightarrow> u32" where
  "bpf_core_type_id_local cb ty = btf_type_id cb ty BPF_TYPE_ID_LOCAL"

definition bpf_core_type_id_kernel :: "('f, 't, 'e) core_builtins \<Rightarrow> 't \<Rightarrow> u32" where
  "bpf_core_type_id_kernel cb ty = btf_type_id cb ty BPF_TYPE_ID_TARGET"

definition bpf_core_type_exists :: "('f, 't, 'e) core_builtins \<Rightarrow> 't \<Rightarrow> u32" where
  "bpf_core_type_exists cb ty = preserve_type_info cb ty BPF_TYPE_EXISTS"

definition bpf_core_type_size :: "('f, 't, 'e) core_builtins \<Rightarrow> 't \<Rightarrow> u32" where
  "bpf_core_type_size cb ty = preserve_type_info cb ty BPF_TYPE_SIZE"

definition bpf_core_enum_value_exists :: "('f, 't, 'e) core_builtins \<Rightarrow> 'e \<Rightarrow> u64" where
  "bpf_core_enum_value_exists cb v = preserve_enum_value cb v BPF_ENUMVAL_EXISTS"

definition bpf_core_enum_value :: "('f, 't, 'e) core_builtins \<Rightarrow> 'e \<Rightarrow> u64" where
  "bpf_core_enum_value cb v = preserve_enum_value cb v BPF_ENUMVAL_VALUE"

section \<open>Bit fields\<close>

text \<open>
  \<open>bpf_probe_read_kernel\<close> gets an address and the bytes of the destination, whose number is the
  size, and returns its result and the bytes it leaves there.
\<close>

type_synonym probe_fn = "u64 \<Rightarrow> u8 list \<Rightarrow> int \<times> u8 list"

definition of_memory :: "byte_order \<Rightarrow> u8 list \<Rightarrow> u64" where
  "of_memory ord bs = (case ord of LITTLE_ENDIAN_ORDER \<Rightarrow> of_bytes bs | BIG_ENDIAN_ORDER \<Rightarrow> of_bytes (rev bs))"

definition core_bitfield_probe_read ::
  "byte_order \<Rightarrow> ('f, 't, 'e) core_builtins \<Rightarrow> probe_fn \<Rightarrow> u64 \<Rightarrow> u64 \<Rightarrow> 'f \<Rightarrow> int \<times> u64" where
  "core_bitfield_probe_read ord cb probe_read val src fld =
     (let dst = memory_bytes ord 8 val;
          sz = unat (CORE_RELO cb fld BPF_FIELD_BYTE_SIZE);
          at = (case ord of LITTLE_ENDIAN_ORDER \<Rightarrow> 0 | BIG_ENDIAN_ORDER \<Rightarrow> 8 - sz);
          (ret, got) = probe_read (src + ucast (CORE_RELO cb fld BPF_FIELD_BYTE_OFFSET)) (take sz (drop at dst))
      in (ret, of_memory ord (take at dst @ got @ drop (at + sz) dst)))"

definition bitfield_shifts :: "('f, 't, 'e) core_builtins \<Rightarrow> 'f \<Rightarrow> u64 \<Rightarrow> u64" where
  "bitfield_shifts cb field val0 =
     (let val = push_bit (unat (CORE_RELO cb field BPF_FIELD_LSHIFT_U64)) val0
      in if CORE_RELO cb field BPF_FIELD_SIGNED \<noteq> 0
         then signed_drop_bit (unat (CORE_RELO cb field BPF_FIELD_RSHIFT_U64)) val
         else drop_bit (unat (CORE_RELO cb field BPF_FIELD_RSHIFT_U64)) val)"

definition BPF_CORE_READ_BITFIELD_PROBED ::
  "byte_order \<Rightarrow> ('f, 't, 'e) core_builtins \<Rightarrow> probe_fn \<Rightarrow> u64 \<Rightarrow> 'f \<Rightarrow> u64" where
  "BPF_CORE_READ_BITFIELD_PROBED ord cb probe_read s field =
     (case core_bitfield_probe_read ord cb probe_read 0 s field of (ret, val) \<Rightarrow> bitfield_shifts cb field val)"

text \<open>A load through a pointer; \<open>None\<close> is a fault.\<close>

definition load :: "byte_order \<Rightarrow> (u64 \<Rightarrow> u8 option) \<Rightarrow> u64 \<Rightarrow> nat \<Rightarrow> u64 option" where
  "load ord m p n =
     (let bs = map (\<lambda>i. m (p + word_of_nat i)) [0..<n]
      in if None \<in> set bs then None else Some (of_memory ord (map the bs)))"

text \<open>For a size outside the \<open>switch\<close> the value is uninitialised, \<open>None\<close> as well.\<close>

definition BPF_CORE_READ_BITFIELD ::
  "byte_order \<Rightarrow> ('f, 't, 'e) core_builtins \<Rightarrow> (u64 \<Rightarrow> u8 option) \<Rightarrow> u64 \<Rightarrow> 'f \<Rightarrow> u64 option" where
  "BPF_CORE_READ_BITFIELD ord cb m s field =
     (let p = s + ucast (CORE_RELO cb field BPF_FIELD_BYTE_OFFSET);
          sz = CORE_RELO cb field BPF_FIELD_BYTE_SIZE
      in map_option (bitfield_shifts cb field)
           (if sz = 1 then load ord m p 1
            else if sz = 2 then load ord m p 2
            else if sz = 4 then load ord m p 4
            else if sz = 8 then load ord m p 8
            else None))"

text \<open>
  What libbpf writes for the built-ins: the field lies in a storage unit of \<open>n\<close> bytes at offset
  \<open>off\<close>, begins \<open>bo\<close> bits into it in the order of the machine and has \<open>sz\<close> bits; the shifts count
  from a value loaded into the low bytes of 64 bits.
\<close>

definition field_is ::
  "byte_order \<Rightarrow> ('f, 't, 'e) core_builtins \<Rightarrow> 'f \<Rightarrow> u32 \<Rightarrow> nat \<Rightarrow> nat \<Rightarrow> nat \<Rightarrow> bool \<Rightarrow> bool" where
  "field_is ord cb f off n bo sz signd \<longleftrightarrow>
     preserve_field_info cb f BPF_FIELD_BYTE_OFFSET = off \<and>
     n \<in> {1, 2, 4, 8} \<and> unat (preserve_field_info cb f BPF_FIELD_BYTE_SIZE) = n \<and>
     0 < sz \<and> bo + sz \<le> 8 * n \<and>
     (preserve_field_info cb f BPF_FIELD_SIGNED \<noteq> 0) = signd \<and>
     unat (preserve_field_info cb f BPF_FIELD_LSHIFT_U64) =
       (case ord of LITTLE_ENDIAN_ORDER \<Rightarrow> 64 - (bo + sz) | BIG_ENDIAN_ORDER \<Rightarrow> (8 - n) * 8 + bo) \<and>
     unat (preserve_field_info cb f BPF_FIELD_RSHIFT_U64) = 64 - sz"

text \<open>Where the field is in the number the storage unit holds: bits are counted from the end its order starts at.\<close>

definition field_pos :: "byte_order \<Rightarrow> nat \<Rightarrow> nat \<Rightarrow> nat \<Rightarrow> nat" where
  "field_pos ord n bo sz = (case ord of LITTLE_ENDIAN_ORDER \<Rightarrow> bo | BIG_ENDIAN_ORDER \<Rightarrow> 8 * n - bo - sz)"

definition field_value :: "bool \<Rightarrow> nat \<Rightarrow> nat \<Rightarrow> u64 \<Rightarrow> u64" where
  "field_value signd pos sz unit =
     (let v = take_bit sz (drop_bit pos unit) in if signd then signed_take_bit (sz - 1) v else v)"

text \<open>The helper as documented: it fills the destination exactly when all bytes can be read.\<close>

definition probe_reads :: "(u64 \<Rightarrow> u8 option) \<Rightarrow> probe_fn \<Rightarrow> bool" where
  "probe_reads m probe_read \<longleftrightarrow>
     (\<forall>p dst. let bs = map (\<lambda>i. m (p + word_of_nat i)) [0..<length dst]
        in if None \<in> set bs then fst (probe_read p dst) < 0 else probe_read p dst = (0, map the bs))"

lemma of_bytes_zeros: "of_bytes (bs @ replicate k 0) = of_bytes bs"
proof (induction bs)
  case Nil
  show ?case by (induction k) simp_all
qed simp

lemma shifts_extract:
  fixes unit :: u64
  assumes "l + pos + sz = 64" "0 < sz"
  shows "drop_bit (64 - sz) (push_bit l unit) = take_bit sz (drop_bit pos unit)"
    and "signed_drop_bit (64 - sz) (push_bit l unit) = signed_take_bit (sz - 1) (take_bit sz (drop_bit pos unit))"
proof -
  have at: "bit (push_bit l unit) (64 - sz + i) = (i < sz \<and> bit unit (pos + i))" for i
  proof -
    have "64 - sz + i - l = pos + i" "l \<le> 64 - sz + i" "64 - sz + i < 64 \<longleftrightarrow> i < sz" using assms by linarith+
    then show ?thesis by (auto simp: bit_push_bit_iff)
  qed
  show "drop_bit (64 - sz) (push_bit l unit) = take_bit sz (drop_bit pos unit)"
    by (rule bit_word_eqI) (simp add: bit_drop_bit_eq at bit_take_bit_iff)
  have top: "bit (push_bit l unit) 63 = bit unit (pos + (sz - 1))" using at [of "sz - 1"] assms by simp
  show "signed_drop_bit (64 - sz) (push_bit l unit) = signed_take_bit (sz - 1) (take_bit sz (drop_bit pos unit))"
  proof (rule bit_word_eqI)
    fix i :: nat assume i: "i < LENGTH(64)"
    show "bit (signed_drop_bit (64 - sz) (push_bit l unit)) i =
        bit (signed_take_bit (sz - 1) (take_bit sz (drop_bit pos unit))) i"
    proof (cases "sz \<le> i")
      case True
      then have "LENGTH(64) - (64 - sz) \<le> i" "min (sz - 1) i = sz - 1" using assms by auto
      with True i top assms(2) show ?thesis
        by (simp add: bit_signed_drop_bit_iff bit_signed_take_bit_iff bit_take_bit_iff bit_drop_bit_eq)
    next
      case False
      then have "\<not> LENGTH(64) - (64 - sz) \<le> i" "min (sz - 1) i = i" using assms by (auto simp: min_def)
      with False i at [of i] show ?thesis
        by (simp add: bit_signed_drop_bit_iff bit_signed_take_bit_iff bit_take_bit_iff bit_drop_bit_eq)
    qed
  qed
qed

lemma bitfield_shifts_value:
  assumes "field_is ord cb f off n bo sz signd"
  shows "bitfield_shifts cb f unit = field_value signd (field_pos ord n bo sz) sz unit"
proof -
  let ?l = "unat (preserve_field_info cb f BPF_FIELD_LSHIFT_U64)"
  let ?pos = "field_pos ord n bo sz"
  have r: "unat (preserve_field_info cb f BPF_FIELD_RSHIFT_U64) = 64 - sz" "0 < sz" "sz \<le> 64" "?l + ?pos + sz = 64"
    using assms by (auto simp: field_is_def field_pos_def split: byte_order.splits)
  note u = shifts_extract [OF r(4,2)]
  show ?thesis
    using assms u r(1) by (simp add: bitfield_shifts_def CORE_RELO_def field_value_def field_is_def Let_def)
qed

lemma load_bytes:
  "map (\<lambda>i. m (p + word_of_nat i)) [0..<n] = map Some bs \<Longrightarrow> load ord m p n = Some (of_memory ord bs)"
  by (simp add: load_def Let_def comp_def)

lemma probed_bytes:
  assumes "probe_reads m probe_read" "map (\<lambda>i. m (src + ucast off + word_of_nat i)) [0..<n] = map Some bs"
    and "field_is ord cb f off n bo sz signd"
  shows "core_bitfield_probe_read ord cb probe_read 0 src f = (0, of_memory ord bs)"
proof -
  have n: "length bs = n" using arg_cong [where f = length, OF assms(2)] by simp
  have zero: "memory_bytes od 8 (0 :: u64) = replicate 8 0" for od
    by (cases od) (simp_all add: memory_bytes_def byte_at_def map_replicate_const)
  have le: "n \<le> 8" and size: "unat (CORE_RELO cb f BPF_FIELD_BYTE_SIZE) = n" "CORE_RELO cb f BPF_FIELD_BYTE_OFFSET = off"
    using assms(3) by (auto simp: field_is_def CORE_RELO_def)
  have got: "probe_read (src + ucast off) (replicate n 0) = (0, bs)"
    using assms(1) [unfolded probe_reads_def Let_def, THEN spec, THEN spec, of "src + ucast off" "replicate n 0",
        unfolded length_replicate assms(2)]
    by (simp add: comp_def split: if_splits)
  have "of_memory ord (replicate (8 - n) 0 @ bs) = of_memory ord bs" if "ord = BIG_ENDIAN_ORDER"
    using that of_bytes_zeros [of "rev bs" "8 - n"] by (simp add: of_memory_def)
  moreover have "of_memory ord (bs @ replicate (8 - n) 0) = of_memory ord bs" if "ord = LITTLE_ENDIAN_ORDER"
    using that of_bytes_zeros [of bs "8 - n"] by (simp add: of_memory_def)
  ultimately show ?thesis
    using le got n by (cases ord) (simp_all add: core_bitfield_probe_read_def size zero Let_def min_def)
qed


text \<open>A signed field of 5 bits, 3 bits into a storage unit of two bytes at offset 4.\<close>

definition demo_builtins :: "byte_order \<Rightarrow> (unit, unit, unit) core_builtins" where
  "demo_builtins ord = \<lparr>preserve_field_info = (\<lambda>f k. case k of BPF_FIELD_BYTE_OFFSET \<Rightarrow> 4 | BPF_FIELD_BYTE_SIZE \<Rightarrow> 2
       | BPF_FIELD_EXISTS \<Rightarrow> 1 | BPF_FIELD_SIGNED \<Rightarrow> 1
       | BPF_FIELD_LSHIFT_U64 \<Rightarrow> (case ord of LITTLE_ENDIAN_ORDER \<Rightarrow> 56 | BIG_ENDIAN_ORDER \<Rightarrow> 51)
       | BPF_FIELD_RSHIFT_U64 \<Rightarrow> 59),
     btf_type_id = (\<lambda>_ _. 0), preserve_type_info = (\<lambda>_ _. 0), preserve_enum_value = (\<lambda>_ _. 0)\<rparr>"

definition demo_struct_mem :: "u64 \<Rightarrow> u8 option" where
  "demo_struct_mem a = (if a = 0x1004 then Some 0xD5 else if a = 0x1005 then Some 0x40 else None)"

definition probe_of :: "(u64 \<Rightarrow> u8 option) \<Rightarrow> probe_fn" where
  "probe_of m p dst = (let bs = map (\<lambda>i. m (p + word_of_nat i)) [0..<length dst]
     in if None \<in> set bs then (- 14, dst) else (0, map the bs))"

lemma probe_of_reads: "probe_reads m (probe_of m)"
  by (simp add: probe_reads_def probe_of_def Let_def)


section \<open>Taking arguments apart\<close>

text \<open>
  \<open>___nth\<close> expands to its twelfth argument. In \<open>___narg\<close> an argument of the program is \<open>None\<close> and a
  number of the padding \<open>Some\<close> of it; in \<open>___empty\<close> the padding is \<open>N\<close> or \<open>0\<close>.
\<close>

definition core_nth :: "'a list \<Rightarrow> 'a" where
  "core_nth xs = xs ! 11"

definition core_narg :: "'a list \<Rightarrow> nat option" where
  "core_narg args = core_nth (None # map (\<lambda>_. None) args @ map Some [10, 9, 8, 7, 6, 5, 4, 3, 2, 1, 0])"

datatype empty_tag = Tag_0 | Tag_N

definition core_empty :: "'a list \<Rightarrow> empty_tag option" where
  "core_empty args = core_nth (None # map (\<lambda>_. None) args @ replicate 10 (Some Tag_N) @ [Some Tag_0])"

text \<open>The families \<open>___last1\<close> to \<open>___last10\<close>, \<open>___nolast2\<close> to \<open>___nolast10\<close>, \<open>___arrow1\<close> to \<open>___arrow10\<close>.\<close>

definition last_n :: "nat \<Rightarrow> 'a list \<Rightarrow> 'a option" where
  "last_n n args = (if 1 \<le> n \<and> n \<le> 10 \<and> length args = n then Some (args ! (n - 1)) else None)"

definition nolast_n :: "nat \<Rightarrow> 'a list \<Rightarrow> 'a list option" where
  "nolast_n n args = (if 2 \<le> n \<and> n \<le> 10 \<and> length args = n then Some (take (n - 1) args) else None)"

definition arrow_n :: "nat \<Rightarrow> 'a list \<Rightarrow> 'a list option" where
  "arrow_n n args = (if 1 \<le> n \<and> n \<le> 10 \<and> length args = n then Some args else None)"

definition core_last :: "'a list \<Rightarrow> 'a option" where
  "core_last args = do { n \<leftarrow> core_narg args; last_n n args }"

definition core_nolast :: "'a list \<Rightarrow> 'a list option" where
  "core_nolast args = do { n \<leftarrow> core_narg args; nolast_n n args }"

text \<open>\<open>a->b->c\<close> and its type are the list of the names.\<close>

definition core_arrow :: "'a list \<Rightarrow> 'a list option" where
  "core_arrow args = do { n \<leftarrow> core_narg args; arrow_n n args }"

definition core_type :: "'a list \<Rightarrow> 'a list option" where
  "core_type args = core_arrow args"

section \<open>Chains of reads\<close>

datatype read_helper =
  Bpf_core_read | Bpf_core_read_user | Bpf_probe_read | Bpf_probe_read_user |
  Bpf_core_read_str | Bpf_core_read_user_str | Bpf_probe_read_str | Bpf_probe_read_user_str

datatype 'a read_base = From_src 'a | From_t

datatype read_dst = To_t | To_dst

text \<open>\<open>___read(read_fn, dst, src_type, src, accessor)\<close>\<close>

record 'a read_call =
  rc_fn :: read_helper
  rc_dst :: read_dst
  rc_type :: "'a list"
  rc_src :: "'a read_base"
  rc_field :: 'a

definition mk_read :: "read_helper \<Rightarrow> read_dst \<Rightarrow> 'a list \<Rightarrow> 'a read_base \<Rightarrow> 'a \<Rightarrow> 'a read_call" where
  "mk_read fn dst src_type src accessor = \<lparr>rc_fn = fn, rc_dst = dst, rc_type = src_type, rc_src = src, rc_field = accessor\<rparr>"

definition rd_first :: "read_helper \<Rightarrow> 'a \<Rightarrow> 'a \<Rightarrow> 'a read_call option" where
  "rd_first fn src a = do { t \<leftarrow> core_type [src]; Some (mk_read fn To_t t (From_src src) a) }"

definition rd_last :: "read_helper \<Rightarrow> 'a list \<Rightarrow> 'a read_call option" where
  "rd_last fn args = do { ns \<leftarrow> core_nolast args; t \<leftarrow> core_type ns; l \<leftarrow> core_last args; Some (mk_read fn To_t t From_t l) }"

text \<open>\<open>___rd_p1\<close> to \<open>___rd_p9\<close>\<close>

fun rd_p :: "nat \<Rightarrow> read_helper \<Rightarrow> 'a list \<Rightarrow> 'a read_call list option" where
  "rd_p 0 fn args = None"
| "rd_p (Suc 0) fn [src, a] = do { r \<leftarrow> rd_first fn src a; Some [r] }"
| "rd_p (Suc 0) fn args = None"
| "rd_p (Suc (Suc k)) fn args =
     (if Suc (Suc k) > 9 then None
      else do { ns \<leftarrow> core_nolast args; rs \<leftarrow> rd_p (Suc k) fn ns; r \<leftarrow> rd_last fn args; Some (rs @ [r]) })"

definition read_ptrs :: "read_helper \<Rightarrow> 'a \<Rightarrow> 'a list \<Rightarrow> 'a read_call list option" where
  "read_ptrs fn src args = do { n \<leftarrow> core_narg args; rd_p n fn (src # args) }"

definition core_read0 :: "read_helper \<Rightarrow> read_helper \<Rightarrow> 'a \<Rightarrow> 'a list \<Rightarrow> 'a read_call list option" where
  "core_read0 fn fn_ptr src args =
     (case args of [a] \<Rightarrow> do { t \<leftarrow> core_type [src]; Some [mk_read fn To_dst t (From_src src) a] } | _ \<Rightarrow> None)"

definition core_readN :: "read_helper \<Rightarrow> read_helper \<Rightarrow> 'a \<Rightarrow> 'a list \<Rightarrow> 'a read_call list option" where
  "core_readN fn fn_ptr src args =
     do { ns \<leftarrow> core_nolast args; rs \<leftarrow> read_ptrs fn_ptr src ns; t \<leftarrow> core_type (src # ns); l \<leftarrow> core_last args;
          Some (rs @ [mk_read fn To_dst t From_t l]) }"

definition core_read :: "read_helper \<Rightarrow> read_helper \<Rightarrow> 'a \<Rightarrow> 'a \<Rightarrow> 'a list \<Rightarrow> 'a read_call list option" where
  "core_read fn fn_ptr src a args =
     do { tag \<leftarrow> core_empty args;
          case tag of Tag_0 \<Rightarrow> core_read0 fn fn_ptr src (a # args) | Tag_N \<Rightarrow> core_readN fn fn_ptr src (a # args) }"

definition BPF_CORE_READ_INTO :: "'a \<Rightarrow> 'a \<Rightarrow> 'a list \<Rightarrow> 'a read_call list option" where
  "BPF_CORE_READ_INTO = core_read Bpf_core_read Bpf_core_read"

definition BPF_CORE_READ_USER_INTO :: "'a \<Rightarrow> 'a \<Rightarrow> 'a list \<Rightarrow> 'a read_call list option" where
  "BPF_CORE_READ_USER_INTO = core_read Bpf_core_read_user Bpf_core_read_user"

definition BPF_PROBE_READ_INTO :: "'a \<Rightarrow> 'a \<Rightarrow> 'a list \<Rightarrow> 'a read_call list option" where
  "BPF_PROBE_READ_INTO = core_read Bpf_probe_read Bpf_probe_read"

definition BPF_PROBE_READ_USER_INTO :: "'a \<Rightarrow> 'a \<Rightarrow> 'a list \<Rightarrow> 'a read_call list option" where
  "BPF_PROBE_READ_USER_INTO = core_read Bpf_probe_read_user Bpf_probe_read_user"

definition BPF_CORE_READ_STR_INTO :: "'a \<Rightarrow> 'a \<Rightarrow> 'a list \<Rightarrow> 'a read_call list option" where
  "BPF_CORE_READ_STR_INTO = core_read Bpf_core_read_str Bpf_core_read"

definition BPF_CORE_READ_USER_STR_INTO :: "'a \<Rightarrow> 'a \<Rightarrow> 'a list \<Rightarrow> 'a read_call list option" where
  "BPF_CORE_READ_USER_STR_INTO = core_read Bpf_core_read_user_str Bpf_core_read_user"

definition BPF_PROBE_READ_STR_INTO :: "'a \<Rightarrow> 'a \<Rightarrow> 'a list \<Rightarrow> 'a read_call list option" where
  "BPF_PROBE_READ_STR_INTO = core_read Bpf_probe_read_str Bpf_probe_read"

definition BPF_PROBE_READ_USER_STR_INTO :: "'a \<Rightarrow> 'a \<Rightarrow> 'a list \<Rightarrow> 'a read_call list option" where
  "BPF_PROBE_READ_USER_STR_INTO = core_read Bpf_probe_read_user_str Bpf_probe_read_user"

text \<open>The variants that give the value: its type, that of the whole chain, and the reads into it.\<close>

definition BPF_CORE_READ :: "'a \<Rightarrow> 'a \<Rightarrow> 'a list \<Rightarrow> ('a list \<times> 'a read_call list) option" where
  "BPF_CORE_READ src a args = do { t \<leftarrow> core_type (src # a # args); rs \<leftarrow> BPF_CORE_READ_INTO src a args; Some (t, rs) }"

definition BPF_CORE_READ_USER :: "'a \<Rightarrow> 'a \<Rightarrow> 'a list \<Rightarrow> ('a list \<times> 'a read_call list) option" where
  "BPF_CORE_READ_USER src a args = do { t \<leftarrow> core_type (src # a # args); rs \<leftarrow> BPF_CORE_READ_USER_INTO src a args; Some (t, rs) }"

definition BPF_PROBE_READ :: "'a \<Rightarrow> 'a \<Rightarrow> 'a list \<Rightarrow> ('a list \<times> 'a read_call list) option" where
  "BPF_PROBE_READ src a args = do { t \<leftarrow> core_type (src # a # args); rs \<leftarrow> BPF_PROBE_READ_INTO src a args; Some (t, rs) }"

definition BPF_PROBE_READ_USER :: "'a \<Rightarrow> 'a \<Rightarrow> 'a list \<Rightarrow> ('a list \<times> 'a read_call list) option" where
  "BPF_PROBE_READ_USER src a args = do { t \<leftarrow> core_type (src # a # args); rs \<leftarrow> BPF_PROBE_READ_USER_INTO src a args; Some (t, rs) }"

section \<open>What the chains expand to\<close>

lemma core_narg_length: "core_narg args = (if length args \<le> 10 then Some (length args) else None)"
proof (cases "length args \<le> 10")
  case True
  define k where "k = length args"
  have pad: "[10, 9, 8, 7, 6, 5, 4, 3, 2, 1, 0] = rev [0..<11 :: nat]" by (simp add: upt_rec)
  have "core_narg args = map Some (rev [0..<11]) ! (10 - k)"
    unfolding core_narg_def core_nth_def pad using True by (simp add: nth_append k_def del: upt_Suc upt_rec_numeral)
  also have "\<dots> = Some k" using True by (simp add: rev_nth k_def del: upt_Suc upt_rec_numeral)
  finally show ?thesis using True by (simp add: k_def)
next
  case False
  then show ?thesis by (simp add: core_narg_def core_nth_def nth_append)
qed

lemma core_empty_iff:
  "core_empty args = (if args = [] then Some Tag_0 else if length args \<le> 10 then Some Tag_N else None)"
proof (cases "length args \<le> 10")
  case True
  then have "core_empty args = (replicate 10 (Some Tag_N) @ [Some Tag_0]) ! (10 - length args)"
    by (simp add: core_empty_def core_nth_def nth_append)
  then show ?thesis using True by (cases args) (simp_all add: nth_append)
next
  case False
  then show ?thesis by (auto simp: core_empty_def core_nth_def nth_append)
qed

lemma core_lists:
  "core_last args = (if args \<noteq> [] \<and> length args \<le> 10 then Some (last args) else None)"
  "core_nolast args = (if 2 \<le> length args \<and> length args \<le> 10 then Some (butlast args) else None)"
  "core_type args = (if args \<noteq> [] \<and> length args \<le> 10 then Some args else None)"
  by (auto simp: core_last_def core_nolast_def core_type_def core_arrow_def core_narg_length last_n_def nolast_n_def arrow_n_def
      last_conv_nth butlast_conv_take Suc_le_eq split: Option.bind_splits)

text \<open>The \<open>i\<close>-th read of a chain: from the source or what the read before left, in the type of the chain so far.\<close>

definition chain_read :: "read_helper \<Rightarrow> read_dst \<Rightarrow> 'a \<Rightarrow> 'a list \<Rightarrow> nat \<Rightarrow> 'a read_call" where
  "chain_read fn dst src accs i =
     mk_read fn dst (src # take i accs) (if i = 0 then From_src src else From_t) (accs ! i)"

lemma chain_read_snoc:
  "n \<le> length accs \<Longrightarrow> map (chain_read fn dst src (accs @ [x])) [0..<n] = map (chain_read fn dst src accs) [0..<n]"
  by (simp add: chain_read_def nth_append)

lemma rd_p_chain:
  "1 \<le> length accs \<Longrightarrow> length accs \<le> 9 \<Longrightarrow>
    rd_p (length accs) fn (src # accs) = Some (map (chain_read fn To_t src accs) [0..<length accs])"
proof (induction accs rule: rev_induct)
  case (snoc x accs)
  show ?case
  proof (cases accs)
    case Nil
    then show ?thesis by (simp add: rd_first_def core_lists chain_read_def)
  next
    case (Cons y ys)
    have same: "map (chain_read fn To_t src (accs @ [x])) [0..<length accs] = map (chain_read fn To_t src accs) [0..<length accs]"
      by (rule chain_read_snoc) simp
    have "rd_p (length (accs @ [x])) fn (src # accs @ [x]) =
        do { rs \<leftarrow> rd_p (length accs) fn (src # accs); r \<leftarrow> rd_last fn (src # accs @ [x]); Some (rs @ [r]) }"
      using snoc.prems Cons by (simp add: core_lists)
    also have "rd_last fn (src # accs @ [x]) = Some (chain_read fn To_t src (accs @ [x]) (length accs))"
      using snoc.prems Cons by (simp add: rd_last_def core_lists chain_read_def butlast_append)
    finally show ?thesis using snoc Cons same by simp
  qed
qed simp

lemma core_read_main:
  "core_read fn fn_ptr src a args =
     (let accs = a # args; n = length args
      in if n < 10
         then Some (map (chain_read fn_ptr To_t src accs) [0..<n] @ [chain_read fn To_dst src accs n])
         else None)"
proof (cases args rule: rev_cases)
  case Nil
  then show ?thesis by (simp add: core_read_def core_empty_iff core_read0_def core_lists chain_read_def)
next
  case (snoc ys x)
  have same: "map (chain_read fn_ptr To_t src (a # ys @ [x])) [0..<Suc (length ys)] =
      map (chain_read fn_ptr To_t src (a # ys)) [0..<Suc (length ys)]"
    using chain_read_snoc [of "Suc (length ys)" "a # ys" fn_ptr To_t src x] by simp
  show ?thesis
    using rd_p_chain [of "a # ys" fn_ptr src] same snoc
    by (auto simp: core_read_def core_empty_iff core_readN_def core_lists read_ptrs_def core_narg_length
        chain_read_def nth_append butlast_append Let_def simp del: upt_Suc)
qed

text \<open>
  Claim C38. A chain of 1 to 10 accessors expands to one read per accessor, in order: the first from
  the source, every other from the pointer the read before it left, all but the last into the
  temporary, each through the type the chain has so far; 11 accessors do not expand, and with the
  value's type in front the limit is the 9 the header promises.
\<close>

theorem core_read_expands:
  "core_read fn fn_ptr src a args =
     (let accs = a # args; n = length args
      in if n < 10
         then Some (map (chain_read fn_ptr To_t src accs) [0..<n] @ [chain_read fn To_dst src accs n])
         else None) \<and>
   (BPF_CORE_READ src a args \<noteq> None) = (length (a # args) \<le> 9)"
  using core_read_main [of fn fn_ptr src a args] core_read_main [of Bpf_core_read Bpf_core_read src a args]
  by (auto simp: BPF_CORE_READ_def BPF_CORE_READ_INTO_def core_lists Let_def simp del: upt_Suc)

section \<open>What the chains read\<close>

text \<open>
  \<open>off\<close> is the relocated offset of an accessor in the structure a chain ends in, \<open>probe\<close> the helper
  behind each reading function; \<open>__t\<close> has 8 bytes. The value of the whole is the last result.
\<close>

record chain_state =
  ch_t :: u64
  ch_dst :: "u8 list"
  ch_ret :: int

definition exec_read ::
  "byte_order \<Rightarrow> ('a list \<Rightarrow> 'a \<Rightarrow> u64) \<Rightarrow> (read_helper \<Rightarrow> probe_fn) \<Rightarrow> u64 \<Rightarrow> 'a read_call \<Rightarrow> chain_state \<Rightarrow> chain_state" where
  "exec_read ord off probe src r st =
     (let base = (case rc_src r of From_src _ \<Rightarrow> src | From_t \<Rightarrow> ch_t st);
          p = base + off (rc_type r) (rc_field r)
      in case rc_dst r of
           To_t \<Rightarrow> (case probe (rc_fn r) p (memory_bytes ord 8 (ch_t st)) of
                     (ret, bs) \<Rightarrow> st\<lparr>ch_t := of_memory ord bs, ch_ret := ret\<rparr>)
         | To_dst \<Rightarrow> (case probe (rc_fn r) p (ch_dst st) of (ret, bs) \<Rightarrow> st\<lparr>ch_dst := bs, ch_ret := ret\<rparr>))"

definition exec_reads ::
  "byte_order \<Rightarrow> ('a list \<Rightarrow> 'a \<Rightarrow> u64) \<Rightarrow> (read_helper \<Rightarrow> probe_fn) \<Rightarrow> u64 \<Rightarrow> 'a read_call list \<Rightarrow> chain_state \<Rightarrow> chain_state" where
  "exec_reads ord off probe src rs st = fold (exec_read ord off probe src) rs st"

text \<open>The address of the last field, by following the pointers before it.\<close>

fun follow ::
  "byte_order \<Rightarrow> ('a list \<Rightarrow> 'a \<Rightarrow> u64) \<Rightarrow> (u64 \<Rightarrow> u8 option) \<Rightarrow> 'a list \<Rightarrow> 'a list \<Rightarrow> u64 \<Rightarrow> u64 option" where
  "follow ord off m path [] p = None"
| "follow ord off m path [a] p = Some (p + off path a)"
| "follow ord off m path (a # b # as) p =
     do { q \<leftarrow> load ord m (p + off path a) 8; follow ord off m (path @ [a]) (b # as) q }"

fun chain_from :: "read_helper \<Rightarrow> read_helper \<Rightarrow> 'a list \<Rightarrow> 'a read_base \<Rightarrow> 'a list \<Rightarrow> 'a read_call list" where
  "chain_from fn fn_ptr path base [] = []"
| "chain_from fn fn_ptr path base [a] = [mk_read fn To_dst path base a]"
| "chain_from fn fn_ptr path base (a # b # as) =
     mk_read fn_ptr To_t path base a # chain_from fn fn_ptr (path @ [a]) From_t (b # as)"

lemma chain_from_reads:
  "chain_from fn fn_ptr path base (a # as) =
     map (\<lambda>i. mk_read fn_ptr To_t (path @ take i (a # as)) (if i = 0 then base else From_t) ((a # as) ! i)) [0..<length as] @
     [mk_read fn To_dst (path @ take (length as) (a # as)) (if as = [] then base else From_t) ((a # as) ! length as)]"
proof (induction as arbitrary: a path base)
  case (Cons b as)
  then show ?case by (simp add: map_upt_Suc del: upt_Suc)
qed simp

lemma core_read_chain_from:
  "length as < 10 \<Longrightarrow> core_read fn fn_ptr src a as = Some (chain_from fn fn_ptr [src] (From_src src) (a # as))"
  by (simp add: core_read_main chain_from_reads chain_read_def Let_def)

lemma load_probe:
  assumes "probe_reads m f" "load ord m p 8 = Some q"
  shows "\<exists>bs. f p (memory_bytes ord 8 (t :: u64)) = (0, bs) \<and> of_memory ord bs = q"
proof -
  have "length (memory_bytes ord 8 t) = 8" by (cases ord) (simp_all add: memory_bytes_def)
  with assms show ?thesis by (force simp: probe_reads_def load_def Let_def split: if_splits)
qed

lemma exec_chain_from:
  assumes "probe_reads m (probe fn_ptr)"
  shows "follow ord off m path as v = Some p \<Longrightarrow> v = (case base of From_src _ \<Rightarrow> src | From_t \<Rightarrow> ch_t st) \<Longrightarrow>
    (ch_ret (exec_reads ord off probe src (chain_from fn fn_ptr path base as) st),
     ch_dst (exec_reads ord off probe src (chain_from fn fn_ptr path base as) st)) = probe fn p (ch_dst st)"
proof (induction as arbitrary: path base v st rule: induct_list012)
  case (2 a)
  then show ?case by (simp add: exec_reads_def exec_read_def mk_read_def Let_def split: prod.split)
next
  case (3 a b as)
  obtain q where q: "load ord m (v + off path a) 8 = Some q" "follow ord off m (path @ [a]) (b # as) q = Some p"
    using 3(3) by (auto split: Option.bind_splits)
  obtain bs where bs: "probe fn_ptr (v + off path a) (memory_bytes ord 8 (ch_t st)) = (0, bs)" "of_memory ord bs = q"
    using load_probe [OF assms q(1)] by blast
  have step: "exec_read ord off probe src (mk_read fn_ptr To_t path base a) st = st\<lparr>ch_t := q, ch_ret := 0\<rparr>"
    using bs 3(4) by (simp add: exec_read_def mk_read_def Let_def)
  show ?case
    using 3(2) [OF q(2), of "st\<lparr>ch_t := q, ch_ret := 0\<rparr>" From_t] step by (simp add: exec_reads_def)
qed simp

text \<open>
  Claim C39. When the pointers of a chain of 1 to 10 accessors can be followed, the chain is one
  call of its reading function on the caller's destination, at the address of the last field: it
  leaves there what that call leaves and has its result.
\<close>

theorem core_read_follows:
  assumes "probe_reads m (probe fn_ptr)" "core_read fn fn_ptr s a as = Some rs" "follow ord off m [s] (a # as) src = Some p"
  shows "(ch_ret (exec_reads ord off probe src rs st), ch_dst (exec_reads ord off probe src rs st)) = probe fn p (ch_dst st)"
proof -
  have "length as < 10" using assms(2) by (simp add: core_read_main Let_def split: if_splits)
  then have "rs = chain_from fn fn_ptr [s] (From_src s) (a # as)" using assms(2) core_read_chain_from by fastforce
  then show ?thesis
    using exec_chain_from [where probe = probe and fn_ptr = fn_ptr, OF assms(1,3), of src st "From_src s" fn] by simp
qed

text \<open>\<open>s->next->val\<close>, with the pointer \<open>next\<close> at 0x2008.\<close>

definition demo_chain_mem :: "u64 \<Rightarrow> u8 option" where
  "demo_chain_mem a = (if a = 0x2009 then Some 0x10 else if 0x2008 \<le> a \<and> a < 0x2010 then Some 0 else demo_struct_mem a)"

lemma core_read_follows_witness:
  "\<exists>rs. BPF_CORE_READ_INTO ''s'' ''next'' [''val''] = Some rs \<and>
    ch_dst (exec_reads LITTLE_ENDIAN_ORDER (\<lambda>path f. if f = ''next'' then 8 else 4) (\<lambda>_. probe_of demo_chain_mem) 0x2000 rs
      \<lparr>ch_t = 0, ch_dst = [0, 0], ch_ret = - 1\<rparr>) = [0xD5, 0x40]"
proof -
  let ?off = "\<lambda>path f. if f = ''next'' then 8 else 4"
  obtain rs where rs: "core_read Bpf_core_read Bpf_core_read ''s'' ''next'' [''val''] = Some rs"
    by (simp add: core_read_main Let_def)
  have load: "load LITTLE_ENDIAN_ORDER demo_chain_mem 0x2008 8 = Some 0x1000"
    by (simp add: load_def demo_chain_mem_def of_memory_def upt_rec Let_def)
  then have fol: "follow LITTLE_ENDIAN_ORDER ?off demo_chain_mem [''s''] [''next'', ''val''] 0x2000 = Some 0x1004"
    by simp
  have "probe_of demo_chain_mem 0x1004 [0, 0] = (0, [0xD5, 0x40])"
    by (simp add: probe_of_def demo_chain_mem_def demo_struct_mem_def upt_rec)
  with core_read_follows [where probe = "\<lambda>_. probe_of demo_chain_mem", OF probe_of_reads rs fol, of "\<lparr>ch_t = 0, ch_dst = [0, 0], ch_ret = - 1\<rparr>"] rs
  show ?thesis by (auto simp: BPF_CORE_READ_INTO_def)
qed

end
