(* ===== verification/Pt_Regs.thy ===== *)
theory Pt_Regs
  imports Trace_Prelude
begin

text \<open>
  The macros of the bundled \<open>bpf/bpf_tracing.h\<close>: the choice of the target architecture, the register
  each accessor of \<open>struct pt_regs\<close> names on it, directly and through \<open>BPF_CORE_READ\<close>, and the
  argument lists the program macros build. A preprocessor environment is the set of defined names,
  a macro's expansion is a value of a datatype.
\<close>

section \<open>Targets\<close>

datatype bpf_target =
  Target_x86 | Target_s390 | Target_arm | Target_arm64 | Target_mips | Target_powerpc | Target_sparc

text \<open>None when neither the build nor the compiler names one: \<open>bpf_target_defined\<close> is not defined then.\<close>

definition bpf_target :: "(string \<Rightarrow> bool) \<Rightarrow> bpf_target option" where
  "bpf_target defd =
     (if defd ''__TARGET_ARCH_x86'' then Some Target_x86
      else if defd ''__TARGET_ARCH_s390'' then Some Target_s390
      else if defd ''__TARGET_ARCH_arm'' then Some Target_arm
      else if defd ''__TARGET_ARCH_arm64'' then Some Target_arm64
      else if defd ''__TARGET_ARCH_mips'' then Some Target_mips
      else if defd ''__TARGET_ARCH_powerpc'' then Some Target_powerpc
      else if defd ''__TARGET_ARCH_sparc'' then Some Target_sparc
      else if defd ''__x86_64__'' then Some Target_x86
      else if defd ''__s390__'' then Some Target_s390
      else if defd ''__arm__'' then Some Target_arm
      else if defd ''__aarch64__'' then Some Target_arm64
      else if defd ''__mips__'' then Some Target_mips
      else if defd ''__powerpc__'' then Some Target_powerpc
      else if defd ''__sparc__'' then Some Target_sparc
      else None)"

section \<open>Registers\<close>

text \<open>
  The accessors \<open>PT_REGS_PARM1\<close> to \<open>PT_REGS_IP\<close>. An expansion is a member of the structure, an
  element of an array member (by a number or by a name of the kernel's headers), the constant 0, or
  the pragma that stops the build.
\<close>

datatype pt_acc = PARM1 | PARM2 | PARM3 | PARM4 | PARM5 | RET | FP | RC | SP | IP

datatype reg = Field string | Elem string nat | Elem_at string string | Zero_value | Target_missing

fun PT_REGS_x86_kernel :: "pt_acc \<Rightarrow> reg option" where
  "PT_REGS_x86_kernel PARM1 = Some (Field ''di'')"
| "PT_REGS_x86_kernel PARM2 = Some (Field ''si'')"
| "PT_REGS_x86_kernel PARM3 = Some (Field ''dx'')"
| "PT_REGS_x86_kernel PARM4 = Some (Field ''cx'')"
| "PT_REGS_x86_kernel PARM5 = Some (Field ''r8'')"
| "PT_REGS_x86_kernel RET = Some (Field ''sp'')"
| "PT_REGS_x86_kernel FP = Some (Field ''bp'')"
| "PT_REGS_x86_kernel RC = Some (Field ''ax'')"
| "PT_REGS_x86_kernel SP = Some (Field ''sp'')"
| "PT_REGS_x86_kernel IP = Some (Field ''ip'')"

fun PT_REGS_x86_kernel_CORE :: "pt_acc \<Rightarrow> reg option" where
  "PT_REGS_x86_kernel_CORE PARM1 = Some (Field ''di'')"
| "PT_REGS_x86_kernel_CORE PARM2 = Some (Field ''si'')"
| "PT_REGS_x86_kernel_CORE PARM3 = Some (Field ''dx'')"
| "PT_REGS_x86_kernel_CORE PARM4 = Some (Field ''cx'')"
| "PT_REGS_x86_kernel_CORE PARM5 = Some (Field ''r8'')"
| "PT_REGS_x86_kernel_CORE RET = Some (Field ''sp'')"
| "PT_REGS_x86_kernel_CORE FP = Some (Field ''bp'')"
| "PT_REGS_x86_kernel_CORE RC = Some (Field ''ax'')"
| "PT_REGS_x86_kernel_CORE SP = Some (Field ''sp'')"
| "PT_REGS_x86_kernel_CORE IP = Some (Field ''ip'')"

fun PT_REGS_i386 :: "pt_acc \<Rightarrow> reg option" where
  "PT_REGS_i386 PARM1 = Some (Field ''eax'')"
| "PT_REGS_i386 PARM2 = Some (Field ''edx'')"
| "PT_REGS_i386 PARM3 = Some (Field ''ecx'')"
| "PT_REGS_i386 PARM4 = Some Zero_value"
| "PT_REGS_i386 PARM5 = Some Zero_value"
| "PT_REGS_i386 RET = Some (Field ''esp'')"
| "PT_REGS_i386 FP = Some (Field ''ebp'')"
| "PT_REGS_i386 RC = Some (Field ''eax'')"
| "PT_REGS_i386 SP = Some (Field ''esp'')"
| "PT_REGS_i386 IP = Some (Field ''eip'')"

fun PT_REGS_i386_CORE :: "pt_acc \<Rightarrow> reg option" where
  "PT_REGS_i386_CORE PARM1 = Some (Field ''eax'')"
| "PT_REGS_i386_CORE PARM2 = Some (Field ''edx'')"
| "PT_REGS_i386_CORE PARM3 = Some (Field ''ecx'')"
| "PT_REGS_i386_CORE PARM4 = Some Zero_value"
| "PT_REGS_i386_CORE PARM5 = Some Zero_value"
| "PT_REGS_i386_CORE RET = Some (Field ''esp'')"
| "PT_REGS_i386_CORE FP = Some (Field ''ebp'')"
| "PT_REGS_i386_CORE RC = Some (Field ''eax'')"
| "PT_REGS_i386_CORE SP = Some (Field ''esp'')"
| "PT_REGS_i386_CORE IP = Some (Field ''eip'')"

fun PT_REGS_x86_64 :: "pt_acc \<Rightarrow> reg option" where
  "PT_REGS_x86_64 PARM1 = Some (Field ''rdi'')"
| "PT_REGS_x86_64 PARM2 = Some (Field ''rsi'')"
| "PT_REGS_x86_64 PARM3 = Some (Field ''rdx'')"
| "PT_REGS_x86_64 PARM4 = Some (Field ''rcx'')"
| "PT_REGS_x86_64 PARM5 = Some (Field ''r8'')"
| "PT_REGS_x86_64 RET = Some (Field ''rsp'')"
| "PT_REGS_x86_64 FP = Some (Field ''rbp'')"
| "PT_REGS_x86_64 RC = Some (Field ''rax'')"
| "PT_REGS_x86_64 SP = Some (Field ''rsp'')"
| "PT_REGS_x86_64 IP = Some (Field ''rip'')"

fun PT_REGS_x86_64_CORE :: "pt_acc \<Rightarrow> reg option" where
  "PT_REGS_x86_64_CORE PARM1 = Some (Field ''rdi'')"
| "PT_REGS_x86_64_CORE PARM2 = Some (Field ''rsi'')"
| "PT_REGS_x86_64_CORE PARM3 = Some (Field ''rdx'')"
| "PT_REGS_x86_64_CORE PARM4 = Some (Field ''rcx'')"
| "PT_REGS_x86_64_CORE PARM5 = Some (Field ''r8'')"
| "PT_REGS_x86_64_CORE RET = Some (Field ''rsp'')"
| "PT_REGS_x86_64_CORE FP = Some (Field ''rbp'')"
| "PT_REGS_x86_64_CORE RC = Some (Field ''rax'')"
| "PT_REGS_x86_64_CORE SP = Some (Field ''rsp'')"
| "PT_REGS_x86_64_CORE IP = Some (Field ''rip'')"

fun PT_REGS_s390 :: "pt_acc \<Rightarrow> reg option" where
  "PT_REGS_s390 PARM1 = Some (Elem ''gprs'' 2)"
| "PT_REGS_s390 PARM2 = Some (Elem ''gprs'' 3)"
| "PT_REGS_s390 PARM3 = Some (Elem ''gprs'' 4)"
| "PT_REGS_s390 PARM4 = Some (Elem ''gprs'' 5)"
| "PT_REGS_s390 PARM5 = Some (Elem ''gprs'' 6)"
| "PT_REGS_s390 RET = Some (Elem ''gprs'' 14)"
| "PT_REGS_s390 FP = Some (Elem ''gprs'' 11)"
| "PT_REGS_s390 RC = Some (Elem ''gprs'' 2)"
| "PT_REGS_s390 SP = Some (Elem ''gprs'' 15)"
| "PT_REGS_s390 IP = Some (Field ''psw.addr'')"

fun PT_REGS_s390_CORE :: "pt_acc \<Rightarrow> reg option" where
  "PT_REGS_s390_CORE PARM1 = Some (Elem ''gprs'' 2)"
| "PT_REGS_s390_CORE PARM2 = Some (Elem ''gprs'' 3)"
| "PT_REGS_s390_CORE PARM3 = Some (Elem ''gprs'' 4)"
| "PT_REGS_s390_CORE PARM4 = Some (Elem ''gprs'' 5)"
| "PT_REGS_s390_CORE PARM5 = Some (Elem ''gprs'' 6)"
| "PT_REGS_s390_CORE RET = Some (Elem ''gprs'' 14)"
| "PT_REGS_s390_CORE FP = Some (Elem ''gprs'' 11)"
| "PT_REGS_s390_CORE RC = Some (Elem ''gprs'' 2)"
| "PT_REGS_s390_CORE SP = Some (Elem ''gprs'' 15)"
| "PT_REGS_s390_CORE IP = Some (Field ''psw.addr'')"

fun PT_REGS_arm :: "pt_acc \<Rightarrow> reg option" where
  "PT_REGS_arm PARM1 = Some (Elem ''uregs'' 0)"
| "PT_REGS_arm PARM2 = Some (Elem ''uregs'' 1)"
| "PT_REGS_arm PARM3 = Some (Elem ''uregs'' 2)"
| "PT_REGS_arm PARM4 = Some (Elem ''uregs'' 3)"
| "PT_REGS_arm PARM5 = Some (Elem ''uregs'' 4)"
| "PT_REGS_arm RET = Some (Elem ''uregs'' 14)"
| "PT_REGS_arm FP = Some (Elem ''uregs'' 11)"
| "PT_REGS_arm RC = Some (Elem ''uregs'' 0)"
| "PT_REGS_arm SP = Some (Elem ''uregs'' 13)"
| "PT_REGS_arm IP = Some (Elem ''uregs'' 12)"

fun PT_REGS_arm_CORE :: "pt_acc \<Rightarrow> reg option" where
  "PT_REGS_arm_CORE PARM1 = Some (Elem ''uregs'' 0)"
| "PT_REGS_arm_CORE PARM2 = Some (Elem ''uregs'' 1)"
| "PT_REGS_arm_CORE PARM3 = Some (Elem ''uregs'' 2)"
| "PT_REGS_arm_CORE PARM4 = Some (Elem ''uregs'' 3)"
| "PT_REGS_arm_CORE PARM5 = Some (Elem ''uregs'' 4)"
| "PT_REGS_arm_CORE RET = Some (Elem ''uregs'' 14)"
| "PT_REGS_arm_CORE FP = Some (Elem ''uregs'' 11)"
| "PT_REGS_arm_CORE RC = Some (Elem ''uregs'' 0)"
| "PT_REGS_arm_CORE SP = Some (Elem ''uregs'' 13)"
| "PT_REGS_arm_CORE IP = Some (Elem ''uregs'' 12)"

fun PT_REGS_arm64 :: "pt_acc \<Rightarrow> reg option" where
  "PT_REGS_arm64 PARM1 = Some (Elem ''regs'' 0)"
| "PT_REGS_arm64 PARM2 = Some (Elem ''regs'' 1)"
| "PT_REGS_arm64 PARM3 = Some (Elem ''regs'' 2)"
| "PT_REGS_arm64 PARM4 = Some (Elem ''regs'' 3)"
| "PT_REGS_arm64 PARM5 = Some (Elem ''regs'' 4)"
| "PT_REGS_arm64 RET = Some (Elem ''regs'' 30)"
| "PT_REGS_arm64 FP = Some (Elem ''regs'' 29)"
| "PT_REGS_arm64 RC = Some (Elem ''regs'' 0)"
| "PT_REGS_arm64 SP = Some (Field ''sp'')"
| "PT_REGS_arm64 IP = Some (Field ''pc'')"

fun PT_REGS_arm64_CORE :: "pt_acc \<Rightarrow> reg option" where
  "PT_REGS_arm64_CORE PARM1 = Some (Elem ''regs'' 0)"
| "PT_REGS_arm64_CORE PARM2 = Some (Elem ''regs'' 1)"
| "PT_REGS_arm64_CORE PARM3 = Some (Elem ''regs'' 2)"
| "PT_REGS_arm64_CORE PARM4 = Some (Elem ''regs'' 3)"
| "PT_REGS_arm64_CORE PARM5 = Some (Elem ''regs'' 4)"
| "PT_REGS_arm64_CORE RET = Some (Elem ''regs'' 30)"
| "PT_REGS_arm64_CORE FP = Some (Elem ''regs'' 29)"
| "PT_REGS_arm64_CORE RC = Some (Elem ''regs'' 0)"
| "PT_REGS_arm64_CORE SP = Some (Field ''sp'')"
| "PT_REGS_arm64_CORE IP = Some (Field ''pc'')"

fun PT_REGS_mips :: "pt_acc \<Rightarrow> reg option" where
  "PT_REGS_mips PARM1 = Some (Elem ''regs'' 4)"
| "PT_REGS_mips PARM2 = Some (Elem ''regs'' 5)"
| "PT_REGS_mips PARM3 = Some (Elem ''regs'' 6)"
| "PT_REGS_mips PARM4 = Some (Elem ''regs'' 7)"
| "PT_REGS_mips PARM5 = Some (Elem ''regs'' 8)"
| "PT_REGS_mips RET = Some (Elem ''regs'' 31)"
| "PT_REGS_mips FP = Some (Elem ''regs'' 30)"
| "PT_REGS_mips RC = Some (Elem ''regs'' 2)"
| "PT_REGS_mips SP = Some (Elem ''regs'' 29)"
| "PT_REGS_mips IP = Some (Field ''cp0_epc'')"

fun PT_REGS_mips_CORE :: "pt_acc \<Rightarrow> reg option" where
  "PT_REGS_mips_CORE PARM1 = Some (Elem ''regs'' 4)"
| "PT_REGS_mips_CORE PARM2 = Some (Elem ''regs'' 5)"
| "PT_REGS_mips_CORE PARM3 = Some (Elem ''regs'' 6)"
| "PT_REGS_mips_CORE PARM4 = Some (Elem ''regs'' 7)"
| "PT_REGS_mips_CORE PARM5 = Some (Elem ''regs'' 8)"
| "PT_REGS_mips_CORE RET = Some (Elem ''regs'' 31)"
| "PT_REGS_mips_CORE FP = Some (Elem ''regs'' 30)"
| "PT_REGS_mips_CORE RC = Some (Elem ''regs'' 2)"
| "PT_REGS_mips_CORE SP = Some (Elem ''regs'' 29)"
| "PT_REGS_mips_CORE IP = Some (Field ''cp0_epc'')"

fun PT_REGS_powerpc :: "pt_acc \<Rightarrow> reg option" where
  "PT_REGS_powerpc PARM1 = Some (Elem ''gpr'' 3)"
| "PT_REGS_powerpc PARM2 = Some (Elem ''gpr'' 4)"
| "PT_REGS_powerpc PARM3 = Some (Elem ''gpr'' 5)"
| "PT_REGS_powerpc PARM4 = Some (Elem ''gpr'' 6)"
| "PT_REGS_powerpc PARM5 = Some (Elem ''gpr'' 7)"
| "PT_REGS_powerpc RC = Some (Elem ''gpr'' 3)"
| "PT_REGS_powerpc SP = Some (Field ''sp'')"
| "PT_REGS_powerpc IP = Some (Field ''nip'')"
| "PT_REGS_powerpc RET = None"
| "PT_REGS_powerpc FP = None"

fun PT_REGS_powerpc_CORE :: "pt_acc \<Rightarrow> reg option" where
  "PT_REGS_powerpc_CORE PARM1 = Some (Elem ''gpr'' 3)"
| "PT_REGS_powerpc_CORE PARM2 = Some (Elem ''gpr'' 4)"
| "PT_REGS_powerpc_CORE PARM3 = Some (Elem ''gpr'' 5)"
| "PT_REGS_powerpc_CORE PARM4 = Some (Elem ''gpr'' 6)"
| "PT_REGS_powerpc_CORE PARM5 = Some (Elem ''gpr'' 7)"
| "PT_REGS_powerpc_CORE RC = Some (Elem ''gpr'' 3)"
| "PT_REGS_powerpc_CORE SP = Some (Field ''sp'')"
| "PT_REGS_powerpc_CORE IP = Some (Field ''nip'')"
| "PT_REGS_powerpc_CORE RET = None"
| "PT_REGS_powerpc_CORE FP = None"

fun PT_REGS_sparc :: "bool \<Rightarrow> pt_acc \<Rightarrow> reg option" where
  "PT_REGS_sparc arch64 PARM1 = Some (Elem_at ''u_regs'' ''UREG_I0'')"
| "PT_REGS_sparc arch64 PARM2 = Some (Elem_at ''u_regs'' ''UREG_I1'')"
| "PT_REGS_sparc arch64 PARM3 = Some (Elem_at ''u_regs'' ''UREG_I2'')"
| "PT_REGS_sparc arch64 PARM4 = Some (Elem_at ''u_regs'' ''UREG_I3'')"
| "PT_REGS_sparc arch64 PARM5 = Some (Elem_at ''u_regs'' ''UREG_I4'')"
| "PT_REGS_sparc arch64 RET = Some (Elem_at ''u_regs'' ''UREG_I7'')"
| "PT_REGS_sparc arch64 RC = Some (Elem_at ''u_regs'' ''UREG_I0'')"
| "PT_REGS_sparc arch64 SP = Some (Elem_at ''u_regs'' ''UREG_FP'')"
| "PT_REGS_sparc arch64 FP = None"
| "PT_REGS_sparc arch64 IP = Some (Field (if arch64 then ''tpc'' else ''pc''))"

fun PT_REGS_sparc_CORE :: "bool \<Rightarrow> pt_acc \<Rightarrow> reg option" where
  "PT_REGS_sparc_CORE arch64 PARM1 = Some (Elem_at ''u_regs'' ''UREG_I0'')"
| "PT_REGS_sparc_CORE arch64 PARM2 = Some (Elem_at ''u_regs'' ''UREG_I1'')"
| "PT_REGS_sparc_CORE arch64 PARM3 = Some (Elem_at ''u_regs'' ''UREG_I2'')"
| "PT_REGS_sparc_CORE arch64 PARM4 = Some (Elem_at ''u_regs'' ''UREG_I3'')"
| "PT_REGS_sparc_CORE arch64 PARM5 = Some (Elem_at ''u_regs'' ''UREG_I4'')"
| "PT_REGS_sparc_CORE arch64 RET = Some (Elem_at ''u_regs'' ''UREG_I7'')"
| "PT_REGS_sparc_CORE arch64 RC = Some (Elem_at ''u_regs'' ''UREG_I0'')"
| "PT_REGS_sparc_CORE arch64 SP = Some (Elem_at ''u_regs'' ''UREG_FP'')"
| "PT_REGS_sparc_CORE arch64 FP = None"
| "PT_REGS_sparc_CORE arch64 IP = Some (Field (if arch64 then ''tpc'' else ''pc''))"

text \<open>The choice among the tables; \<open>None\<close> where the header defines no macro.\<close>

definition PT_REGS :: "(string \<Rightarrow> bool) \<Rightarrow> pt_acc \<Rightarrow> reg option" where
  "PT_REGS defd a =
     (case bpf_target defd of
        Some Target_x86 \<Rightarrow>
          if defd ''__KERNEL__'' \<or> defd ''__VMLINUX_H__'' then PT_REGS_x86_kernel a
          else if defd ''__i386__'' then PT_REGS_i386 a else PT_REGS_x86_64 a
      | Some Target_s390 \<Rightarrow> PT_REGS_s390 a
      | Some Target_arm \<Rightarrow> PT_REGS_arm a
      | Some Target_arm64 \<Rightarrow> PT_REGS_arm64 a
      | Some Target_mips \<Rightarrow> PT_REGS_mips a
      | Some Target_powerpc \<Rightarrow> PT_REGS_powerpc a
      | Some Target_sparc \<Rightarrow> PT_REGS_sparc (defd ''__arch64__'') a
      | None \<Rightarrow> Some Target_missing)"

definition PT_REGS_CORE :: "(string \<Rightarrow> bool) \<Rightarrow> pt_acc \<Rightarrow> reg option" where
  "PT_REGS_CORE defd a =
     (case bpf_target defd of
        Some Target_x86 \<Rightarrow>
          if defd ''__KERNEL__'' \<or> defd ''__VMLINUX_H__'' then PT_REGS_x86_kernel_CORE a
          else if defd ''__i386__'' then PT_REGS_i386_CORE a else PT_REGS_x86_64_CORE a
      | Some Target_s390 \<Rightarrow> PT_REGS_s390_CORE a
      | Some Target_arm \<Rightarrow> PT_REGS_arm_CORE a
      | Some Target_arm64 \<Rightarrow> PT_REGS_arm64_CORE a
      | Some Target_mips \<Rightarrow> PT_REGS_mips_CORE a
      | Some Target_powerpc \<Rightarrow> PT_REGS_powerpc_CORE a
      | Some Target_sparc \<Rightarrow> PT_REGS_sparc_CORE (defd ''__arch64__'') a
      | None \<Rightarrow> Some Target_missing)"

text \<open>
  Reading a register through \<open>BPF_CORE_READ\<close> reads the same register as reading the
  structure directly, for every target, every accessor and every preprocessor environment.
\<close>

theorem pt_regs_core_same: "PT_REGS_CORE defd a = PT_REGS defd a"
  by (cases a) (simp_all add: PT_REGS_CORE_def PT_REGS_def split: option.split bpf_target.split)

definition parms :: "pt_acc list" where "parms = [PARM1, PARM2, PARM3, PARM4, PARM5]"

definition parm :: "nat \<Rightarrow> pt_acc" where "parm i = parms ! i"

definition i386_layout :: "(string \<Rightarrow> bool) \<Rightarrow> bool" where
  "i386_layout defd \<longleftrightarrow> bpf_target defd = Some Target_x86 \<and> defd ''__i386__'' \<and> \<not> defd ''__KERNEL__'' \<and> \<not> defd ''__VMLINUX_H__''"

definition parm_count :: "(string \<Rightarrow> bool) \<Rightarrow> nat" where
  "parm_count defd = (if i386_layout defd then 3 else 5)"

fun is_register :: "reg option \<Rightarrow> bool" where
  "is_register (Some (Field m)) = True"
| "is_register (Some (Elem m n)) = True"
| "is_register (Some (Elem_at m c)) = True"
| "is_register r = False"

lemma parms_table:
  assumes "bpf_target defd = Some t"
  shows "distinct (map (PT_REGS defd) (take (parm_count defd) parms)) \<and>
    list_all is_register (map (PT_REGS defd) (take (parm_count defd) parms))"
proof (cases t)
  case Target_x86
  with assms show ?thesis
    by (cases "defd ''__KERNEL__'' \<or> defd ''__VMLINUX_H__''"; cases "defd ''__i386__''")
      (simp_all add: PT_REGS_def parms_def parm_count_def i386_layout_def eval_nat_numeral)
qed (use assms in \<open>simp_all add: PT_REGS_def parms_def parm_count_def i386_layout_def\<close>)

text \<open>
  On every target but i386 the five parameter accessors name five different registers, none
  of them a constant: no two parameters of a probed function are confused. On i386 the first three do.
\<close>

theorem parameters_distinct:
  assumes "bpf_target defd \<noteq> None" "i < parm_count defd" "j < parm_count defd" "i \<noteq> j"
  shows "PT_REGS defd (parm i) \<noteq> PT_REGS defd (parm j) \<and> is_register (PT_REGS defd (parm i))"
proof -
  let ?rs = "map (PT_REGS defd) (take (parm_count defd) parms)"
  obtain t where "bpf_target defd = Some t" using assms(1) by blast
  from parms_table [OF this] have t: "distinct ?rs" "list_all is_register ?rs" by simp_all
  have "length ?rs = parm_count defd" by (simp add: parms_def parm_count_def)
  moreover have "?rs ! m = PT_REGS defd (parm m)" if "m < parm_count defd" for m
    using that by (simp add: parm_def parms_def parm_count_def split: if_splits)
  ultimately show ?thesis using t assms(2-4) by (auto simp: distinct_conv_nth list_all_length)
qed

lemma parameters_distinct_witness:
  "PT_REGS (\<lambda>m. m = ''__aarch64__'') (parm 0) \<noteq> PT_REGS (\<lambda>m. m = ''__aarch64__'') (parm 4)"
proof -
  have "bpf_target (\<lambda>m. m = ''__aarch64__'') = Some Target_arm64" by (simp add: bpf_target_def)
  then show ?thesis
    using parameters_distinct [of "\<lambda>m. m = ''__aarch64__''" 0 4] by (simp add: parm_count_def i386_layout_def)
qed

section \<open>Return addresses\<close>

text \<open>From a register, or from kernel memory at an offset from the address a register holds.\<close>

datatype ret_ip = Ip_from reg | Ip_memory "reg option" nat | Ip_missing

definition BPF_KPROBE_READ_RET_IP :: "(string \<Rightarrow> bool) \<Rightarrow> ret_ip" where
  "BPF_KPROBE_READ_RET_IP defd =
     (case bpf_target defd of
        Some Target_powerpc \<Rightarrow> Ip_from (Field ''link'')
      | Some Target_sparc \<Rightarrow> (case PT_REGS defd RET of Some r \<Rightarrow> Ip_from r | None \<Rightarrow> Ip_missing)
      | Some _ \<Rightarrow> Ip_memory (PT_REGS defd RET) 0
      | None \<Rightarrow> Ip_missing)"

definition BPF_KRETPROBE_READ_RET_IP :: "(string \<Rightarrow> bool) \<Rightarrow> ret_ip" where
  "BPF_KRETPROBE_READ_RET_IP defd =
     (case bpf_target defd of
        Some Target_powerpc \<Rightarrow> BPF_KPROBE_READ_RET_IP defd
      | Some Target_sparc \<Rightarrow> BPF_KPROBE_READ_RET_IP defd
      | Some _ \<Rightarrow> Ip_memory (PT_REGS defd FP) 8
      | None \<Rightarrow> Ip_missing)"

section \<open>Argument lists\<close>

text \<open>
  \<open>___bpf_nth\<close> expands to its fourteenth argument. An argument of the program is \<open>None\<close> here, a
  number of the padding is \<open>Some\<close> of it.
\<close>

definition bpf_nth :: "nat option list \<Rightarrow> nat option" where
  "bpf_nth xs = xs ! 13"

definition bpf_narg :: "'a list \<Rightarrow> nat option" where
  "bpf_narg args = bpf_nth (None # map (\<lambda>_. None) args @ map Some [12, 11, 10, 9, 8, 7, 6, 5, 4, 3, 2, 1, 0])"

datatype ctx_arg = Ctx | Ctx_elem nat | Ctx_reg "reg option"

text \<open>\<open>___bpf_ctx_cast0\<close> to \<open>___bpf_ctx_cast12\<close>; each takes the arguments it is given apart and drops them.\<close>

fun bpf_ctx_cast_n :: "nat \<Rightarrow> 'a list \<Rightarrow> ctx_arg list option" where
  "bpf_ctx_cast_n 0 [] = Some [Ctx]"
| "bpf_ctx_cast_n (Suc n) (x # args) =
     (if Suc n > 12 then None else map_option (\<lambda>cs. cs @ [Ctx_elem n]) (bpf_ctx_cast_n n args))"
| "bpf_ctx_cast_n n args = None"

definition bpf_ctx_cast :: "'a list \<Rightarrow> ctx_arg list option" where
  "bpf_ctx_cast args = (case bpf_narg args of None \<Rightarrow> None | Some n \<Rightarrow> bpf_ctx_cast_n n args)"

text \<open>\<open>___bpf_kprobe_args0\<close> to \<open>___bpf_kprobe_args5\<close>.\<close>

fun bpf_kprobe_args_n :: "(string \<Rightarrow> bool) \<Rightarrow> nat \<Rightarrow> 'a list \<Rightarrow> ctx_arg list option" where
  "bpf_kprobe_args_n defd 0 [] = Some [Ctx]"
| "bpf_kprobe_args_n defd (Suc n) (x # args) =
     (if Suc n > 5 then None
      else map_option (\<lambda>cs. cs @ [Ctx_reg (PT_REGS defd (parm n))]) (bpf_kprobe_args_n defd n args))"
| "bpf_kprobe_args_n defd n args = None"

definition bpf_kprobe_args :: "(string \<Rightarrow> bool) \<Rightarrow> 'a list \<Rightarrow> ctx_arg list option" where
  "bpf_kprobe_args defd args = (case bpf_narg args of None \<Rightarrow> None | Some n \<Rightarrow> bpf_kprobe_args_n defd n args)"

fun bpf_kretprobe_args_n :: "(string \<Rightarrow> bool) \<Rightarrow> nat \<Rightarrow> 'a list \<Rightarrow> ctx_arg list option" where
  "bpf_kretprobe_args_n defd 0 [] = Some [Ctx]"
| "bpf_kretprobe_args_n defd (Suc 0) [x] = Some [Ctx, Ctx_reg (PT_REGS defd RC)]"
| "bpf_kretprobe_args_n defd n args = None"

definition bpf_kretprobe_args :: "(string \<Rightarrow> bool) \<Rightarrow> 'a list \<Rightarrow> ctx_arg list option" where
  "bpf_kretprobe_args defd args = (case bpf_narg args of None \<Rightarrow> None | Some n \<Rightarrow> bpf_kretprobe_args_n defd n args)"

text \<open>The counting trick: the padding is shifted by the arguments.\<close>

lemma padding: "[12, 11, 10, 9, 8, 7, 6, 5, 4, 3, 2, 1, 0] = rev [0..<13 :: nat]"
  by (simp add: upt_rec)

lemma bpf_narg_length: "bpf_narg args = (if length args \<le> 12 then Some (length args) else None)"
proof (cases "length args \<le> 12")
  case True
  define k where "k = length args"
  have "bpf_narg args = map Some (rev [0..<13]) ! (12 - k)"
    unfolding bpf_narg_def bpf_nth_def padding using True by (simp add: nth_append k_def del: upt_Suc upt_rec_numeral)
  also have "\<dots> = Some k" using True by (simp add: rev_nth k_def del: upt_Suc upt_rec_numeral)
  finally show ?thesis using True by (simp add: k_def)
next
  case False
  then show ?thesis by (simp add: bpf_narg_def bpf_nth_def nth_append)
qed

lemma bpf_ctx_cast_n_list: "length args \<le> 12 \<Longrightarrow> bpf_ctx_cast_n (length args) args = Some (Ctx # map Ctx_elem [0..<length args])"
  by (induction args) simp_all

lemma bpf_kprobe_args_n_list:
  "length args \<le> 5 \<Longrightarrow>
    bpf_kprobe_args_n defd (length args) args = Some (Ctx # map (\<lambda>i. Ctx_reg (PT_REGS defd (parm i))) [0..<length args])"
  by (induction args) simp_all

lemma bpf_kprobe_args_n_more: "5 < length args \<Longrightarrow> bpf_kprobe_args_n defd (length args) args = None"
  by (cases args) simp_all

lemma bpf_kretprobe_args_n_list:
  "bpf_kretprobe_args_n defd (length args) args =
    (if length args = 0 then Some [Ctx] else if length args = 1 then Some [Ctx, Ctx_reg (PT_REGS defd RC)] else None)"
  by (cases "(defd, length args, args)" rule: bpf_kretprobe_args_n.cases) auto

section \<open>The program macros\<close>

text \<open>
  \<open>BPF_PROG(name, args)\<close> and its relatives define \<open>name(ctx)\<close> as a call of \<open>____name\<close>, whose body
  follows the macro, with \<open>ctx\<close> and one value for every declared parameter. \<open>elem\<close> reads the array
  \<open>ctx\<close> points to and \<open>reg\<close> a register of the structure it points to; \<open>None\<close> does not compile.
\<close>

fun ctx_value :: "u64 \<Rightarrow> (nat \<Rightarrow> u64) \<Rightarrow> (reg \<Rightarrow> u64) \<Rightarrow> ctx_arg \<Rightarrow> u64 option" where
  "ctx_value ctx elem reg Ctx = Some ctx"
| "ctx_value ctx elem reg (Ctx_elem i) = Some (elem i)"
| "ctx_value ctx elem reg (Ctx_reg r) = map_option reg r"

definition call_with :: "(u64 list \<Rightarrow> 'r) \<Rightarrow> u64 \<Rightarrow> (nat \<Rightarrow> u64) \<Rightarrow> (reg \<Rightarrow> u64) \<Rightarrow> ctx_arg list option \<Rightarrow> 'r option" where
  "call_with body ctx elem reg args =
     (case args of None \<Rightarrow> None | Some cs \<Rightarrow> map_option body (those (map (ctx_value ctx elem reg) cs)))"

definition BPF_PROG :: "(u64 list \<Rightarrow> 'r) \<Rightarrow> 'a list \<Rightarrow> u64 \<Rightarrow> (nat \<Rightarrow> u64) \<Rightarrow> (reg \<Rightarrow> u64) \<Rightarrow> 'r option" where
  "BPF_PROG body args ctx elem reg = call_with body ctx elem reg (bpf_ctx_cast args)"

definition BPF_KPROBE ::
  "(string \<Rightarrow> bool) \<Rightarrow> (u64 list \<Rightarrow> 'r) \<Rightarrow> 'a list \<Rightarrow> u64 \<Rightarrow> (nat \<Rightarrow> u64) \<Rightarrow> (reg \<Rightarrow> u64) \<Rightarrow> 'r option" where
  "BPF_KPROBE defd body args ctx elem reg = call_with body ctx elem reg (bpf_kprobe_args defd args)"

definition BPF_KRETPROBE ::
  "(string \<Rightarrow> bool) \<Rightarrow> (u64 list \<Rightarrow> 'r) \<Rightarrow> 'a list \<Rightarrow> u64 \<Rightarrow> (nat \<Rightarrow> u64) \<Rightarrow> (reg \<Rightarrow> u64) \<Rightarrow> 'r option" where
  "BPF_KRETPROBE defd body args ctx elem reg = call_with body ctx elem reg (bpf_kretprobe_args defd args)"

lemma argument_lists:
  "bpf_ctx_cast args = (if length args \<le> 12 then Some (Ctx # map Ctx_elem [0..<length args]) else None)"
  "bpf_kprobe_args defd args =
     (if length args \<le> 5 then Some (Ctx # map (\<lambda>i. Ctx_reg (PT_REGS defd (parm i))) [0..<length args]) else None)"
  "bpf_kretprobe_args defd args =
     (if length args = 0 then Some [Ctx] else if length args = 1 then Some [Ctx, Ctx_reg (PT_REGS defd RC)] else None)"
  using bpf_kprobe_args_n_list [of args defd] bpf_kprobe_args_n_more [of args defd] bpf_kretprobe_args_n_list [of defd args]
  by (auto simp: bpf_ctx_cast_def bpf_ctx_cast_n_list bpf_kprobe_args_def bpf_kretprobe_args_def bpf_narg_length)

lemma those_map_Some: "those (map (\<lambda>x. Some (f x)) xs) = Some (map f xs)"
  by (induction xs) simp_all

lemma those_registers:
  assumes "bpf_target defd = Some t" "n \<le> 5"
  shows "those (map (\<lambda>i. map_option reg (PT_REGS defd (parm i))) [0..<n]) =
    Some (map (\<lambda>i. reg (the (PT_REGS defd (parm i)))) [0..<n])"
proof -
  have "PT_REGS defd (parm i) \<noteq> None" if "i < 5" for i
    using that assms(1) by (cases t) (auto simp: PT_REGS_def parm_def parms_def less_Suc_eq numeral_eq_Suc)
  then have "map_option reg (PT_REGS defd (parm i)) = Some (reg (the (PT_REGS defd (parm i))))" if "i < n" for i
    using that assms(2) by (simp add: map_option_case split: option.split)
  then have "map (\<lambda>i. map_option reg (PT_REGS defd (parm i))) [0..<n] = map (\<lambda>i. Some (reg (the (PT_REGS defd (parm i))))) [0..<n]"
    by (intro map_cong) auto
  then show ?thesis by (simp only: those_map_Some)
qed

text \<open>
  The program macros call the body with the context and every declared parameter at its
  own position: \<open>BPF_PROG\<close> up to 12 elements of the context array, \<open>BPF_KPROBE\<close> up to 5 parameter
  registers of the target, \<open>BPF_KRETPROBE\<close> at most the return value; no other number of parameters
  compiles.
\<close>

theorem program_arguments:
  assumes "bpf_target defd = Some t"
  shows "BPF_PROG body args ctx elem reg =
      (if length args \<le> 12 then Some (body (ctx # map elem [0..<length args])) else None) \<and>
    BPF_KPROBE defd body args ctx elem reg =
      (if length args \<le> 5 then Some (body (ctx # map (\<lambda>i. reg (the (PT_REGS defd (parm i)))) [0..<length args])) else None) \<and>
    BPF_KRETPROBE defd body args ctx elem reg =
      (if length args = 0 then Some (body [ctx])
       else if length args = 1 then Some (body [ctx, reg (the (PT_REGS defd RC))]) else None)"
proof -
  have "PT_REGS defd RC \<noteq> None" using assms by (cases t) (auto simp: PT_REGS_def)
  then show ?thesis
    using those_map_Some [of elem "[0..<length args]"] those_registers [OF assms, of "length args" reg]
    by (auto simp: BPF_PROG_def BPF_KPROBE_def BPF_KRETPROBE_def call_with_def argument_lists comp_def)
qed

lemma program_arguments_witness:
  "BPF_KPROBE (\<lambda>m. m = ''__aarch64__'') sum_list [''fd'', ''buf''] 1000 (\<lambda>_. 0)
     (\<lambda>r. if r = Elem ''regs'' 0 then 3 else if r = Elem ''regs'' 1 then 40 else 0) = Some 1043"
proof -
  have t: "bpf_target (\<lambda>m. m = ''__aarch64__'') = Some Target_arm64" by (simp add: bpf_target_def)
  show ?thesis
    using program_arguments [OF t, of sum_list "[''fd'', ''buf'']" 1000] by (simp add: PT_REGS_def t parm_def parms_def upt_rec)
qed

end
