(* ===== verification/Bpf_Helpers.thy ===== *)
theory Bpf_Helpers
  imports Pt_Regs
begin

text \<open>
  The macros of the bundled \<open>bpf/bpf_helpers.h\<close>, the header \<open>src/mini_etrace.bpf.c\<close> is written
  with: kernel version numbers, \<open>container_of\<close>, tail calls with a constant slot, and the printing
  macros, which collect their arguments in an array for the kernel's helper. \<open>___bpf_narg\<close> and
  \<open>___bpf_nth\<close> are those of \<open>bpf_tracing.h\<close>. The helpers of the kernel are calls with their
  arguments here.
\<close>

unbundle bit_operations_syntax

section \<open>Versions and structures\<close>

text \<open>The C arithmetic is that of \<open>int\<close>, which major numbers below \<open>2 ^ 15\<close> do not leave.\<close>

definition KERNEL_VERSION :: "nat \<Rightarrow> nat \<Rightarrow> nat \<Rightarrow> nat" where
  "KERNEL_VERSION a b c = push_bit 16 a + push_bit 8 b + (if c > 255 then 255 else c)"

text \<open>The offset of a member is its address in a structure at address 0; pointers have 64 bits.\<close>

definition offsetof_member :: "(u64 \<Rightarrow> 'm \<Rightarrow> u64) \<Rightarrow> 'm \<Rightarrow> u64" where
  "offsetof_member addr_of member = addr_of 0 member"

definition container_of :: "(u64 \<Rightarrow> 'm \<Rightarrow> u64) \<Rightarrow> u64 \<Rightarrow> 'm \<Rightarrow> u64" where
  "container_of addr_of ptr member = ptr - offsetof_member addr_of member"

section \<open>Tail calls\<close>

text \<open>The registers at the helper call; \<open>None\<close> is the trap that keeps the program from being built.\<close>

record helper_call =
  hc_r1 :: u64
  hc_r2 :: u64
  hc_r3 :: u64
  hc_helper :: nat

definition bpf_tail_call_static :: "bool \<Rightarrow> u64 \<Rightarrow> u64 \<Rightarrow> u32 \<Rightarrow> helper_call option" where
  "bpf_tail_call_static constant_p ctx prog_map slot =
     (if \<not> constant_p then None
      else Some \<lparr>hc_r1 = ctx, hc_r2 = prog_map, hc_r3 = ucast slot, hc_helper = 12\<rparr>)"

section \<open>Printing\<close>

text \<open>An array initialised from a string literal has its characters and the final NUL.\<close>

definition literal_array :: "string \<Rightarrow> string" where
  "literal_array fmt = fmt @ [NUL]"

record printk_call =
  pk_fmt :: string
  pk_fmt_size :: nat
  pk_args :: "u64 list"

definition bpf_printk :: "string \<Rightarrow> u64 list \<Rightarrow> printk_call" where
  "bpf_printk fmt args =
     (let f = literal_array fmt in \<lparr>pk_fmt = f, pk_fmt_size = length f, pk_args = args\<rparr>)"

text \<open>
  \<open>___bpf_fill0\<close> to \<open>___bpf_fill12\<close>: \<open>None\<close> when there is no such macro or a store is out of the array.
\<close>

fun bpf_fill_n :: "nat \<Rightarrow> u64 list \<Rightarrow> nat \<Rightarrow> u64 list \<Rightarrow> u64 list option" where
  "bpf_fill_n 0 arr p args = (if args = [] then Some arr else None)"
| "bpf_fill_n (Suc n) arr p [] = None"
| "bpf_fill_n (Suc n) arr p (x # args) =
     (if Suc n > 12 \<or> length arr \<le> p then None else bpf_fill_n n (arr[p := x]) (p + 1) args)"

definition bpf_fill :: "u64 list \<Rightarrow> u64 list \<Rightarrow> u64 list option" where
  "bpf_fill arr args = (case bpf_narg args of None \<Rightarrow> None | Some n \<Rightarrow> bpf_fill_n n arr 0 args)"

record printf_call =
  pf_fmt :: string
  pf_fmt_size :: nat
  pf_param :: "u64 list"
  pf_param_size :: nat

text \<open>The array of the parameters is not initialised: \<open>garbage\<close> is what is there.\<close>

definition BPF_SEQ_PRINTF :: "u64 list \<Rightarrow> u64 \<Rightarrow> string \<Rightarrow> u64 list \<Rightarrow> (u64 \<times> printf_call) option" where
  "BPF_SEQ_PRINTF garbage seq fmt args =
     (case bpf_narg args of None \<Rightarrow> None
      | Some n \<Rightarrow>
          (case bpf_fill (take n garbage) args of None \<Rightarrow> None
           | Some param \<Rightarrow>
               Some (seq, \<lparr>pf_fmt = literal_array fmt, pf_fmt_size = length (literal_array fmt),
                 pf_param = param, pf_param_size = 8 * n\<rparr>)))"

text \<open>\<open>bpf_snprintf\<close> is not told the size of the format.\<close>

definition BPF_SNPRINTF ::
  "u64 list \<Rightarrow> u64 \<Rightarrow> u32 \<Rightarrow> string \<Rightarrow> u64 list \<Rightarrow> (u64 \<times> u32 \<times> string \<times> u64 list \<times> nat) option" where
  "BPF_SNPRINTF garbage dst dst_size fmt args =
     (case bpf_narg args of None \<Rightarrow> None
      | Some n \<Rightarrow>
          (case bpf_fill (take n garbage) args of None \<Rightarrow> None
           | Some param \<Rightarrow> Some (dst, dst_size, literal_array fmt, param, 8 * n)))"

section \<open>Properties\<close>

lemma bpf_fill_n_stores:
  "length args \<le> 12 \<Longrightarrow> p + length args = length arr \<Longrightarrow>
    bpf_fill_n (length args) arr p args = Some (take p arr @ args)"
proof (induction args arbitrary: arr p)
  case (Cons x args)
  then show ?case by (simp add: take_Suc_conv_app_nth)
qed simp

lemma bpf_fill_stores:
  "length args \<le> 12 \<Longrightarrow> length arr = length args \<Longrightarrow> bpf_fill arr args = Some args"
  by (simp add: bpf_fill_def bpf_narg_length bpf_fill_n_stores)

text \<open>
  The printing macros take at most 12 arguments and give the kernel exactly them, in
  order, with their size in bytes, and nothing of what the array held before; the format goes with
  its NUL, counted in the size where there is one.
\<close>

theorem printing_macros:
  assumes "length args \<le> length garbage"
  shows "BPF_SEQ_PRINTF garbage seq fmt args =
      (if length args \<le> 12
       then Some (seq, \<lparr>pf_fmt = fmt @ [NUL], pf_fmt_size = length fmt + 1, pf_param = args, pf_param_size = 8 * length args\<rparr>)
       else None) \<and>
    BPF_SNPRINTF garbage dst dst_size fmt args =
      (if length args \<le> 12 then Some (dst, dst_size, fmt @ [NUL], args, 8 * length args) else None)"
  using assms by (simp add: BPF_SEQ_PRINTF_def BPF_SNPRINTF_def bpf_narg_length bpf_fill_stores literal_array_def)

lemma printing_macros_witness:
  "BPF_SEQ_PRINTF (replicate 3 0xDEAD) 7 ''%d %d'' [1, 2] =
    Some (7, \<lparr>pf_fmt = ''%d %d'' @ [NUL], pf_fmt_size = 6, pf_param = [1, 2], pf_param_size = 16\<rparr>)"
  using printing_macros [of "[1, 2]" "replicate 3 0xDEAD" 7 "''%d %d''"] by simp

text \<open>
  Kernel versions compare as their numbers do, the major one first: minor numbers up to
  255 never reach the major one, and patch numbers from 255 on, which the header caps, count as 255.
\<close>

theorem kernel_version_order:
  assumes "b \<le> 255" "b' \<le> 255"
  shows "KERNEL_VERSION a b c < KERNEL_VERSION a' b' c' \<longleftrightarrow>
    a < a' \<or> a = a' \<and> (b < b' \<or> b = b' \<and> min c 255 < min c' 255)"
proof -
  have v: "KERNEL_VERSION x y z = 65536 * x + (256 * y + min z 255)" for x y z
    by (simp add: KERNEL_VERSION_def push_bit_eq_mult min_def)
  have m: "min c 255 \<le> 255" "min c' 255 \<le> 255" by simp_all
  consider "a < a'" | "a' < a" | "a = a'" by linarith
  then show ?thesis
    by cases (use assms m in \<open>auto simp add: v simp del: min_less_iff_conj\<close>)
qed

lemma kernel_version_order_witness: "KERNEL_VERSION 5 4 300 < KERNEL_VERSION 5 10 0 \<and> \<not> KERNEL_VERSION 4 9 255 < KERNEL_VERSION 4 9 337"
  using kernel_version_order [of 4 10 5 300 5 0] kernel_version_order [of 9 9 4 255 4 337] by simp

text \<open>The structure of a member is found again from the member's address.\<close>

lemma container_of_member:
  "(\<And>base. addr_of base member = base + offsetof_member addr_of member) \<Longrightarrow> container_of addr_of (addr_of base member) member = base"
  by (simp add: container_of_def)

end
