(* ===== verification/Xsk_Ring.thy ===== *)
theory Xsk_Ring
  imports Trace_Prelude
begin

text \<open>
  The inline ring operations of the bundled \<open>bpf/xsk.h\<close>: a ring of descriptors in memory shared by
  one producer and one consumer, with free-running 32-bit counters that wrap around and a private
  copy of the other side's counter. An abstract queue with counters that never wrap is the
  specification; the ring implements it for every size that is a power of two up to \<open>2^31\<close>.
\<close>

unbundle bit_operations_syntax

section \<open>The ring\<close>

text \<open>
  The private part of \<open>struct xsk_ring_prod\<close> and \<open>struct xsk_ring_cons\<close>, and the memory its
  pointers \<open>producer\<close>, \<open>consumer\<close>, \<open>ring\<close> and \<open>flags\<close> share with the other side.
\<close>

record xsk_ring =
  cached_prod :: u32
  cached_cons :: u32
  ring_mask :: u32
  ring_size :: u32

record 'a xsk_shared =
  producer :: u32
  consumer :: u32
  ring :: "'a list"
  ring_flags :: u32

text \<open>The four accessors return the address of an array element; here its index.\<close>

definition xsk_ring_prod_fill_addr :: "xsk_ring \<Rightarrow> u32 \<Rightarrow> nat" where
  "xsk_ring_prod_fill_addr fill idx = unat (idx AND ring_mask fill)"

definition xsk_ring_cons_comp_addr :: "xsk_ring \<Rightarrow> u32 \<Rightarrow> nat" where
  "xsk_ring_cons_comp_addr cring idx = unat (idx AND ring_mask cring)"

definition xsk_ring_prod_tx_desc :: "xsk_ring \<Rightarrow> u32 \<Rightarrow> nat" where
  "xsk_ring_prod_tx_desc tx idx = unat (idx AND ring_mask tx)"

definition xsk_ring_cons_rx_desc :: "xsk_ring \<Rightarrow> u32 \<Rightarrow> nat" where
  "xsk_ring_cons_rx_desc rx idx = unat (idx AND ring_mask rx)"

text \<open>\<open>XDP_RING_NEED_WAKEUP\<close> comes from a kernel header and is a parameter.\<close>

definition xsk_ring_prod_needs_wakeup :: "u32 \<Rightarrow> 'a xsk_shared \<Rightarrow> u32" where
  "xsk_ring_prod_needs_wakeup need_wakeup sh = ring_flags sh AND need_wakeup"

definition xsk_prod_nb_free :: "'a xsk_shared \<Rightarrow> xsk_ring \<Rightarrow> u32 \<Rightarrow> u32 \<times> xsk_ring" where
  "xsk_prod_nb_free sh r nb =
     (let free_entries = cached_cons r - cached_prod r
      in if free_entries \<ge> nb then (free_entries, r)
         else
           let r1 = r\<lparr>cached_cons := consumer sh\<rparr>;
               r2 = r1\<lparr>cached_cons := cached_cons r1 + ring_size r1\<rparr>
           in (cached_cons r2 - cached_prod r2, r2))"

definition xsk_cons_nb_avail :: "'a xsk_shared \<Rightarrow> xsk_ring \<Rightarrow> u32 \<Rightarrow> u32 \<times> xsk_ring" where
  "xsk_cons_nb_avail sh r nb =
     (let entries = cached_prod r - cached_cons r;
          (entries, r) = (if entries = 0 then
                            let r1 = r\<lparr>cached_prod := producer sh\<rparr> in (cached_prod r1 - cached_cons r1, r1)
                          else (entries, r))
      in (if entries > nb then nb else entries, r))"

text \<open>The index a call stores through its pointer argument, if it stores one, is the second component.\<close>

definition xsk_ring_prod_reserve :: "'a xsk_shared \<Rightarrow> xsk_ring \<Rightarrow> u32 \<Rightarrow> u32 \<times> u32 option \<times> xsk_ring" where
  "xsk_ring_prod_reserve sh pside nb =
     (case xsk_prod_nb_free sh pside nb of
        (n, pside) \<Rightarrow>
          if n < nb then (0, None, pside)
          else (nb, Some (cached_prod pside), pside\<lparr>cached_prod := cached_prod pside + nb\<rparr>))"

definition xsk_ring_prod_submit :: "'a xsk_shared \<Rightarrow> u32 \<Rightarrow> 'a xsk_shared" where
  "xsk_ring_prod_submit sh nb = sh\<lparr>producer := producer sh + nb\<rparr>"

definition xsk_ring_cons_peek :: "'a xsk_shared \<Rightarrow> xsk_ring \<Rightarrow> u32 \<Rightarrow> u32 \<times> u32 option \<times> xsk_ring" where
  "xsk_ring_cons_peek sh cside nb =
     (case xsk_cons_nb_avail sh cside nb of
        (entries, cside) \<Rightarrow>
          if entries > 0 then
            (entries, Some (cached_cons cside), cside\<lparr>cached_cons := cached_cons cside + entries\<rparr>)
          else (entries, None, cside))"

definition xsk_ring_cons_cancel :: "xsk_ring \<Rightarrow> u32 \<Rightarrow> xsk_ring" where
  "xsk_ring_cons_cancel cside nb = cside\<lparr>cached_cons := cached_cons cside - nb\<rparr>"

definition xsk_ring_cons_release :: "'a xsk_shared \<Rightarrow> u32 \<Rightarrow> 'a xsk_shared" where
  "xsk_ring_cons_release sh nb = sh\<lparr>consumer := consumer sh + nb\<rparr>"

section \<open>Frame addresses\<close>

text \<open>\<open>XSK_UNALIGNED_BUF_ADDR_MASK\<close> and \<open>XSK_UNALIGNED_BUF_OFFSET_SHIFT\<close> are parameters as well.\<close>

definition xsk_umem_get_data :: "u64 \<Rightarrow> u64 \<Rightarrow> u64" where
  "xsk_umem_get_data umem_area addr = umem_area + addr"

definition xsk_umem_extract_addr :: "u64 \<Rightarrow> u64 \<Rightarrow> u64" where
  "xsk_umem_extract_addr addr_mask addr = addr AND addr_mask"

definition xsk_umem_extract_offset :: "nat \<Rightarrow> u64 \<Rightarrow> u64" where
  "xsk_umem_extract_offset offset_shift addr = drop_bit offset_shift addr"

definition xsk_umem_add_offset_to_addr :: "u64 \<Rightarrow> nat \<Rightarrow> u64 \<Rightarrow> u64" where
  "xsk_umem_add_offset_to_addr addr_mask offset_shift addr =
     xsk_umem_extract_addr addr_mask addr + xsk_umem_extract_offset offset_shift addr"

text \<open>
  With the kernel's layout of an unaligned address, base in the low 48 bits and offset in
  the high 16, splitting loses nothing and the sum of the two parts is exact, without wrap-around.
\<close>

theorem umem_address_split:
  assumes "addr_mask = mask 48" "offset_shift = 48"
  shows "push_bit 48 (xsk_umem_extract_offset offset_shift addr) + xsk_umem_extract_addr addr_mask addr = addr \<and>
    unat (xsk_umem_add_offset_to_addr addr_mask offset_shift addr) = unat addr mod 2 ^ 48 + unat addr div 2 ^ 48"
proof -
  have low: "xsk_umem_extract_addr addr_mask addr = take_bit 48 addr"
    by (simp add: xsk_umem_extract_addr_def assms(1) take_bit_eq_mask)
  have high: "xsk_umem_extract_offset offset_shift addr = drop_bit 48 addr"
    by (simp add: xsk_umem_extract_offset_def assms(2))
  have u: "unat (take_bit 48 addr) = unat addr mod 2 ^ 48" "unat (drop_bit 48 addr) = unat addr div 2 ^ 48"
    by (simp_all add: take_bit_eq_mod drop_bit_eq_div unat_mod unat_div)
  have "unat addr div 2 ^ 48 < 2 ^ 16" using unat_u64_less [of addr] by (simp add: less_mult_imp_div_less)
  moreover have "unat addr mod 2 ^ 48 < 2 ^ 48" by simp
  ultimately have "unat (take_bit 48 addr) + unat (drop_bit 48 addr) < 18446744073709551616" unfolding u by simp
  then have "unat (take_bit 48 addr + drop_bit 48 addr) = unat (take_bit 48 addr) + unat (drop_bit 48 addr)"
    by (simp add: unat_word_ariths)
  then show ?thesis using bits_ident [of 48 addr] by (simp add: xsk_umem_add_offset_to_addr_def low high u)
qed

lemma umem_address_split_witness:
  "unat (xsk_umem_add_offset_to_addr (mask 48) 48 0x0100000000002000) = 0x2100"
  using umem_address_split [of "mask 48" 48 "0x0100000000002000"] by simp

section \<open>The abstract queue\<close>

text \<open>
  Four counters that never wrap: entries released, peeked, submitted and reserved; and the value
  last written at each position.
\<close>

record 'a fifo =
  f_rel :: nat
  f_peek :: nat
  f_sub :: nat
  f_res :: nat
  f_val :: "nat \<Rightarrow> 'a option"

datatype 'a ring_op = Reserve u32 | Fill u32 'a | Submit u32 | Peek u32 | Cancel u32 | Release u32

text \<open>What a client must respect, and what the queue does; a full queue refuses, an empty one has nothing.\<close>

fun client_ok :: "'a fifo \<Rightarrow> 'a ring_op \<Rightarrow> bool" where
  "client_ok f (Reserve nb) = True"
| "client_ok f (Fill idx v) = (\<exists>i. f_sub f \<le> i \<and> i < f_res f \<and> idx = word_of_nat i)"
| "client_ok f (Submit nb) = (unat nb \<le> f_res f - f_sub f)"
| "client_ok f (Peek nb) = True"
| "client_ok f (Cancel nb) = (unat nb \<le> f_peek f - f_rel f)"
| "client_ok f (Release nb) = (unat nb \<le> f_peek f - f_rel f)"

inductive fifo_step :: "nat \<Rightarrow> 'a fifo \<Rightarrow> 'a ring_op \<Rightarrow> 'a fifo \<Rightarrow> bool" for n where
  fifo_reserve: "f_res f + unat nb \<le> f_rel f + n \<Longrightarrow> fifo_step n f (Reserve nb) (f\<lparr>f_res := f_res f + unat nb\<rparr>)"
| fifo_full: "f_rel f + n < f_res f + unat nb \<Longrightarrow> fifo_step n f (Reserve nb) f"
| fifo_fill: "f_sub f \<le> i \<Longrightarrow> i < f_res f \<Longrightarrow> fifo_step n f (Fill (word_of_nat i) v) (f\<lparr>f_val := (f_val f)(i := Some v)\<rparr>)"
| fifo_submit: "f_sub f + unat nb \<le> f_res f \<Longrightarrow> fifo_step n f (Submit nb) (f\<lparr>f_sub := f_sub f + unat nb\<rparr>)"
| fifo_peek: "m \<le> unat nb \<Longrightarrow> f_peek f + m \<le> f_sub f \<Longrightarrow> (m = 0 \<longleftrightarrow> nb = 0 \<or> f_peek f = f_sub f) \<Longrightarrow>
    fifo_step n f (Peek nb) (f\<lparr>f_peek := f_peek f + m\<rparr>)"
| fifo_cancel: "f_rel f + unat nb \<le> f_peek f \<Longrightarrow> fifo_step n f (Cancel nb) (f\<lparr>f_peek := f_peek f - unat nb\<rparr>)"
| fifo_release: "f_rel f + unat nb \<le> f_peek f \<Longrightarrow> fifo_step n f (Release nb) (f\<lparr>f_rel := f_rel f + unat nb\<rparr>)"

section \<open>The ring implements it\<close>

record 'a xsk_sys =
  pside :: xsk_ring
  cside :: xsk_ring
  shared :: "'a xsk_shared"

fun xsk_exec :: "'a ring_op \<Rightarrow> 'a xsk_sys \<Rightarrow> 'a xsk_sys" where
  "xsk_exec (Reserve nb) s = s\<lparr>pside := snd (snd (xsk_ring_prod_reserve (shared s) (pside s) nb))\<rparr>"
| "xsk_exec (Fill idx v) s =
     s\<lparr>shared := (shared s)\<lparr>ring := (ring (shared s))[xsk_ring_prod_tx_desc (pside s) idx := v]\<rparr>\<rparr>"
| "xsk_exec (Submit nb) s = s\<lparr>shared := xsk_ring_prod_submit (shared s) nb\<rparr>"
| "xsk_exec (Peek nb) s = s\<lparr>cside := snd (snd (xsk_ring_cons_peek (shared s) (cside s) nb))\<rparr>"
| "xsk_exec (Cancel nb) s = s\<lparr>cside := xsk_ring_cons_cancel (cside s) nb\<rparr>"
| "xsk_exec (Release nb) s = s\<lparr>shared := xsk_ring_cons_release (shared s) nb\<rparr>"

text \<open>
  The ring holds the counters modulo \<open>2^32\<close>; the producer's copy of the consumer's counter (with
  the size added) and the consumer's copy of the producer's are from an earlier time.
\<close>

definition fifo_rel :: "nat \<Rightarrow> 'a xsk_sys \<Rightarrow> 'a fifo \<Rightarrow> bool" where
  "fifo_rel k s f \<longleftrightarrow> k < 32 \<and>
     length (ring (shared s)) = 2 ^ k \<and> ring_size (pside s) = 2 ^ k \<and>
     ring_mask (pside s) = mask k \<and> ring_mask (cside s) = mask k \<and>
     f_rel f \<le> f_peek f \<and> f_peek f \<le> f_sub f \<and> f_sub f \<le> f_res f \<and> f_res f \<le> f_rel f + 2 ^ k \<and>
     producer (shared s) = word_of_nat (f_sub f) \<and> consumer (shared s) = word_of_nat (f_rel f) \<and>
     cached_prod (pside s) = word_of_nat (f_res f) \<and> cached_cons (cside s) = word_of_nat (f_peek f) \<and>
     (\<exists>seen \<le> f_rel f. f_res f \<le> seen + 2 ^ k \<and> cached_cons (pside s) = word_of_nat (seen + 2 ^ k)) \<and>
     (\<exists>seen. f_peek f \<le> seen \<and> seen \<le> f_sub f \<and> cached_prod (cside s) = word_of_nat seen) \<and>
     (\<forall>i v. f_rel f \<le> i \<and> i < f_res f \<and> f_val f i = Some v \<longrightarrow> ring (shared s) ! (i mod 2 ^ k) = v) \<and>
     (\<forall>i \<ge> f_res f. f_val f i = None)"

lemma unat_diff32:
  assumes "b \<le> a" "a - b < 2 ^ 32"
  shows "unat (word_of_nat a - word_of_nat b :: u32) = a - b"
  using assms unat_word_of_nat32 [of "a - b"] by (simp add: of_nat_diff)

lemma slot_mod: "k < 32 \<Longrightarrow> unat ((word_of_nat i :: u32) AND mask k) = i mod 2 ^ k"
proof -
  assume "k < 32"
  then have "take_bit k (take_bit 32 i) = take_bit k i" by (simp add: min_def)
  moreover have "unat ((word_of_nat i :: u32) AND mask k) = take_bit k (unat (word_of_nat i :: u32))"
    by (simp only: take_bit_eq_mask [symmetric] unsigned_take_bit_eq)
  ultimately show ?thesis by (simp only: unsigned_of_nat) (simp add: take_bit_eq_mod)
qed

lemma slots_apart:
  assumes "i mod n = j mod n" "(lo :: nat) \<le> i" "i < lo + n" "lo \<le> j" "j < lo + n"
  shows "i = j"
proof -
  have apart: "\<not> a < b" if "a mod n = b mod n" "lo \<le> a" "b < lo + n" for a b
  proof
    assume "a < b"
    with that(1) have "n dvd b - a" using mod_eq_dvd_iff_nat [of a b n] by simp
    moreover have "0 < b - a" "b - a < n" using that \<open>a < b\<close> by auto
    ultimately show False by (auto dest: nat_dvd_not_less)
  qed
  from apart [of i j] apart [of j i] assms show ?thesis by simp
qed

text \<open>The start: an empty ring of \<open>2^k\<close> entries.\<close>

definition xsk_start :: "nat \<Rightarrow> 'a list \<Rightarrow> 'a xsk_sys" where
  "xsk_start k mem =
     \<lparr>pside = \<lparr>cached_prod = 0, cached_cons = 2 ^ k, ring_mask = mask k, ring_size = 2 ^ k\<rparr>,
      cside = \<lparr>cached_prod = 0, cached_cons = 0, ring_mask = mask k, ring_size = 2 ^ k\<rparr>,
      shared = \<lparr>producer = 0, consumer = 0, ring = mem, ring_flags = 0\<rparr>\<rparr>"

definition fifo_start :: "'a fifo" where
  "fifo_start = \<lparr>f_rel = 0, f_peek = 0, f_sub = 0, f_res = 0, f_val = (\<lambda>_. None)\<rparr>"

lemma fifo_rel_start: "k < 32 \<Longrightarrow> length mem = 2 ^ k \<Longrightarrow> fifo_rel k (xsk_start k mem) fifo_start"
  by (simp add: fifo_rel_def xsk_start_def fifo_start_def)

lemma pow2_bound: "k < 32 \<Longrightarrow> (2 :: nat) ^ k \<le> 2147483648"
  using power_increasing [of k 31 "2 :: nat"] by simp

lemma reserve_result:
  assumes "fifo_rel k s f"
  shows "\<exists>p. xsk_ring_prod_reserve (shared s) (pside s) nb =
      (if f_res f + unat nb \<le> f_rel f + 2 ^ k then (nb, Some (word_of_nat (f_res f)), p\<lparr>cached_prod := word_of_nat (f_res f + unat nb)\<rparr>)
       else (0, None, p)) \<and>
    cached_prod p = word_of_nat (f_res f) \<and> ring_size p = 2 ^ k \<and> ring_mask p = mask k \<and>
    (\<exists>seen \<le> f_rel f. (f_res f + unat nb \<le> f_rel f + 2 ^ k \<longrightarrow> f_res f + unat nb \<le> seen + 2 ^ k) \<and>
       f_res f \<le> seen + 2 ^ k \<and> cached_cons p = word_of_nat (seen + 2 ^ k))"
proof -
  from assms obtain seen where r: "k < 32" "ring_size (pside s) = 2 ^ k" "ring_mask (pside s) = mask k"
      "f_rel f \<le> f_res f" "f_res f \<le> f_rel f + 2 ^ k" "consumer (shared s) = word_of_nat (f_rel f)"
      "cached_prod (pside s) = word_of_nat (f_res f)" "seen \<le> f_rel f" "f_res f \<le> seen + 2 ^ k"
      "cached_cons (pside s) = word_of_nat (seen + 2 ^ k)"
    by (auto simp: fifo_rel_def)
  have pow: "(word_of_nat (2 ^ k) :: u32) = 2 ^ k" by simp
  have free: "unat (word_of_nat (c + 2 ^ k) - word_of_nat (f_res f) :: u32) = c + 2 ^ k - f_res f"
    if "f_res f \<le> c + 2 ^ k" "c \<le> f_rel f" for c
    using that r(4) pow2_bound [OF r(1)] by (intro unat_diff32) auto
  have add: "word_of_nat (f_res f) + nb = word_of_nat (f_res f + unat nb)" by simp
  show ?thesis
  proof (cases "nb \<le> cached_cons (pside s) - cached_prod (pside s)")
    case True
    then have "unat nb \<le> seen + 2 ^ k - f_res f"
      using free [OF r(9,8)] by (simp add: r word_le_nat_alt del: of_nat_add)
    then have fits: "f_res f + unat nb \<le> seen + 2 ^ k" using r(9) by linarith
    then have fits': "f_res f + unat nb \<le> f_rel f + 2 ^ k" using r(8) by linarith
    have nf: "xsk_prod_nb_free (shared s) (pside s) nb = (cached_cons (pside s) - cached_prod (pside s), pside s)"
      using True by (simp add: xsk_prod_nb_free_def Let_def)
    have lt: "cached_cons (pside s) - cached_prod (pside s) < nb \<longleftrightarrow> False" using True by (simp add: not_less)
    have eq: "xsk_ring_prod_reserve (shared s) (pside s) nb =
        (if f_res f + unat nb \<le> f_rel f + 2 ^ k then (nb, Some (word_of_nat (f_res f)), (pside s)\<lparr>cached_prod := word_of_nat (f_res f + unat nb)\<rparr>)
         else (0, None, pside s))"
      unfolding xsk_ring_prod_reserve_def nf prod.case lt using fits' by (simp add: r(7) add del: of_nat_add)
    show ?thesis
      unfolding eq using r(2,3,7-10) fits by (intro exI [of _ "pside s"] conjI exI [of _ seen]) simp_all
  next
    case False
    let ?p = "(pside s)\<lparr>cached_cons := word_of_nat (f_rel f + 2 ^ k)\<rparr>"
    have nf: "xsk_prod_nb_free (shared s) (pside s) nb = (word_of_nat (f_rel f + 2 ^ k) - word_of_nat (f_res f), ?p)"
      using False r by (simp add: xsk_prod_nb_free_def Let_def)
    have lt: "word_of_nat (f_rel f + 2 ^ k) - word_of_nat (f_res f) < nb \<longleftrightarrow> \<not> f_res f + unat nb \<le> f_rel f + 2 ^ k"
      unfolding word_less_nat_alt free [OF r(5) order_refl] using r(5) by linarith
    have eq: "xsk_ring_prod_reserve (shared s) (pside s) nb =
        (if f_res f + unat nb \<le> f_rel f + 2 ^ k then (nb, Some (word_of_nat (f_res f)), ?p\<lparr>cached_prod := word_of_nat (f_res f + unat nb)\<rparr>)
         else (0, None, ?p))"
      unfolding xsk_ring_prod_reserve_def nf prod.case lt by (simp add: r(7) add del: of_nat_add)
    show ?thesis
      unfolding eq using r(2,3,5,7) by (intro exI [of _ ?p] conjI exI [of _ "f_rel f"]) simp_all
  qed
qed

lemma peek_result:
  assumes "fifo_rel k s f"
  shows "\<exists>m c. xsk_ring_cons_peek (shared s) (cside s) nb =
      (word_of_nat m, (if m = 0 then None else Some (word_of_nat (f_peek f))), c) \<and>
    m \<le> unat nb \<and> f_peek f + m \<le> f_sub f \<and> (m = 0 \<longleftrightarrow> nb = 0 \<or> f_peek f = f_sub f) \<and>
    ring_mask c = mask k \<and> cached_cons c = word_of_nat (f_peek f + m) \<and>
    (\<exists>seen. f_peek f + m \<le> seen \<and> seen \<le> f_sub f \<and> cached_prod c = word_of_nat seen)"
proof -
  from assms obtain seen where r: "k < 32" "ring_mask (cside s) = mask k" "f_sub f \<le> f_peek f + 2 ^ k"
      "producer (shared s) = word_of_nat (f_sub f)" "cached_cons (cside s) = word_of_nat (f_peek f)"
      "f_peek f \<le> seen" "seen \<le> f_sub f" "cached_prod (cside s) = word_of_nat seen"
    by (auto simp: fifo_rel_def)
  define now where "now = (if seen = f_peek f then f_sub f else seen)"
  define c where "c = (cside s)\<lparr>cached_prod := word_of_nat now\<rparr>"
  have diff: "unat (word_of_nat x - word_of_nat (f_peek f) :: u32) = x - f_peek f" if "f_peek f \<le> x" "x \<le> f_sub f" for x
    using that r(3) pow2_bound [OF r(1)] by (intro unat_diff32) auto
  have zero: "word_of_nat seen - word_of_nat (f_peek f) = (0 :: u32) \<longleftrightarrow> seen = f_peek f"
    using diff [OF r(6,7)] r(6) by (auto simp: unat_eq_0 [symmetric])
  have now: "f_peek f \<le> now" "now \<le> f_sub f" "now = f_peek f \<longleftrightarrow> f_peek f = f_sub f" using r(6,7) by (auto simp: now_def)
  define m where "m = min (unat nb) (now - f_peek f)"
  let ?e = "word_of_nat now - word_of_nat (f_peek f) :: u32"
  have e: "unat ?e = now - f_peek f" by (rule diff [OF now(1,2)])
  have "m \<le> unat nb" by (simp add: m_def)
  then have m32: "m < 4294967296" using unat_u32_less [of nb] by linarith
  have mw: "(if ?e > nb then nb else ?e) = word_of_nat m"
    using e by (auto simp: m_def word_less_nat_alt min_def not_less simp flip: e)
  have same: "(cside s)\<lparr>cached_prod := cached_prod (cside s)\<rparr> = cside s" by simp
  have "xsk_cons_nb_avail (shared s) (cside s) nb = (if ?e > nb then nb else ?e, c)"
  proof (cases "seen = f_peek f")
    case True
    then have "cached_prod (cside s) - cached_cons (cside s) = 0" by (simp add: r(5,8))
    then show ?thesis by (simp add: xsk_cons_nb_avail_def c_def now_def True r(4,5))
  next
    case False
    then have "cached_prod (cside s) - cached_cons (cside s) \<noteq> 0" using zero by (simp add: r(5,8))
    then have "xsk_cons_nb_avail (shared s) (cside s) nb =
        (let e = cached_prod (cside s) - cached_cons (cside s) in (if e > nb then nb else e, cside s))"
      by (simp add: xsk_cons_nb_avail_def Let_def)
    also have "\<dots> = (if ?e > nb then nb else ?e, c)"
      unfolding c_def now_def if_not_P [OF False] r(8) [symmetric] r(5) [symmetric] same Let_def ..
    finally show ?thesis .
  qed
  then have avail: "xsk_cons_nb_avail (shared s) (cside s) nb = (word_of_nat m, c)" by (simp only: mw)
  have pos: "(word_of_nat m :: u32) > 0 \<longleftrightarrow> m \<noteq> 0"
    using unat_word_of_nat32 [of m] m32 by (simp add: word_less_nat_alt)
  have eq: "xsk_ring_cons_peek (shared s) (cside s) nb =
      (word_of_nat m, (if m = 0 then None else Some (word_of_nat (f_peek f))), c\<lparr>cached_cons := word_of_nat (f_peek f + m)\<rparr>)"
    using r(5) by (auto simp: xsk_ring_cons_peek_def avail pos c_def)
  have mz: "m = 0 \<longleftrightarrow> nb = 0 \<or> f_peek f = f_sub f" using now by (auto simp: m_def min_def unat_eq_0)
  have lim: "m \<le> unat nb" "f_peek f + m \<le> f_sub f" "f_peek f + m \<le> now" using now by (auto simp: m_def)
  show ?thesis
    unfolding eq using mz lim now(2) r(2)
    by (intro exI [of _ m] exI [of _ "c\<lparr>cached_cons := word_of_nat (f_peek f + m)\<rparr>"] conjI exI [of _ now])
      (simp_all add: c_def del: of_nat_add)
qed

text \<open>
  Claim C36. Whatever a client does within its rights, in any interleaving of the two sides, the ring
  with its wrapping counters and outdated copies does what the unbounded queue does: a reservation
  succeeds exactly when there is room, a peek finds entries exactly when there are some.
\<close>

theorem ring_refines_fifo:
  assumes "fifo_rel k s f" "client_ok f x"
  shows "\<exists>f'. fifo_step (2 ^ k) f x f' \<and> fifo_rel k (xsk_exec x s) f'"
proof (cases x)
  case (Reserve nb)
  from reserve_result [OF assms(1), of nb] obtain p seen where p:
      "xsk_ring_prod_reserve (shared s) (pside s) nb =
        (if f_res f + unat nb \<le> f_rel f + 2 ^ k then (nb, Some (word_of_nat (f_res f)), p\<lparr>cached_prod := word_of_nat (f_res f + unat nb)\<rparr>)
         else (0, None, p))"
      "cached_prod p = word_of_nat (f_res f)" "ring_size p = 2 ^ k" "ring_mask p = mask k" "seen \<le> f_rel f"
      "f_res f + unat nb \<le> f_rel f + 2 ^ k \<Longrightarrow> f_res f + unat nb \<le> seen + 2 ^ k" "f_res f \<le> seen + 2 ^ k"
      "cached_cons p = word_of_nat (seen + 2 ^ k)" by blast
  show ?thesis
  proof (cases "f_res f + unat nb \<le> f_rel f + 2 ^ k")
    case True
    define f' where "f' = f\<lparr>f_res := f_res f + unat nb\<rparr>"
    have "fifo_step (2 ^ k) f x f'" using True unfolding f'_def Reserve by (rule fifo_reserve)
    moreover have "i < f_res f" if "f_val f i = Some v" for i v
      using assms(1) that by (cases "i < f_res f") (auto simp: fifo_rel_def)
    then have "fifo_rel k (xsk_exec x s) f'"
      using assms(1) True p(3-5,7,8) p(6) [OF True] unfolding fifo_rel_def Reserve f'_def xsk_exec.simps p(1)
      by (elim conjE, intro conjI) (auto simp del: of_nat_add)
    ultimately show ?thesis by blast
  next
    case False
    then have "fifo_step (2 ^ k) f x f" unfolding Reserve by (intro fifo_full) simp
    moreover have "fifo_rel k (xsk_exec x s) f"
      using assms(1) False p(2-5,7,8) unfolding fifo_rel_def Reserve xsk_exec.simps p(1)
      by (elim conjE, intro conjI) (auto simp del: of_nat_add)
    ultimately show ?thesis by blast
  qed
next
  case (Fill idx v)
  with assms(2) obtain i where i: "f_sub f \<le> i" "i < f_res f" "idx = word_of_nat i" by auto
  define f' where "f' = f\<lparr>f_val := (f_val f)(i := Some v)\<rparr>"
  have "fifo_step (2 ^ k) f x f'" using i unfolding f'_def Fill i(3) by (intro fifo_fill)
  moreover have "fifo_rel k (xsk_exec x s) f'"
  proof -
    from assms(1) have r: "k < 32" "ring_mask (pside s) = mask k" "length (ring (shared s)) = 2 ^ k"
        "f_rel f \<le> f_sub f" "f_res f \<le> f_rel f + 2 ^ k" by (auto simp: fifo_rel_def)
    have slot: "xsk_ring_prod_tx_desc (pside s) idx = i mod 2 ^ k"
      using r(1,2) by (simp add: xsk_ring_prod_tx_desc_def i(3) slot_mod)
    have other: "j mod 2 ^ k \<noteq> i mod 2 ^ k \<and> i mod 2 ^ k \<noteq> j mod 2 ^ k" if "f_rel f \<le> j" "j < f_res f" "j \<noteq> i" for j
      using slots_apart [of j "2 ^ k" i "f_rel f"] that i r(4,5) by linarith
    show ?thesis
      using assms(1) i r(3) other unfolding fifo_rel_def Fill f'_def xsk_exec.simps slot
      by (elim conjE, intro conjI) (auto simp: nth_list_update)
  qed
  ultimately show ?thesis by blast
next
  case (Submit nb)
  define f' where "f' = f\<lparr>f_sub := f_sub f + unat nb\<rparr>"
  have le: "f_sub f + unat nb \<le> f_res f" using assms by (auto simp: Submit fifo_rel_def)
  then have "fifo_step (2 ^ k) f x f'" unfolding f'_def Submit by (rule fifo_submit)
  moreover have "fifo_rel k (xsk_exec x s) f'"
    using assms(1) le unfolding fifo_rel_def Submit f'_def xsk_exec.simps xsk_ring_prod_submit_def
    by (elim conjE, intro conjI) (auto intro: le_trans)
  ultimately show ?thesis by blast
next
  case (Peek nb)
  from peek_result [OF assms(1), of nb] obtain m c where m:
      "xsk_ring_cons_peek (shared s) (cside s) nb =
        (word_of_nat m, (if m = 0 then None else Some (word_of_nat (f_peek f))), c)"
      "m \<le> unat nb" "f_peek f + m \<le> f_sub f" "m = 0 \<longleftrightarrow> nb = 0 \<or> f_peek f = f_sub f"
      "ring_mask c = mask k" "cached_cons c = word_of_nat (f_peek f + m)"
      "\<exists>seen. f_peek f + m \<le> seen \<and> seen \<le> f_sub f \<and> cached_prod c = word_of_nat seen" by blast
  define f' where "f' = f\<lparr>f_peek := f_peek f + m\<rparr>"
  have "fifo_step (2 ^ k) f x f'" using m(2-4) unfolding f'_def Peek by (intro fifo_peek)
  moreover have "fifo_rel k (xsk_exec x s) f'"
    using assms(1) m(3,5-7) unfolding fifo_rel_def Peek f'_def xsk_exec.simps m(1)
    by (elim conjE, intro conjI) (auto simp del: of_nat_add)
  ultimately show ?thesis by blast
next
  case (Cancel nb)
  define f' where "f' = f\<lparr>f_peek := f_peek f - unat nb\<rparr>"
  have le: "f_rel f + unat nb \<le> f_peek f" using assms by (auto simp: Cancel fifo_rel_def)
  then have "fifo_step (2 ^ k) f x f'" unfolding f'_def Cancel by (rule fifo_cancel)
  moreover have "fifo_rel k (xsk_exec x s) f'"
    using assms(1) le unfolding fifo_rel_def Cancel f'_def xsk_exec.simps xsk_ring_cons_cancel_def
    by (elim conjE, intro conjI) (auto simp: of_nat_diff intro: le_trans [OF diff_le_self])
  ultimately show ?thesis by blast
next
  case (Release nb)
  define f' where "f' = f\<lparr>f_rel := f_rel f + unat nb\<rparr>"
  have le: "f_rel f + unat nb \<le> f_peek f" using assms by (auto simp: Release fifo_rel_def)
  then have "fifo_step (2 ^ k) f x f'" unfolding f'_def Release by (rule fifo_release)
  moreover have "fifo_rel k (xsk_exec x s) f'"
    using assms(1) le unfolding fifo_rel_def Release f'_def xsk_exec.simps xsk_ring_cons_release_def
    by (elim conjE, intro conjI) (auto intro: trans_le_add1)
  ultimately show ?thesis by blast
qed

lemma ring_refines_fifo_witness:
  "\<exists>f'. fifo_step (2 ^ 1) fifo_start (Reserve 2) f' \<and>
    fifo_rel 1 (xsk_exec (Reserve 2) (xsk_start 1 [0, 0 :: nat])) f'"
  using ring_refines_fifo [of 1 "xsk_start 1 [0, 0]" fifo_start "Reserve 2"] fifo_rel_start [of 1 "[0, 0]"] by simp

text \<open>
  The slots a successful reservation hands to the producer are inside the ring, pairwise
  different, and none of them holds an entry that is reserved already or that the consumer has not
  released yet.
\<close>

theorem reserved_slots_free:
  assumes "fifo_rel k s f" "xsk_ring_prod_reserve (shared s) (pside s) nb = (n, Some idx, p)" "j < unat nb"
  shows "xsk_ring_prod_fill_addr p (idx + word_of_nat j) < length (ring (shared s)) \<and>
    (\<forall>j' < unat nb. xsk_ring_prod_fill_addr p (idx + word_of_nat j') = xsk_ring_prod_fill_addr p (idx + word_of_nat j) \<longrightarrow> j' = j) \<and>
    (\<forall>i. f_rel f \<le> i \<and> i < f_res f \<longrightarrow>
       xsk_ring_prod_fill_addr p (idx + word_of_nat j) \<noteq> xsk_ring_cons_comp_addr (cside s) (word_of_nat i))"
proof -
  from reserve_result [OF assms(1), of nb] assms(2) have p: "f_res f + unat nb \<le> f_rel f + 2 ^ k"
      "idx = word_of_nat (f_res f)" "ring_mask p = mask k" by (auto split: if_splits)
  from assms(1) have r: "k < 32" "length (ring (shared s)) = 2 ^ k" "ring_mask (cside s) = mask k" "f_rel f \<le> f_res f"
    by (auto simp: fifo_rel_def)
  have slot: "xsk_ring_prod_fill_addr p (idx + word_of_nat m) = (f_res f + m) mod 2 ^ k" for m
    using slot_mod [OF r(1), of "f_res f + m"] by (simp add: xsk_ring_prod_fill_addr_def p(2,3))
  have used: "xsk_ring_cons_comp_addr (cside s) (word_of_nat i) = i mod 2 ^ k" for i
    using slot_mod [OF r(1)] by (simp add: xsk_ring_cons_comp_addr_def r(3))
  have distinct: "j' = j" if "j' < unat nb" "(f_res f + j') mod 2 ^ k = (f_res f + j) mod 2 ^ k" for j'
    using slots_apart [OF that(2), of "f_rel f"] that(1) p(1) r(4) assms(3) by linarith
  have apart: "(f_res f + j) mod 2 ^ k \<noteq> i mod 2 ^ k" if "f_rel f \<le> i" "i < f_res f" for i
    using slots_apart [of "f_res f + j" "2 ^ k" i "f_rel f"] that p(1) r(4) assms(3) by linarith
  show ?thesis unfolding slot used r(2) using distinct apart by simp
qed

lemma reserved_slots_free_witness:
  "xsk_ring_prod_fill_addr (pside (xsk_exec (Reserve 2) (xsk_start 1 [0, 0 :: nat]))) (0 + word_of_nat 1) < 2 \<and>
   xsk_ring_prod_fill_addr (pside (xsk_exec (Reserve 2) (xsk_start 1 [0, 0 :: nat]))) (0 + word_of_nat 0) \<noteq>
     xsk_ring_prod_fill_addr (pside (xsk_exec (Reserve 2) (xsk_start 1 [0, 0 :: nat]))) (0 + word_of_nat 1)"
proof -
  have "xsk_ring_prod_reserve (shared (xsk_start 1 [0, 0 :: nat])) (pside (xsk_start 1 [0, 0 :: nat])) 2 =
      (2, Some 0, pside (xsk_exec (Reserve 2) (xsk_start 1 [0, 0 :: nat])))"
    by (simp add: xsk_start_def xsk_ring_prod_reserve_def xsk_prod_nb_free_def)
  from reserved_slots_free [OF fifo_rel_start this, of 1] show ?thesis
    by (auto simp: xsk_start_def dest: spec [of _ 0])
qed

text \<open>
  What a peek shows the consumer is what the producer wrote, in the order of submission,
  and never an entry that was not submitted yet.
\<close>

theorem peek_reads_written:
  assumes "fifo_rel k s f" "xsk_ring_cons_peek (shared s) (cside s) nb = (n, Some idx, c)" "j < unat n"
  shows "f_peek f + j < f_sub f \<and>
    (f_val f (f_peek f + j) = Some v \<longrightarrow> ring (shared s) ! xsk_ring_cons_rx_desc c (idx + word_of_nat j) = v)"
proof -
  from peek_result [OF assms(1), of nb] obtain m where m: "n = word_of_nat m" "idx = word_of_nat (f_peek f)"
      "f_peek f + m \<le> f_sub f" "ring_mask c = mask k" "m \<le> unat nb"
    using assms(2) by (auto split: if_splits)
  have "unat n = m" using unat_word_of_nat32 [of m] m(5) unat_u32_less [of nb] by (simp add: m(1))
  then have sub: "f_peek f + j < f_sub f" using assms(3) m(3) by simp
  from assms(1) have r: "k < 32" "f_rel f \<le> f_peek f" "f_sub f \<le> f_res f" by (auto simp: fifo_rel_def)
  have slot: "xsk_ring_cons_rx_desc c (idx + word_of_nat j) = (f_peek f + j) mod 2 ^ k"
    using slot_mod [OF r(1), of "f_peek f + j"] by (simp add: xsk_ring_cons_rx_desc_def m(2,4))
  have "\<forall>i v. f_rel f \<le> i \<and> i < f_res f \<and> f_val f i = Some v \<longrightarrow> ring (shared s) ! (i mod 2 ^ k) = v"
    using assms(1) by (simp add: fifo_rel_def)
  with sub r show ?thesis unfolding slot by auto
qed

text \<open>A ring of two entries after \<open>2^32\<close> submissions: the counters have wrapped to 0 and one entry waits.\<close>

definition wrapped_ring :: "nat xsk_sys" where
  "wrapped_ring = \<lparr>pside = \<lparr>cached_prod = 0, cached_cons = 1, ring_mask = mask 1, ring_size = 2 ^ 1\<rparr>,
     cside = \<lparr>cached_prod = - 1, cached_cons = - 1, ring_mask = mask 1, ring_size = 2 ^ 1\<rparr>,
     shared = \<lparr>producer = 0, consumer = - 1, ring = [0, 7], ring_flags = 0\<rparr>\<rparr>"

lemma peek_reads_written_witness:
  "\<exists>c. xsk_ring_cons_peek (shared wrapped_ring) (cside wrapped_ring) 5 = (1, Some (- 1), c) \<and>
    ring (shared wrapped_ring) ! xsk_ring_cons_rx_desc c (- 1 + word_of_nat 0) = 7"
proof -
  let ?f = "\<lparr>f_rel = 4294967295, f_peek = 4294967295, f_sub = 4294967296, f_res = 4294967296,
     f_val = (\<lambda>i. if i = 4294967295 then Some (7 :: nat) else None)\<rparr>"
  have w: "word_of_nat 4294967295 = (- 1 :: u32)" "word_of_nat 4294967296 = (0 :: u32)" "word_of_nat 4294967297 = (1 :: u32)"
    by simp_all
  have rel: "fifo_rel 1 wrapped_ring ?f"
    by (auto simp: fifo_rel_def wrapped_ring_def w intro!: exI [of _ "4294967295 :: nat"])
  obtain c where c: "xsk_ring_cons_peek (shared wrapped_ring) (cside wrapped_ring) 5 = (1, Some (- 1), c)"
    by (simp add: wrapped_ring_def xsk_ring_cons_peek_def xsk_cons_nb_avail_def)
  from peek_reads_written [OF rel c, of 0 7] c show ?thesis by simp
qed

end
