(* ===== verification/Skel_Loader.thy ===== *)
theory Skel_Loader
  imports Sd_Memory
begin

text \<open>
  The loader of the bundled \<open>bpf/skel_internal.h\<close>: \<open>bpf_load_and_run\<close> creates a map with the loader's
  data, loads the loader program and runs it, and closes both descriptors on every path. The
  system calls answer through parameters; a run yields its result, the options with the error text
  set, and the descriptors opened and closed.
\<close>

section \<open>Data\<close>

text \<open>The union of a map descriptor: what the loader reads, or what it has written.\<close>

datatype bpf_map_desc = Map_input u64 u32 | Map_output int

record bpf_prog_desc =
  prog_desc_fd :: int

record bpf_loader_ctx =
  ctx_sz :: u64
  ctx_log_level :: u32
  ctx_log_size :: u32
  ctx_log_buf :: u64

record bpf_load_and_run_opts =
  lo_ctx :: bpf_loader_ctx
  lo_data :: "u8 list"
  lo_insns :: u64
  lo_data_sz :: u32
  lo_insns_sz :: u32
  lo_errstr :: "string option"

text \<open>The members of \<open>union bpf_attr\<close> the code sets for its two commands; all others are cleared.\<close>

record load_attr =
  la_prog_type :: string
  la_insns :: u64
  la_insn_cnt :: u32
  la_license :: string
  la_prog_name :: string
  la_fd_array :: "int list"
  la_log_level :: u32
  la_log_size :: u32
  la_log_buf :: u64
  la_prog_flags :: string

record run_attr =
  ra_prog_fd :: int
  ra_ctx_in :: bpf_loader_ctx
  ra_ctx_size_in :: u64

text \<open>
  The system calls: each returns its result and \<open>errno\<close>; running a program returns also the value
  \<open>retval\<close> it stores in the attributes. \<open>lk_insn\<close> is \<open>sizeof(struct bpf_insn)\<close>.
\<close>

record loader_kernel =
  lk_insn :: u32
  lk_create :: "string \<Rightarrow> nat \<Rightarrow> u32 \<Rightarrow> nat \<Rightarrow> int \<times> int"
  lk_update :: "int \<Rightarrow> u32 \<Rightarrow> u8 list \<Rightarrow> int \<times> int"
  lk_load :: "load_attr \<Rightarrow> int \<times> int"
  lk_run :: "run_attr \<Rightarrow> int \<times> int \<times> u32"
  lk_close :: "int \<Rightarrow> int"

section \<open>Operations\<close>

text \<open>\<open>skel_sys_bpf\<close> is \<open>bpf(2)\<close> with the command; the two commands used have their own parameters.\<close>

definition skel_sys_bpf_load :: "loader_kernel \<Rightarrow> load_attr \<Rightarrow> int \<times> int" where
  "skel_sys_bpf_load K attr = lk_load K attr"

definition skel_sys_bpf_run :: "loader_kernel \<Rightarrow> run_attr \<Rightarrow> int \<times> int \<times> u32" where
  "skel_sys_bpf_run K attr = lk_run K attr"

definition skel_closenz :: "loader_kernel \<Rightarrow> int \<Rightarrow> int" where
  "skel_closenz K fd = (if fd > 0 then lk_close K fd else - EINVAL)"

datatype fd_event = Opened int | Closed int

text \<open>The label \<open>out\<close>: close what is open, and return.\<close>

definition loader_out ::
  "int \<Rightarrow> int \<Rightarrow> int \<Rightarrow> bpf_load_and_run_opts \<Rightarrow> fd_event list \<Rightarrow> int \<times> bpf_load_and_run_opts \<times> fd_event list" where
  "loader_out map_fd prog_fd err lopts evs =
     (let evs = (if map_fd \<ge> 0 then evs @ [Closed map_fd] else evs);
          evs = (if prog_fd \<ge> 0 then evs @ [Closed prog_fd] else evs)
      in (err, lopts, evs))"

definition loader_load_attr :: "loader_kernel \<Rightarrow> bpf_load_and_run_opts \<Rightarrow> int \<Rightarrow> load_attr" where
  "loader_load_attr K lopts map_fd =
     \<lparr>la_prog_type = ''BPF_PROG_TYPE_SYSCALL'', la_insns = lo_insns lopts, la_insn_cnt = lo_insns_sz lopts div lk_insn K,
      la_license = ''Dual BSD/GPL'', la_prog_name = ''__loader.prog'', la_fd_array = [map_fd],
      la_log_level = ctx_log_level (lo_ctx lopts), la_log_size = ctx_log_size (lo_ctx lopts),
      la_log_buf = ctx_log_buf (lo_ctx lopts), la_prog_flags = ''BPF_F_SLEEPABLE''\<rparr>"

definition bpf_load_and_run ::
  "loader_kernel \<Rightarrow> bpf_load_and_run_opts \<Rightarrow> int \<times> bpf_load_and_run_opts \<times> fd_event list" where
  "bpf_load_and_run K lopts =
     (case lk_create K ''__loader.map'' 4 (lo_data_sz lopts) 1 of (map_fd, errno) \<Rightarrow>
        if map_fd < 0 then
          loader_out map_fd (- 1) (- errno) (lopts\<lparr>lo_errstr := Some ''failed to create loader map''\<rparr>) []
        else
        case lk_update K map_fd 0 (lo_data lopts) of (err, errno) \<Rightarrow>
        if err < 0 then
          loader_out map_fd (- 1) (- errno) (lopts\<lparr>lo_errstr := Some ''failed to update loader map''\<rparr>) [Opened map_fd]
        else
        case skel_sys_bpf_load K (loader_load_attr K lopts map_fd) of (prog_fd, errno) \<Rightarrow>
        if prog_fd < 0 then
          loader_out map_fd prog_fd (- errno) (lopts\<lparr>lo_errstr := Some ''failed to load loader prog''\<rparr>) [Opened map_fd]
        else
        case skel_sys_bpf_run K \<lparr>ra_prog_fd = prog_fd, ra_ctx_in = lo_ctx lopts, ra_ctx_size_in = ctx_sz (lo_ctx lopts)\<rparr> of
          (err, errno, retval) \<Rightarrow>
        if err < 0 \<or> sint retval < 0 then
          loader_out map_fd prog_fd (if err < 0 then - errno else sint retval)
            (lopts\<lparr>lo_errstr := Some ''failed to execute loader prog''\<rparr>) [Opened map_fd, Opened prog_fd]
        else loader_out map_fd prog_fd 0 lopts [Opened map_fd, Opened prog_fd])"

section \<open>Properties\<close>

fun opened :: "fd_event list \<Rightarrow> int list" where
  "opened [] = []"
| "opened (Opened fd # evs) = fd # opened evs"
| "opened (Closed fd # evs) = opened evs"

fun closed :: "fd_event list \<Rightarrow> int list" where
  "closed [] = []"
| "closed (Closed fd # evs) = fd # closed evs"
| "closed (Opened fd # evs) = closed evs"

text \<open>
  The loader closes every descriptor it opened, once each and after its last use, on every
  path; and it leaves an error text exactly on the paths that fail.
\<close>

lemma loader_closes:
  "case bpf_load_and_run K lopts of (err, lopts', evs) \<Rightarrow>
     evs = map Opened (opened evs) @ map Closed (opened evs) \<and> length (opened evs) \<le> 2 \<and>
     (lopts' = lopts \<and> err = 0 \<or> (\<exists>msg. lopts' = lopts\<lparr>lo_errstr := Some msg\<rparr>))"
  by (auto simp: bpf_load_and_run_def loader_out_def Let_def split: prod.split)

definition loader_succeeds :: "loader_kernel \<Rightarrow> bpf_load_and_run_opts \<Rightarrow> bool" where
  "loader_succeeds K lopts \<longleftrightarrow>
     (let map_fd = fst (lk_create K ''__loader.map'' 4 (lo_data_sz lopts) 1);
          prog_fd = fst (lk_load K (loader_load_attr K lopts map_fd));
          run = lk_run K \<lparr>ra_prog_fd = prog_fd, ra_ctx_in = lo_ctx lopts, ra_ctx_size_in = ctx_sz (lo_ctx lopts)\<rparr>
      in 0 \<le> map_fd \<and> 0 \<le> fst (lk_update K map_fd 0 (lo_data lopts)) \<and> 0 \<le> prog_fd \<and>
         0 \<le> fst run \<and> 0 \<le> sint (snd (snd run)))"

text \<open>\<open>errno\<close> is positive after a call that failed.\<close>

definition errno_set :: "loader_kernel \<Rightarrow> bool" where
  "errno_set K \<longleftrightarrow>
     (\<forall>nm a b c. fst (lk_create K nm a b c) < 0 \<longrightarrow> 0 < snd (lk_create K nm a b c)) \<and>
     (\<forall>fd k d. fst (lk_update K fd k d) < 0 \<longrightarrow> 0 < snd (lk_update K fd k d)) \<and>
     (\<forall>a. fst (lk_load K a) < 0 \<longrightarrow> 0 < snd (lk_load K a)) \<and>
     (\<forall>a. fst (lk_run K a) < 0 \<longrightarrow> 0 < fst (snd (lk_run K a)))"

text \<open>
  Claim C40. The loader returns 0 exactly when all four system calls succeed and the program it ran
  reported no error, and a negative error number otherwise. On every path it closes the descriptors
  it opened, once each and in order; with a result of 0 the options are as they were.
\<close>

theorem loader_result:
  assumes "errno_set K" "bpf_load_and_run K lopts = (err, lopts', evs)"
  shows "err \<le> 0 \<and> (err = 0) = loader_succeeds K lopts \<and>
    evs = map Opened (opened evs) @ map Closed (opened evs) \<and> (err = 0 \<longrightarrow> lopts' = lopts)"
proof -
  obtain map_fd e1 where c: "lk_create K ''__loader.map'' 4 (lo_data_sz lopts) 1 = (map_fd, e1)" by force
  obtain r e2 where u: "lk_update K map_fd 0 (lo_data lopts) = (r, e2)" by force
  obtain prog_fd e3 where l: "lk_load K (loader_load_attr K lopts map_fd) = (prog_fd, e3)" by force
  obtain r' e4 v where x:
      "lk_run K \<lparr>ra_prog_fd = prog_fd, ra_ctx_in = lo_ctx lopts, ra_ctx_size_in = ctx_sz (lo_ctx lopts)\<rparr> = (r', e4, v)"
    by (metis prod_cases3)
  have "map_fd < 0 \<longrightarrow> 0 < e1" "r < 0 \<longrightarrow> 0 < e2" "prog_fd < 0 \<longrightarrow> 0 < e3" "r' < 0 \<longrightarrow> 0 < e4"
    using assms(1) c u l x unfolding errno_set_def by (metis fst_conv snd_conv)+
  then have "err \<le> 0 \<and> (err = 0) = loader_succeeds K lopts \<and> (err = 0 \<longrightarrow> lopts' = lopts)"
    using assms(2) by (auto simp: bpf_load_and_run_def loader_succeeds_def skel_sys_bpf_load_def skel_sys_bpf_run_def
        c [simplified] u l x loader_out_def Let_def split: if_splits)
  moreover have "evs = map Opened (opened evs) @ map Closed (opened evs)"
    using loader_closes [where K = K and lopts = lopts] assms(2) by simp
  ultimately show ?thesis by blast
qed

definition demo_loader :: loader_kernel where
  "demo_loader = \<lparr>lk_insn = 8, lk_create = (\<lambda>_ _ _ _. (3, 0)), lk_update = (\<lambda>_ _ _. (0, 0)), lk_load = (\<lambda>_. (- 1, 22)),
     lk_run = (\<lambda>_. (0, 0, 0)), lk_close = (\<lambda>_. 0)\<rparr>"

definition demo_lopts :: bpf_load_and_run_opts where
  "demo_lopts = \<lparr>lo_ctx = \<lparr>ctx_sz = 24, ctx_log_level = 0, ctx_log_size = 0, ctx_log_buf = 0\<rparr>, lo_data = [], lo_insns = 0,
     lo_data_sz = 0, lo_insns_sz = 16, lo_errstr = None\<rparr>"

lemma loader_result_witness:
  "\<exists>lopts' evs. bpf_load_and_run demo_loader demo_lopts = (- 22, lopts', evs) \<and> \<not> loader_succeeds demo_loader demo_lopts \<and>
    evs = map Opened (opened evs) @ map Closed (opened evs)"
proof -
  have e: "errno_set demo_loader" by (simp add: errno_set_def demo_loader_def)
  obtain lopts' evs where r: "bpf_load_and_run demo_loader demo_lopts = (- 22, lopts', evs)"
    by (simp add: bpf_load_and_run_def demo_loader_def skel_sys_bpf_load_def loader_out_def Let_def)
  from loader_result [OF e r] r show ?thesis by simp
qed

end
