(* ===== verification/Btf_Types.thy ===== *)
theory Btf_Types
  imports Trace_Prelude
begin

text \<open>
  The helpers of the bundled \<open>bpf/btf.h\<close> that take a BTF type apart. The encoding itself (\<open>BTF_INFO_KIND\<close>
  and the other macros, the kind numbers, the layout of what follows a type) is defined by the
  kernel's \<open>linux/btf.h\<close>, which is not part of the repository: it is the record \<open>btf_uapi\<close> of parameters,
  and the documented encoding is the hypothesis \<open>documented_encoding\<close>.
\<close>

unbundle bit_operations_syntax

section \<open>Types and their encoding\<close>

datatype btf_kind_name =
  BTF_KIND_UNKN | BTF_KIND_INT | BTF_KIND_PTR | BTF_KIND_ARRAY | BTF_KIND_STRUCT | BTF_KIND_UNION | BTF_KIND_ENUM | BTF_KIND_FWD | BTF_KIND_TYPEDEF | BTF_KIND_VOLATILE | BTF_KIND_CONST | BTF_KIND_RESTRICT | BTF_KIND_FUNC | BTF_KIND_FUNC_PROTO | BTF_KIND_VAR | BTF_KIND_DATASEC | BTF_KIND_FLOAT

text \<open>A type is three words; what follows it in memory is a list of words.\<close>

record btf_type =
  bt_name_off :: u32
  bt_info :: u32
  bt_size_or_type :: u32
  bt_next :: "u32 list"

record btf_uapi =
  kind_number :: "btf_kind_name \<Rightarrow> u16"
  BTF_INFO_KIND :: "u32 \<Rightarrow> u32"
  BTF_INFO_VLEN :: "u32 \<Rightarrow> u32"
  BTF_INFO_KFLAG :: "u32 \<Rightarrow> u32"
  BTF_INT_ENCODING :: "u32 \<Rightarrow> u32"
  BTF_INT_OFFSET :: "u32 \<Rightarrow> u32"
  BTF_INT_BITS :: "u32 \<Rightarrow> u32"
  BTF_MEMBER_BIT_OFFSET :: "u32 \<Rightarrow> u32"
  BTF_MEMBER_BITFIELD_SIZE :: "u32 \<Rightarrow> u32"
  member_offset :: "u32 list \<Rightarrow> u32 \<Rightarrow> u32"

section \<open>The helpers\<close>

definition btf_kind :: "btf_uapi \<Rightarrow> btf_type \<Rightarrow> u16" where
  "btf_kind U t = ucast (BTF_INFO_KIND U (bt_info t))"

definition btf_vlen :: "btf_uapi \<Rightarrow> btf_type \<Rightarrow> u16" where
  "btf_vlen U t = ucast (BTF_INFO_VLEN U (bt_info t))"

definition btf_kflag :: "btf_uapi \<Rightarrow> btf_type \<Rightarrow> bool" where
  "btf_kflag U t \<longleftrightarrow> BTF_INFO_KFLAG U (bt_info t) \<noteq> 0"

definition btf_is_void :: "btf_uapi \<Rightarrow> btf_type \<Rightarrow> bool" where
  "btf_is_void U t \<longleftrightarrow> btf_kind U t = kind_number U BTF_KIND_UNKN"

definition btf_is_int :: "btf_uapi \<Rightarrow> btf_type \<Rightarrow> bool" where
  "btf_is_int U t \<longleftrightarrow> btf_kind U t = kind_number U BTF_KIND_INT"

definition btf_is_ptr :: "btf_uapi \<Rightarrow> btf_type \<Rightarrow> bool" where
  "btf_is_ptr U t \<longleftrightarrow> btf_kind U t = kind_number U BTF_KIND_PTR"

definition btf_is_array :: "btf_uapi \<Rightarrow> btf_type \<Rightarrow> bool" where
  "btf_is_array U t \<longleftrightarrow> btf_kind U t = kind_number U BTF_KIND_ARRAY"

definition btf_is_struct :: "btf_uapi \<Rightarrow> btf_type \<Rightarrow> bool" where
  "btf_is_struct U t \<longleftrightarrow> btf_kind U t = kind_number U BTF_KIND_STRUCT"

definition btf_is_union :: "btf_uapi \<Rightarrow> btf_type \<Rightarrow> bool" where
  "btf_is_union U t \<longleftrightarrow> btf_kind U t = kind_number U BTF_KIND_UNION"

definition btf_is_enum :: "btf_uapi \<Rightarrow> btf_type \<Rightarrow> bool" where
  "btf_is_enum U t \<longleftrightarrow> btf_kind U t = kind_number U BTF_KIND_ENUM"

definition btf_is_fwd :: "btf_uapi \<Rightarrow> btf_type \<Rightarrow> bool" where
  "btf_is_fwd U t \<longleftrightarrow> btf_kind U t = kind_number U BTF_KIND_FWD"

definition btf_is_typedef :: "btf_uapi \<Rightarrow> btf_type \<Rightarrow> bool" where
  "btf_is_typedef U t \<longleftrightarrow> btf_kind U t = kind_number U BTF_KIND_TYPEDEF"

definition btf_is_volatile :: "btf_uapi \<Rightarrow> btf_type \<Rightarrow> bool" where
  "btf_is_volatile U t \<longleftrightarrow> btf_kind U t = kind_number U BTF_KIND_VOLATILE"

definition btf_is_const :: "btf_uapi \<Rightarrow> btf_type \<Rightarrow> bool" where
  "btf_is_const U t \<longleftrightarrow> btf_kind U t = kind_number U BTF_KIND_CONST"

definition btf_is_restrict :: "btf_uapi \<Rightarrow> btf_type \<Rightarrow> bool" where
  "btf_is_restrict U t \<longleftrightarrow> btf_kind U t = kind_number U BTF_KIND_RESTRICT"

definition btf_is_func :: "btf_uapi \<Rightarrow> btf_type \<Rightarrow> bool" where
  "btf_is_func U t \<longleftrightarrow> btf_kind U t = kind_number U BTF_KIND_FUNC"

definition btf_is_func_proto :: "btf_uapi \<Rightarrow> btf_type \<Rightarrow> bool" where
  "btf_is_func_proto U t \<longleftrightarrow> btf_kind U t = kind_number U BTF_KIND_FUNC_PROTO"

definition btf_is_var :: "btf_uapi \<Rightarrow> btf_type \<Rightarrow> bool" where
  "btf_is_var U t \<longleftrightarrow> btf_kind U t = kind_number U BTF_KIND_VAR"

definition btf_is_datasec :: "btf_uapi \<Rightarrow> btf_type \<Rightarrow> bool" where
  "btf_is_datasec U t \<longleftrightarrow> btf_kind U t = kind_number U BTF_KIND_DATASEC"

definition btf_is_float :: "btf_uapi \<Rightarrow> btf_type \<Rightarrow> bool" where
  "btf_is_float U t \<longleftrightarrow> btf_kind U t = kind_number U BTF_KIND_FLOAT"

definition btf_is_composite :: "btf_uapi \<Rightarrow> btf_type \<Rightarrow> bool" where
  "btf_is_composite U t \<longleftrightarrow>
     (let kind = btf_kind U t in kind = kind_number U BTF_KIND_STRUCT \<or> kind = kind_number U BTF_KIND_UNION)"

definition btf_is_mod :: "btf_uapi \<Rightarrow> btf_type \<Rightarrow> bool" where
  "btf_is_mod U t \<longleftrightarrow>
     (let kind = btf_kind U t
      in kind = kind_number U BTF_KIND_VOLATILE \<or> kind = kind_number U BTF_KIND_CONST \<or>
         kind = kind_number U BTF_KIND_RESTRICT)"

text \<open>An integer type is followed by one word.\<close>

definition btf_int_encoding :: "btf_uapi \<Rightarrow> btf_type \<Rightarrow> u8" where
  "btf_int_encoding U t = ucast (BTF_INT_ENCODING U (hd (bt_next t)))"

definition btf_int_offset :: "btf_uapi \<Rightarrow> btf_type \<Rightarrow> u8" where
  "btf_int_offset U t = ucast (BTF_INT_OFFSET U (hd (bt_next t)))"

definition btf_int_bits :: "btf_uapi \<Rightarrow> btf_type \<Rightarrow> u8" where
  "btf_int_bits U t = ucast (BTF_INT_BITS U (hd (bt_next t)))"

text \<open>The pointers to what follows a type are the words there.\<close>

definition btf_array :: "btf_type \<Rightarrow> u32 list" where "btf_array t = bt_next t"
definition btf_enum :: "btf_type \<Rightarrow> u32 list" where "btf_enum t = bt_next t"
definition btf_members :: "btf_type \<Rightarrow> u32 list" where "btf_members t = bt_next t"
definition btf_params :: "btf_type \<Rightarrow> u32 list" where "btf_params t = bt_next t"
definition btf_var :: "btf_type \<Rightarrow> u32 list" where "btf_var t = bt_next t"
definition btf_var_secinfos :: "btf_type \<Rightarrow> u32 list" where "btf_var_secinfos t = bt_next t"

text \<open>\<open>member_offset\<close> is the field \<open>offset\<close> of the member with an index.\<close>

definition btf_member_bit_offset :: "btf_uapi \<Rightarrow> btf_type \<Rightarrow> u32 \<Rightarrow> u32" where
  "btf_member_bit_offset U t member_idx =
     (let m = member_offset U (btf_members t) member_idx; kflag = btf_kflag U t
      in if kflag then BTF_MEMBER_BIT_OFFSET U m else m)"

definition btf_member_bitfield_size :: "btf_uapi \<Rightarrow> btf_type \<Rightarrow> u32 \<Rightarrow> u32" where
  "btf_member_bitfield_size U t member_idx =
     (let m = member_offset U (btf_members t) member_idx; kflag = btf_kflag U t
      in if kflag then BTF_MEMBER_BITFIELD_SIZE U m else 0)"

section \<open>The documented encoding\<close>

definition documented_encoding :: "btf_uapi \<Rightarrow> bool" where
  "documented_encoding U \<longleftrightarrow> inj (kind_number U) \<and>
     (\<forall>v. BTF_MEMBER_BIT_OFFSET U v = v AND mask 24 \<and> BTF_MEMBER_BITFIELD_SIZE U v = drop_bit 24 v)"

definition btf_predicates :: "((btf_uapi \<Rightarrow> btf_type \<Rightarrow> bool) \<times> btf_kind_name) list" where
  "btf_predicates = [(btf_is_void, BTF_KIND_UNKN), (btf_is_int, BTF_KIND_INT), (btf_is_ptr, BTF_KIND_PTR), (btf_is_array, BTF_KIND_ARRAY), (btf_is_struct, BTF_KIND_STRUCT), (btf_is_union, BTF_KIND_UNION), (btf_is_enum, BTF_KIND_ENUM), (btf_is_fwd, BTF_KIND_FWD), (btf_is_typedef, BTF_KIND_TYPEDEF), (btf_is_volatile, BTF_KIND_VOLATILE), (btf_is_const, BTF_KIND_CONST), (btf_is_restrict, BTF_KIND_RESTRICT), (btf_is_func, BTF_KIND_FUNC), (btf_is_func_proto, BTF_KIND_FUNC_PROTO), (btf_is_var, BTF_KIND_VAR), (btf_is_datasec, BTF_KIND_DATASEC), (btf_is_float, BTF_KIND_FLOAT)]"

lemmas btf_is_defs = btf_is_void_def btf_is_int_def btf_is_ptr_def btf_is_array_def btf_is_struct_def btf_is_union_def btf_is_enum_def btf_is_fwd_def btf_is_typedef_def btf_is_volatile_def btf_is_const_def btf_is_restrict_def btf_is_func_def btf_is_func_proto_def btf_is_var_def btf_is_datasec_def btf_is_float_def

text \<open>One encoding of that form, for the witnesses, and a structure with one bit field in it.\<close>

fun demo_kind :: "btf_kind_name \<Rightarrow> u16" where
  "demo_kind BTF_KIND_UNKN = 0"
| "demo_kind BTF_KIND_INT = 1"
| "demo_kind BTF_KIND_PTR = 2"
| "demo_kind BTF_KIND_ARRAY = 3"
| "demo_kind BTF_KIND_STRUCT = 4"
| "demo_kind BTF_KIND_UNION = 5"
| "demo_kind BTF_KIND_ENUM = 6"
| "demo_kind BTF_KIND_FWD = 7"
| "demo_kind BTF_KIND_TYPEDEF = 8"
| "demo_kind BTF_KIND_VOLATILE = 9"
| "demo_kind BTF_KIND_CONST = 10"
| "demo_kind BTF_KIND_RESTRICT = 11"
| "demo_kind BTF_KIND_FUNC = 12"
| "demo_kind BTF_KIND_FUNC_PROTO = 13"
| "demo_kind BTF_KIND_VAR = 14"
| "demo_kind BTF_KIND_DATASEC = 15"
| "demo_kind BTF_KIND_FLOAT = 16"

definition demo_uapi :: btf_uapi where
  "demo_uapi = \<lparr>kind_number = demo_kind, BTF_INFO_KIND = (\<lambda>v. drop_bit 24 v AND mask 5),
     BTF_INFO_VLEN = (\<lambda>v. v AND mask 16), BTF_INFO_KFLAG = (\<lambda>v. drop_bit 31 v),
     BTF_INT_ENCODING = (\<lambda>v. drop_bit 24 v AND mask 4), BTF_INT_OFFSET = (\<lambda>v. drop_bit 16 v AND mask 8),
     BTF_INT_BITS = (\<lambda>v. v AND mask 8), BTF_MEMBER_BIT_OFFSET = (\<lambda>v. v AND mask 24),
     BTF_MEMBER_BITFIELD_SIZE = (\<lambda>v. drop_bit 24 v), member_offset = (\<lambda>ws i. ws ! (3 * unat i + 2))\<rparr>"

lemma demo_uapi_encoding: "documented_encoding demo_uapi"
proof -
  have "demo_kind a = demo_kind b \<Longrightarrow> a = b" for a b by (cases a; cases b; simp)
  then show ?thesis by (simp add: documented_encoding_def demo_uapi_def inj_def)
qed

definition demo_struct :: btf_type where
  "demo_struct = \<lparr>bt_name_off = 1, bt_info = 0x84000001, bt_size_or_type = 4, bt_next = [7, 2, 0x03000005]\<rparr>"

text \<open>
  The kind predicates tell types apart: each holds for one kind only and no two hold of one
  type; a composite is a structure or a union, a modifier is volatile, const or restrict, and never both.
\<close>

theorem btf_predicates_disjoint:
  assumes "documented_encoding U" "(p, k) \<in> set btf_predicates" "(q, l) \<in> set btf_predicates"
    and "p U t" "q U t"
  shows "k = l \<and> btf_is_composite U t = (btf_is_struct U t \<or> btf_is_union U t) \<and>
    btf_is_mod U t = (btf_is_volatile U t \<or> btf_is_const U t \<or> btf_is_restrict U t) \<and>
    \<not> (btf_is_composite U t \<and> btf_is_mod U t)"
proof -
  have inj: "kind_number U a = kind_number U b \<longleftrightarrow> a = b" for a b
    using assms(1) by (simp add: documented_encoding_def inj_eq)
  have "r U t \<longleftrightarrow> btf_kind U t = kind_number U j" if "(r, j) \<in> set btf_predicates" for r j
    using that unfolding btf_predicates_def by (auto simp: btf_is_defs)
  with assms(2-5) inj have "k = l" by metis
  moreover have "\<not> (btf_is_composite U t \<and> btf_is_mod U t)"
    by (auto simp: btf_is_composite_def btf_is_mod_def Let_def inj)
  ultimately show ?thesis by (auto simp: btf_is_composite_def btf_is_mod_def btf_is_defs Let_def)
qed

lemma btf_predicates_disjoint_witness:
  "btf_is_struct demo_uapi demo_struct \<and> btf_is_composite demo_uapi demo_struct \<and> \<not> btf_is_mod demo_uapi demo_struct"
proof -
  have "btf_is_struct demo_uapi demo_struct"
    by (simp add: btf_is_struct_def btf_kind_def demo_uapi_def demo_struct_def mask_eq_decr_exp)
  with btf_predicates_disjoint [OF demo_uapi_encoding, of btf_is_struct BTF_KIND_STRUCT btf_is_struct BTF_KIND_STRUCT demo_struct]
  show ?thesis unfolding btf_predicates_def by auto
qed

text \<open>
  The bit offset and the bit-field size of a member together are its stored offset word:
  nothing is lost with the flag, and without it the word is the offset and the size is 0.
\<close>

theorem btf_member_split:
  assumes "documented_encoding U"
  shows "push_bit 24 (btf_member_bitfield_size U t i) + btf_member_bit_offset U t i = member_offset U (btf_members t) i \<and>
    unat (btf_member_bitfield_size U t i) < 256 \<and>
    (btf_kflag U t \<longrightarrow> unat (btf_member_bit_offset U t i) < 2 ^ 24)"
proof -
  let ?m = "member_offset U (btf_members t) i"
  have s: "BTF_MEMBER_BITFIELD_SIZE U ?m = drop_bit 24 ?m" "BTF_MEMBER_BIT_OFFSET U ?m = take_bit 24 ?m"
    using assms by (simp_all add: documented_encoding_def take_bit_eq_mask)
  have "unat (drop_bit 24 ?m) = unat ?m div 16777216" by (simp add: drop_bit_eq_div unat_div)
  moreover have "unat ?m div 16777216 < 256" using unat_u32_less [of ?m] by (simp add: less_mult_imp_div_less)
  moreover have "unat (take_bit 24 ?m) < 2 ^ 24" by (simp add: take_bit_eq_mod unat_mod)
  moreover have "push_bit 24 (drop_bit 24 ?m) + take_bit 24 ?m = ?m" using bits_ident [of 24 ?m] by simp
  ultimately show ?thesis
    by (simp add: btf_member_bit_offset_def btf_member_bitfield_size_def s Let_def del: push_bit_of_1)
qed

lemma btf_member_split_witness:
  "push_bit 24 (btf_member_bitfield_size demo_uapi demo_struct 0) + btf_member_bit_offset demo_uapi demo_struct 0 = 0x03000005"
proof -
  have "member_offset demo_uapi (btf_members demo_struct) 0 = 0x03000005"
    by (simp add: demo_uapi_def demo_struct_def btf_members_def numeral_2_eq_2)
  with btf_member_split [OF demo_uapi_encoding, of demo_struct 0] show ?thesis by metis
qed

end
