(* ===== verification/Libbpf_Macros.thy ===== *)
theory Libbpf_Macros
  imports Trace_Prelude "HOL-Library.Monad_Syntax"
begin

text \<open>
  The macros of \<open>bpf/libbpf.h\<close> and \<open>bpf/libbpf_common.h\<close>: the declaration of an options structure, the
  loops over the objects, programs and maps libbpf holds, and the parent of a traffic control hook.
  The functions of the library are parameters; what the loops rely on is \<open>walks\<close>.
\<close>

unbundle bit_operations_syntax

section \<open>Options\<close>

text \<open>
  A structure of options maps the names of its members to their values. \<open>memset\<close> clears all of it,
  padding included, and in the compound literal a later initialiser of a member replaces an earlier.
\<close>

definition DECLARE_LIBBPF_OPTS :: "u64 \<Rightarrow> (string \<times> u64) list \<Rightarrow> string \<Rightarrow> u64" where
  "DECLARE_LIBBPF_OPTS sizeof args = fold (\<lambda>(m, v) opts. opts(m := v)) ((''sz'', sizeof) # args) (\<lambda>_. 0)"

lemma fold_members:
  "fold (\<lambda>(m, v) opts. opts(m := v)) args opts0 f = (case map_of (rev args) f of Some v \<Rightarrow> v | None \<Rightarrow> opts0 f)"
  by (induction args arbitrary: opts0) (auto simp: map_add_def split: option.splits)

text \<open>Members that are not named are zero, and the library finds the size the caller was compiled with.\<close>

theorem opts_members:
  "DECLARE_LIBBPF_OPTS sizeof args f =
    (case map_of (rev args) f of Some v \<Rightarrow> v | None \<Rightarrow> if f = ''sz'' then sizeof else 0)"
  by (simp add: DECLARE_LIBBPF_OPTS_def fold_members split: option.split)

section \<open>Loops over the library's lists\<close>

text \<open>
  \<open>nxt prev s\<close> is the call of the library's \<open>next\<close> in a state \<open>s\<close>: \<open>None\<close> when \<open>prev\<close> is no element
  any more, otherwise the pointer it returns. The body changes the state.
\<close>

type_synonym ('o, 's) next_fn = "'o option \<Rightarrow> 's \<Rightarrow> 'o option option"

partial_function (option) for_each_loop :: "('o, 's) next_fn \<Rightarrow> ('o \<Rightarrow> 's \<Rightarrow> 's) \<Rightarrow> 'o option \<Rightarrow> 's \<Rightarrow> 's option" where
  "for_each_loop nxt body pos s =
     (case pos of None \<Rightarrow> Some s
      | Some p \<Rightarrow>
          (let s1 = body p s
           in Option.bind (nxt (Some p) s1) (\<lambda>pos1. for_each_loop nxt body pos1 s1)))"

text \<open>\<open>bpf_object__for_each_program\<close>, \<open>bpf_object__for_each_map\<close> and \<open>bpf_map__for_each\<close>.\<close>

definition bpf_object_for_each :: "('o, 's) next_fn \<Rightarrow> ('o \<Rightarrow> 's \<Rightarrow> 's) \<Rightarrow> 's \<Rightarrow> 's option" where
  "bpf_object_for_each nxt body s = Option.bind (nxt None s) (\<lambda>pos. for_each_loop nxt body pos s)"

partial_function (option) for_each_safe_loop ::
  "('o, 's) next_fn \<Rightarrow> ('o \<Rightarrow> 's \<Rightarrow> 's) \<Rightarrow> 'o option \<Rightarrow> 'o option \<Rightarrow> 's \<Rightarrow> 's option" where
  "for_each_safe_loop nxt body pos tmp s =
     (case pos of None \<Rightarrow> Some s
      | Some p \<Rightarrow>
          (let s1 = body p s
           in Option.bind (nxt tmp s1) (\<lambda>tmp1. for_each_safe_loop nxt body tmp tmp1 s1)))"

definition bpf_object_for_each_safe :: "('o, 's) next_fn \<Rightarrow> ('o \<Rightarrow> 's \<Rightarrow> 's) \<Rightarrow> 's \<Rightarrow> 's option" where
  "bpf_object_for_each_safe nxt body s =
     Option.bind (nxt None s) (\<lambda>pos. Option.bind (nxt pos s) (\<lambda>tmp. for_each_safe_loop nxt body pos tmp s))"

text \<open>What libbpf documents of \<open>next\<close>: the first element for a null pointer, then the element after.\<close>

definition head :: "'o list \<Rightarrow> 'o option" where
  "head xs = (case xs of [] \<Rightarrow> None | x # _ \<Rightarrow> Some x)"

lemma head_simps [simp]: "head [] = None" "head (x # xs) = Some x"
  by (simp_all add: head_def)

definition walks :: "('s \<Rightarrow> 'o list) \<Rightarrow> ('o, 's) next_fn \<Rightarrow> bool" where
  "walks objs nxt \<longleftrightarrow>
     (\<forall>s. nxt None s = Some (head (objs s))) \<and>
     (\<forall>s xs p ys. objs s = xs @ p # ys \<longrightarrow> distinct (objs s) \<longrightarrow> nxt (Some p) s = Some (head ys))"

lemma walksD:
  "walks objs nxt \<Longrightarrow> nxt None s = Some (head (objs s))"
  "walks objs nxt \<Longrightarrow> objs s = xs @ p # ys \<Longrightarrow> distinct (objs s) \<Longrightarrow> nxt (Some p) s = Some (head ys)"
  unfolding walks_def by blast+

lemma for_each_loop_simps [simp]:
  "for_each_loop nxt body None s = Some s"
  "for_each_loop nxt body (Some p) s = Option.bind (nxt (Some p) (body p s)) (\<lambda>pos1. for_each_loop nxt body pos1 (body p s))"
  by (subst for_each_loop.simps, simp add: Let_def)+

lemma for_each_safe_loop_simps [simp]:
  "for_each_safe_loop nxt body None tmp s = Some s"
  "for_each_safe_loop nxt body (Some p) tmp s =
     Option.bind (nxt tmp (body p s)) (\<lambda>tmp1. for_each_safe_loop nxt body tmp tmp1 (body p s))"
  by (subst for_each_safe_loop.simps, simp add: Let_def)+

lemma for_each_loop_visits:
  assumes "walks objs nxt" "\<And>p s. objs (body p s) = objs s"
  shows "objs s = xs @ ys \<Longrightarrow> distinct (objs s) \<Longrightarrow> for_each_loop nxt body (head ys) s = Some (fold body ys s)"
proof (induction ys arbitrary: xs s)
  case Nil
  then show ?case by simp
next
  case (Cons p ys)
  have o: "objs (body p s) = xs @ p # ys" "distinct (objs (body p s))" using Cons.prems assms(2) by simp_all
  then have "nxt (Some p) (body p s) = Some (head ys)" by (rule walksD(2) [OF assms(1)])
  moreover have "for_each_loop nxt body (head ys) (body p s) = Some (fold body ys (body p s))"
    by (rule Cons.IH [of "body p s" "xs @ [p]"]) (use o in simp_all)
  ultimately show ?case by simp
qed

text \<open>A loop whose body leaves the list alone ends and runs the body for every element once, in order.\<close>

theorem for_each_visits:
  assumes "walks objs nxt" "\<And>p s. objs (body p s) = objs s" "distinct (objs s)"
  shows "bpf_object_for_each nxt body s = Some (fold body (objs s) s)"
proof -
  have "for_each_loop nxt body (head (objs s)) s = Some (fold body (objs s) s)"
  proof (rule for_each_loop_visits [where objs = objs and xs = "[]"])
    show "walks objs nxt" "\<And>p s. objs (body p s) = objs s" "distinct (objs s)" by (fact assms)+
  qed simp
  then show ?thesis by (simp add: bpf_object_for_each_def walksD(1) [OF assms(1)])
qed

lemma for_each_safe_loop_visits:
  assumes "walks objs nxt" "\<And>p s. objs (body p s) = objs s \<or> objs (body p s) = remove1 p (objs s)"
  shows "objs s = xs @ ys \<Longrightarrow> distinct (objs s) \<Longrightarrow>
    for_each_safe_loop nxt body (head ys) (head (tl ys)) s = Some (fold body ys s)"
proof (induction ys arbitrary: xs s)
  case Nil
  then show ?case by simp
next
  case (Cons p ys)
  have d: "distinct (objs (body p s))"
    using assms(2) [of p s] Cons.prems(2) by (auto simp: distinct_remove1)
  have "p \<notin> set xs" using Cons.prems by auto
  then have "objs (body p s) = (xs @ [p]) @ ys \<or> objs (body p s) = xs @ ys"
    using assms(2) [of p s] Cons.prems(1) by (auto simp: remove1_append)
  then obtain xs' where o: "objs (body p s) = xs' @ ys" by blast
  have rest: "for_each_safe_loop nxt body (head ys) (head (tl ys)) (body p s) = Some (fold body ys (body p s))"
    by (rule Cons.IH [OF o d])
  show ?case
  proof (cases ys)
    case Nil
    then show ?thesis by (simp add: walksD(1) [OF assms(1)])
  next
    case (Cons q zs)
    then have "nxt (Some q) (body p s) = Some (head zs)" using walksD(2) [OF assms(1) o [unfolded Cons] d] by simp
    with rest Cons show ?thesis by simp
  qed
qed

text \<open>
  The safe loop also allows its body to close the object it is at, and still visits every object
  once, in order; at the end it asks for the element after a null pointer, which is harmless.
\<close>

theorem for_each_safe_visits:
  assumes "walks objs nxt" "\<And>p s. objs (body p s) = objs s \<or> objs (body p s) = remove1 p (objs s)" "distinct (objs s)"
  shows "bpf_object_for_each_safe nxt body s = Some (fold body (objs s) s)"
proof -
  have "nxt (head (objs s)) s = Some (head (tl (objs s)))" if "objs s \<noteq> []"
    using walksD(2) [OF assms(1), of s "[]"] assms(3) that by (cases "objs s") auto
  moreover have "bpf_object_for_each_safe nxt body s = Some s" if "objs s = []"
    using that by (simp add: bpf_object_for_each_safe_def walksD(1) [OF assms(1)])
  moreover have "for_each_safe_loop nxt body (head (objs s)) (head (tl (objs s))) s = Some (fold body (objs s) s)"
  proof (rule for_each_safe_loop_visits [where objs = objs and xs = "[]"])
    show "walks objs nxt" "\<And>p s. objs (body p s) = objs s \<or> objs (body p s) = remove1 p (objs s)" "distinct (objs s)"
      by (fact assms)+
  qed simp
  ultimately show ?thesis
    by (cases "objs s = []") (simp_all add: bpf_object_for_each_safe_def walksD(1) [OF assms(1)])
qed

text \<open>A list of numbered objects; the body closes each. The plain loop then asks for the successor of a closed one.\<close>

definition list_next :: "(nat, nat list) next_fn" where
  "list_next prev s =
     (case prev of None \<Rightarrow> Some (head s)
      | Some p \<Rightarrow> if p \<in> set s then Some (head (tl (dropWhile (\<lambda>q. q \<noteq> p) s))) else None)"

lemma list_next_walks: "walks id list_next"
proof -
  have "list_next (Some p) (xs @ p # ys) = Some (head ys)" if "distinct (xs @ p # ys)" for xs p ys
  proof -
    have "dropWhile (\<lambda>q. q \<noteq> p) (xs @ p # ys) = p # ys" using that by (subst dropWhile_append2) auto
    then show ?thesis by (simp add: list_next_def)
  qed
  then show ?thesis by (auto simp: walks_def list_next_def)
qed

lemma closing_loops:
  "bpf_object_for_each_safe list_next (\<lambda>p s. remove1 p s) [1, 2, 3] = Some []"
  "bpf_object_for_each list_next (\<lambda>p s. remove1 p s) [1, 2, 3] = None"
proof -
  show "bpf_object_for_each_safe list_next (\<lambda>p s. remove1 p s) [1, 2, 3] = Some []"
    by (subst for_each_safe_visits [OF list_next_walks]) simp_all
  show "bpf_object_for_each list_next (\<lambda>p s. remove1 p s) [1, 2, 3] = None"
    by (simp add: bpf_object_for_each_def list_next_def)
qed

section \<open>The parent of a traffic control hook\<close>

definition BPF_TC_PARENT :: "u32 \<Rightarrow> u32 \<Rightarrow> u32" where
  "BPF_TC_PARENT a b = (push_bit 16 a AND 0xFFFF0000) OR (b AND 0x0000FFFF)"

text \<open>The halves keep the low 16 bits of the two numbers and nothing else.\<close>

theorem tc_parent_halves:
  "drop_bit 16 (BPF_TC_PARENT a b) = take_bit 16 a" "take_bit 16 (BPF_TC_PARENT a b) = take_bit 16 b"
proof -
  have m: "(0xFFFF0000 :: u32) = push_bit 16 (mask 16)" "(0x0000FFFF :: u32) = mask 16"
    by (simp_all add: mask_eq_exp_minus_1 push_bit_eq_mult)
  show "drop_bit 16 (BPF_TC_PARENT a b) = take_bit 16 a" "take_bit 16 (BPF_TC_PARENT a b) = take_bit 16 b"
    unfolding BPF_TC_PARENT_def m
    by (rule bit_word_eqI; auto simp: bit_simps)+
qed

end
