(* ===== verification/Gen_Tables.thy ===== *)
theory Gen_Tables
  imports Syscall_Table64 Syscall_Table32 "HOL-Library.AList" "HOL-Library.Monad_Syntax"
begin

text \<open>
  \<open>tools/gen_syscall_tables.py\<close>, which wrote the two tables: the regular expression for a line of
  strace's \<open>syscallent\<close> headers, the dictionaries and their merging, the size it reads from
  \<open>syscall_parser.h\<close>, and the text of an array. A file of strace is the list of its lines, in ASCII; an exception
  is \<open>None\<close>. Module \<open>re\<close>'s search is written out for the two expressions.
\<close>

section \<open>Matching a line\<close>

definition py_space :: "char \<Rightarrow> bool" where
  "py_space c \<longleftrightarrow> c = CHR '' '' \<or> 9 \<le> (of_char c :: nat) \<and> (of_char c :: nat) \<le> 13 \<or>
     28 \<le> (of_char c :: nat) \<and> (of_char c :: nat) \<le> 31"

definition decimal :: "char \<Rightarrow> bool" where
  "decimal c \<longleftrightarrow> 48 \<le> (of_char c :: nat) \<and> (of_char c :: nat) \<le> 57"

definition skip :: "string \<Rightarrow> string" where "skip s = dropWhile py_space s"

definition lit :: "string \<Rightarrow> string \<Rightarrow> string option" where
  "lit p s = (if take (length p) s = p then Some (drop (length p) s) else None)"

definition number :: "string \<Rightarrow> (nat \<times> string) option" where
  "number s = (if takeWhile decimal s = [] then None else Some (undigits 10 (takeWhile decimal s), dropWhile decimal s))"

text \<open>\<open>.*?"([^"]+)"\<close>: from the first quote that closes again after at least one character.\<close>

fun quoted :: "string \<Rightarrow> string option" where
  "quoted [] = None"
| "quoted (c # cs) =
     (if c = DQUOTE \<and> takeWhile (\<lambda>x. x \<noteq> DQUOTE) cs \<noteq> [] \<and> dropWhile (\<lambda>x. x \<noteq> DQUOTE) cs \<noteq> []
      then Some (takeWhile (\<lambda>x. x \<noteq> DQUOTE) cs) else quoted cs)"

definition base_nr :: "string \<Rightarrow> string" where
  "base_nr s = (case lit ''BASE_NR'' s of None \<Rightarrow> s | Some t \<Rightarrow> (case lit ''+'' (skip t) of None \<Rightarrow> s | Some u \<Rightarrow> skip u))"

definition match_line :: "string \<Rightarrow> (nat \<times> string \<times> nat) option" where
  "match_line s =
     do { s1 \<leftarrow> lit ''['' s;
          (nr, s2) \<leftarrow> number (base_nr (skip s1));
          s3 \<leftarrow> lit '']'' (skip s2);
          s4 \<leftarrow> lit ''='' (skip s3);
          s5 \<leftarrow> lit ''{'' (skip s4);
          (nargs, s6) \<leftarrow> number (skip s5);
          s7 \<leftarrow> lit '','' (skip s6);
          nm \<leftarrow> quoted s7;
          Some (nr, nm, nargs) }"

fun search_line :: "string \<Rightarrow> (nat \<times> string \<times> nat) option" where
  "search_line [] = match_line []"
| "search_line (c # cs) = (case match_line (c # cs) of None \<Rightarrow> search_line cs | Some r \<Rightarrow> Some r)"

text \<open>A dictionary, with the keys in the order of their first insertion.\<close>

type_synonym entries = "(nat \<times> string \<times> nat) list"

definition parse :: "string list \<Rightarrow> entries" where
  "parse ls = fold (\<lambda>l out. case search_line l of None \<Rightarrow> out | Some (nr, e) \<Rightarrow> AList.update nr e out) ls []"

definition dict_update :: "entries \<Rightarrow> entries \<Rightarrow> entries" where
  "dict_update d new = fold (\<lambda>(nr, e) d. AList.update nr e d) new d"

section \<open>The size of the tables\<close>

definition word_char :: "char \<Rightarrow> bool" where
  "word_char c \<longleftrightarrow> decimal c \<or> c = CHR ''_'' \<or> 65 \<le> (of_char c :: nat) \<and> (of_char c :: nat) \<le> 90 \<or>
     97 \<le> (of_char c :: nat) \<and> (of_char c :: nat) \<le> 122"

definition spaces :: "string \<Rightarrow> string option" where
  "spaces s = (if s \<noteq> [] \<and> py_space (hd s) then Some (skip s) else None)"

definition match_size :: "string \<Rightarrow> nat option" where
  "match_size l =
     do { s1 \<leftarrow> lit ''#define'' l;
          s2 \<leftarrow> spaces s1;
          s3 \<leftarrow> lit ''SYSCALL_TABLE_SIZE'' s2;
          s4 \<leftarrow> spaces s3;
          (n, s5) \<leftarrow> number s4;
          let s6 = (if take 1 s5 = ''u'' then tl s5 else s5);
          if s6 \<noteq> [] \<and> word_char (hd s6) then None else Some n }"

text \<open>The search starts at the beginning of every line of the text.\<close>

fun size_from :: "bool \<Rightarrow> string \<Rightarrow> nat option" where
  "size_from bol [] = None"
| "size_from bol (c # cs) =
     (case if bol then match_size (c # cs) else None of
        None \<Rightarrow> size_from (c = CHR 0x0A) cs
      | Some n \<Rightarrow> Some n)"

definition table_size :: "string \<Rightarrow> nat option" where "table_size header = size_from True header"

section \<open>Writing an array\<close>

definition entry_text :: "entries \<Rightarrow> nat \<Rightarrow> nat \<Rightarrow> string" where
  "entry_text entries abi_bits nr =
     (case map_of entries nr of
        Some (nm, nargs) \<Rightarrow> ''    ['' @ fmt_u nr @ ''] = { '' @ [DQUOTE] @ nm @ [DQUOTE] @ '', '' @ fmt_u nargs @ '', '' @ fmt_u abi_bits @ '', 0 },'' @ [CHR 0x0A]
      | None \<Rightarrow> ''    ['' @ fmt_u nr @ ''] = { NULL, 6, '' @ fmt_u abi_bits @ '', 0 },'' @ [CHR 0x0A])"

definition emit_array :: "string \<Rightarrow> entries \<Rightarrow> nat \<Rightarrow> nat \<Rightarrow> string option" where
  "emit_array symbol entries abi_bits cnt =
     (if list_ex (\<lambda>n. cnt \<le> n) (map fst entries) then None
      else Some (''const syscall_entry_t '' @ symbol @ ''[SYSCALL_TABLE_SIZE] = {'' @ [CHR 0x0A] @
        concat (map (entry_text entries abi_bits) [0..<cnt]) @ ''};'' @ [CHR 0x0A, CHR 0x0A]))"

definition generated_head :: string where
  "generated_head = ''/* Generated by tools/gen_syscall_tables.py. */'' @ [CHR 0x0A] @
     ''#include <stddef.h>'' @ [CHR 0x0A] @ ''#include '' @ [DQUOTE] @ ''syscall_parser.h'' @ [DQUOTE] @ [CHR 0x0A, CHR 0x0A]"

text \<open>
  \<open>main\<close> on the lines of the four headers of strace and the text of the header of this program; a dictionary
  keeps the entry of the last \<open>update\<close>.
\<close>

definition gen_tables :: "string list \<Rightarrow> string list \<Rightarrow> string list \<Rightarrow> string list \<Rightarrow> string \<Rightarrow> string option" where
  "gen_tables common_h common32_h arm64_h arm_h parser_h =
     (let common = parse common_h; common32 = parse common32_h;
          arm64 = dict_update (parse arm64_h) common;
          arm = dict_update (dict_update (parse arm_h) common32) common;
          keys = map fst arm64 @ map fst arm
      in do { cnt \<leftarrow> table_size parser_h;
              (if keys = [] \<or> fold max keys 0 + 1 \<noteq> cnt then None else Some ());
              t64 \<leftarrow> emit_array ''syscall_tables_64'' arm64 64 cnt;
              t32 \<leftarrow> emit_array ''syscall_tables_32'' arm 32 cnt;
              Some (generated_head @ t64 @ t32) })"

section \<open>What a line says\<close>

lemma decimal_digit [simp]:
  assumes "d < 10"
  shows "decimal (digit_char d)"
proof -
  have "d < 16" using assms by simp
  from less16_cases [OF this] assms show ?thesis by (elim disjE; simp add: digit_char_def decimal_def)
qed

lemma decimal_fmt_u: "list_all decimal (fmt_u n)"
proof -
  have "list_all decimal (digits 10 n)"
    by (induction n rule: less_induct) (case_tac "x < 10"; simp add: digits_small digits_big)
  then show ?thesis by (simp add: fmt_u_def)
qed

lemma fmt_u_nonempty: "fmt_u n \<noteq> []"
  by (cases "n < 10") (simp_all add: fmt_u_def digits_small digits_big)

lemma number_fmt_u:
  assumes "s = [] \<or> \<not> decimal (hd s)"
  shows "number (fmt_u n @ s) = Some (n, s)"
proof -
  have t: "takeWhile decimal s = []" "dropWhile decimal s = s" using assms by (cases s; simp)+
  have d: "\<forall>c \<in> set (fmt_u n). decimal c" using decimal_fmt_u [of n] by (simp add: list_all_iff)
  then have "takeWhile decimal (fmt_u n @ s) = fmt_u n" "dropWhile decimal (fmt_u n @ s) = s"
    using t by (simp_all add: takeWhile_append2 dropWhile_append2)
  then show ?thesis using fmt_u_nonempty [of n] by (simp add: number_def fmt_u_def undigits_digits)
qed

lemma skip_blanks: "list_all py_space w \<Longrightarrow> skip (w @ s) = skip s"
  by (induction w) (simp_all add: skip_def)

lemma skip_id: "s = [] \<or> \<not> py_space (hd s) \<Longrightarrow> skip s = s"
  by (cases s) (simp_all add: skip_def)

lemma lit_append [simp]: "lit p (p @ s) = Some s"
  by (simp add: lit_def)

lemma quoted_text:
  "DQUOTE \<notin> set mid \<Longrightarrow> nm \<noteq> [] \<Longrightarrow> DQUOTE \<notin> set nm \<Longrightarrow> quoted (mid @ DQUOTE # nm @ DQUOTE # post) = Some nm"
  by (induction mid) (auto simp: takeWhile_append dropWhile_append)

text \<open>
  A line of a \<open>syscallent\<close> header: the number in brackets, with or without \<open>BASE_NR +\<close>, the number of
  arguments, other columns without quotes, and the name; blanks anywhere between.
\<close>

definition strace_line :: "string \<Rightarrow> string \<Rightarrow> string \<Rightarrow> string \<Rightarrow> nat \<Rightarrow> string \<times> nat \<Rightarrow> string" where
  "strace_line base sp mid post nr e =
     ''['' @ sp @ base @ fmt_u nr @ sp @ '']'' @ sp @ ''='' @ sp @ ''{'' @ sp @ fmt_u (snd e) @ sp @ '','' @
     mid @ DQUOTE # fst e @ DQUOTE # post"

lemma fmt_u_head: "\<exists>c cs. fmt_u n = c # cs \<and> decimal c"
  using fmt_u_nonempty [of n] decimal_fmt_u [of n] by (cases "fmt_u n") auto

lemma decimal_no_space: "decimal c \<Longrightarrow> \<not> py_space c \<and> c \<noteq> CHR ''B'' \<and> c \<noteq> CHR ''+''"
  by (auto simp: decimal_def py_space_def)

lemma skip_fmt_u [simp]: "skip (fmt_u n @ s) = fmt_u n @ s"
  using fmt_u_head [of n] decimal_no_space by (auto simp: skip_def)

lemma base_nr_fmt_u: "base_nr (fmt_u n @ s) = fmt_u n @ s"
proof -
  obtain c cs where "fmt_u n = c # cs" "decimal c" using fmt_u_head by blast
  then show ?thesis using decimal_no_space [of c] by (simp add: base_nr_def lit_def)
qed

lemma base_nr_prefix:
  assumes "list_all py_space w" "list_all py_space w'"
  shows "base_nr (''BASE_NR'' @ w @ ''+'' @ w' @ fmt_u n @ s) = fmt_u n @ s"
proof -
  have "skip (''+'' @ w' @ fmt_u n @ s) = ''+'' @ w' @ fmt_u n @ s" by (simp add: skip_def py_space_def)
  then have "skip (w @ ''+'' @ w' @ fmt_u n @ s) = ''+'' @ w' @ fmt_u n @ s" by (simp add: skip_blanks [OF assms(1)])
  then show ?thesis unfolding base_nr_def by (simp only: lit_append option.case skip_blanks [OF assms(2)] skip_fmt_u)
qed

lemma search_line_skip: "CHR ''['' \<notin> set pre \<Longrightarrow> search_line (pre @ s) = search_line s"
  by (induction pre) (auto simp: match_line_def lit_def)

lemma not_decimal: "\<not> decimal (CHR '']'')" "\<not> decimal (CHR '','')" "py_space c \<Longrightarrow> \<not> decimal c"
  by (auto simp: decimal_def py_space_def)

lemma after_number:
  "list_all py_space sp \<Longrightarrow> \<not> decimal c \<Longrightarrow> number (fmt_u n @ sp @ c # s) = Some (n, sp @ c # s)"
  by (rule number_fmt_u) (cases sp; auto simp: not_decimal)

lemma skip_to:
  "list_all py_space sp \<Longrightarrow> \<not> py_space c \<Longrightarrow> skip (sp @ c # s) = c # s"
  by (simp add: skip_blanks skip_id)

lemma match_strace_line:
  assumes "list_all py_space sp" "base = [] \<or> (\<exists>w w'. base = ''BASE_NR'' @ w @ ''+'' @ w' \<and> list_all py_space w \<and> list_all py_space w')"
    and "DQUOTE \<notin> set mid" "nm \<noteq> []" "DQUOTE \<notin> set nm"
  shows "match_line (strace_line base sp mid post nr (nm, nargs)) = Some (nr, nm, nargs)"
proof -
  have sym: "\<not> py_space (CHR '']'')" "\<not> py_space (CHR ''='')" "\<not> py_space (CHR ''{'')" "\<not> py_space (CHR '','')"
    by (simp_all add: py_space_def)
  have base: "base_nr (skip (base @ fmt_u nr @ s)) = fmt_u nr @ s" for s
    using assms(2)
  proof (elim disjE exE conjE)
    fix w w' assume "base = ''BASE_NR'' @ w @ ''+'' @ w'" "list_all py_space w" "list_all py_space w'"
    then show ?thesis
      using base_nr_prefix [of w w' nr s] by (simp add: skip_id py_space_def)
  qed (simp add: base_nr_fmt_u)
  have one: "lit [c] (c # s) = Some s" for c s by (simp add: lit_def)
  have at: "skip (c # s) = c # s" if "\<not> py_space c" for c s using that by (simp add: skip_def)
  show ?thesis
    unfolding match_line_def strace_line_def fst_conv snd_conv append.simps
    by (simp add: one base after_number [OF assms(1)] skip_to [OF assms(1)] skip_blanks [OF assms(1)] not_decimal sym at
        quoted_text [OF assms(3-5)])
qed

section \<open>What the files say\<close>

text \<open>A line that says something about a call, after whatever comes before its bracket, and one that says nothing.\<close>

definition base_part :: "string \<Rightarrow> bool" where
  "base_part b \<longleftrightarrow> b = [] \<or> (\<exists>w w'. b = ''BASE_NR'' @ w @ ''+'' @ w' \<and> list_all py_space w \<and> list_all py_space w')"

fun tells :: "string \<Rightarrow> (nat \<times> string \<times> nat) option \<Rightarrow> bool" where
  "tells l None \<longleftrightarrow> CHR ''['' \<notin> set l"
| "tells l (Some (nr, e)) \<longleftrightarrow>
     (\<exists>pre base sp mid post. l = pre @ strace_line base sp mid post nr e \<and> CHR ''['' \<notin> set pre \<and> base_part base \<and>
        list_all py_space sp \<and> DQUOTE \<notin> set mid) \<and> fst e \<noteq> [] \<and> DQUOTE \<notin> set (fst e)"

lemma search_line_tells: "tells l r \<Longrightarrow> search_line l = r"
proof (cases r)
  case None
  assume "tells l r"
  with None have "search_line (l @ []) = search_line []" by (intro search_line_skip) simp
  then show ?thesis using None by (simp add: match_line_def lit_def)
next
  case (Some x)
  assume t: "tells l r"
  obtain nr nm nargs where x: "x = (nr, nm, nargs)" by (cases x)
  from t obtain pre base sp mid post where l: "l = pre @ strace_line base sp mid post nr (nm, nargs)"
    and p: "CHR ''['' \<notin> set pre" "base_part base" "list_all py_space sp" "DQUOTE \<notin> set mid" "nm \<noteq> []" "DQUOTE \<notin> set nm"
    unfolding Some x by auto
  let ?t = "strace_line base sp mid post nr (nm, nargs)"
  have m: "match_line ?t = Some (nr, nm, nargs)"
    using match_strace_line p(2-6) by (simp add: base_part_def)
  have "search_line ?t = Some (nr, nm, nargs)"
    using m by (cases ?t) (simp_all add: match_line_def lit_def)
  then show ?thesis unfolding l search_line_skip [OF p(1)] Some x .
qed

text \<open>The dictionary of a list of entries: of two entries for one number the later one counts.\<close>

definition says :: "(nat \<times> string \<times> nat) option list \<Rightarrow> nat \<Rightarrow> (string \<times> nat) option" where
  "says rs = map_of (rev (List.map_filter id rs))"

lemma map_of_fold_update:
  "map_of (fold (\<lambda>(nr, e) d. AList.update nr e d) new d) = map_of d ++ map_of (rev new)"
  by (induction new arbitrary: d) (auto simp: update_conv' map_add_def fun_eq_iff split: option.splits)

lemma parse_says: "list_all2 tells ls rs \<Longrightarrow> map_of (parse ls) = says rs"
proof -
  assume a: "list_all2 tells ls rs"
  have "fold (\<lambda>l out. case search_line l of None \<Rightarrow> out | Some (nr, e) \<Rightarrow> AList.update nr e out) ls d =
      fold (\<lambda>(nr, e) d. AList.update nr e d) (List.map_filter id rs) d" for d
    using a by (induction arbitrary: d rule: list_all2_induct) (auto simp: search_line_tells map_filter_simps split: option.splits)
  then show ?thesis by (simp add: parse_def says_def map_of_fold_update)
qed

lemma distinct_update: "distinct (map fst d) \<Longrightarrow> distinct (map fst (fold (\<lambda>(nr, e) d. AList.update nr e d) new d))"
  by (induction new arbitrary: d) (auto simp: distinct_update)

lemma distinct_parse: "distinct (map fst (parse ls))"
proof -
  have "distinct (map fst d) \<Longrightarrow> distinct (map fst (fold (\<lambda>l out. case search_line l of None \<Rightarrow> out | Some (nr, e) \<Rightarrow> AList.update nr e out) ls d))" for d
    by (induction ls arbitrary: d) (auto simp: AList.distinct_update split: option.splits)
  then show ?thesis by (simp add: parse_def)
qed

lemma map_of_dict_update:
  assumes "distinct (map fst new)"
  shows "map_of (dict_update d new) = map_of d ++ map_of new"
proof -
  have "distinct (map fst (rev new))" using assms by (simp add: rev_map [symmetric])
  then have "map_of (rev new) = map_of new" using assms by (simp add: map_of_inject_set)
  then show ?thesis by (simp add: dict_update_def map_of_fold_update)
qed

section \<open>The generated tables\<close>

text \<open>The text of a table in C: one initialiser for every number.\<close>

definition init_text :: "nat \<Rightarrow> syscall_entry_t \<Rightarrow> string" where
  "init_text nr e = ''    ['' @ fmt_u nr @ ''] = { '' @
     (case ent_name e of None \<Rightarrow> ''NULL'' | Some nm \<Rightarrow> [DQUOTE] @ nm @ [DQUOTE]) @ '', '' @ fmt_u (unat (ent_nargs e)) @
     '', '' @ fmt_u (unat (ent_abi_bits e)) @ '', '' @ fmt_u (unat (ent_reserved e)) @ '' },'' @ [CHR 0x0A]"

definition table_text :: "string \<Rightarrow> syscall_entry_t list \<Rightarrow> string" where
  "table_text symbol t = ''const syscall_entry_t '' @ symbol @ ''[SYSCALL_TABLE_SIZE] = {'' @ [CHR 0x0A] @
     concat (map (\<lambda>nr. init_text nr (t ! nr)) [0..<length t]) @ ''};'' @ [CHR 0x0A, CHR 0x0A]"

text \<open>What a table says of a number, and the tables the script can write: an unassigned number has six arguments.\<close>

definition table_dict :: "syscall_entry_t list \<Rightarrow> nat \<Rightarrow> (string \<times> nat) option" where
  "table_dict t nr = (if nr < length t then map_option (\<lambda>nm. (nm, unat (ent_nargs (t ! nr)))) (ent_name (t ! nr)) else None)"

definition writable :: "u8 \<Rightarrow> syscall_entry_t \<Rightarrow> bool" where
  "writable bits e \<longleftrightarrow> ent_abi_bits e = bits \<and> ent_reserved e = 0 \<and> (ent_name e = None \<longrightarrow> ent_nargs e = 6)"

lemma writable_simps [simp]: "writable b (ent n k b)" "writable b (unassigned b)"
  by (simp_all add: writable_def ent_def unassigned_def)

lemma entry_text_init:
  assumes "map_of d nr = table_dict t nr" "nr < length t" "writable (of_nat bits) (t ! nr)" "bits < 256"
  shows "entry_text d bits nr = init_text nr (t ! nr)"
proof -
  have b: "unat (ent_abi_bits (t ! nr)) = bits" "unat (ent_reserved (t ! nr)) = 0"
    using assms(3, 4) by (simp_all add: writable_def unat_of_nat)
  have z: "fmt_u 0 = ''0''" "fmt_u 6 = ''6''" by (simp_all add: fmt_u_def digits_small digit_char_def)
  show ?thesis
    using assms(1-3) b by (cases "ent_name (t ! nr)") (simp_all add: entry_text_def init_text_def table_dict_def writable_def z)
qed

lemma emit_array_table:
  assumes d: "map_of d = table_dict t" and w: "list_all (writable (of_nat bits)) t" "bits < 256"
  shows "emit_array symbol d bits (length t) = Some (table_text symbol t)"
proof -
  have "\<not> list_ex (\<lambda>n. length t \<le> n) (map fst d)"
  proof
    assume "list_ex (\<lambda>n. length t \<le> n) (map fst d)"
    then obtain n where "length t \<le> n" "n \<in> dom (map_of d)" by (auto simp: list_ex_iff dom_map_of_conv_image_fst)
    then show False by (auto simp: d table_dict_def)
  qed
  moreover have "entry_text d bits nr = init_text nr (t ! nr)" if "nr < length t" for nr
    using that w by (intro entry_text_init) (simp_all add: d list_all_length)
  then have "map (entry_text d bits) [0..<length t] = map (\<lambda>nr. init_text nr (t ! nr)) [0..<length t]" by simp
  ultimately show ?thesis unfolding emit_array_def table_text_def by (simp only: if_False)
qed

lemma tables_writable: "list_all (writable 64) syscall_tables_64" "list_all (writable 32) syscall_tables_32"
  by (simp_all add: syscall_tables_64_def syscall_tables_64_parts syscall_tables_32_def syscall_tables_32_parts)

lemma fold_max_at: "(m::nat) \<in> set ks \<Longrightarrow> \<forall>k \<in> set ks. k \<le> m \<Longrightarrow> b \<le> m \<Longrightarrow> fold max ks b = m"
proof (induction ks arbitrary: b)
  case (Cons k ks)
  show ?case
  proof (cases "m \<in> set ks")
    case False
    then have "m = k" using Cons.prems by simp
    moreover have "fold max ks k = k" if "\<forall>x \<in> set ks. x \<le> k" for k :: nat and ks
      using that by (induction ks) auto
    ultimately show ?thesis using Cons.prems by (simp add: max_absorb1)
  qed (use Cons in simp)
qed simp

lemma last_number: "table_dict syscall_tables_64 472 \<noteq> None"
  by (simp add: table_dict_def syscall_tables_64_def syscall_tables_64_parts)

text \<open>
  Claim C34. The script writes the tables as they are checked in. Take strace's four headers, in which
  every line says something of one number or nothing (blanks anywhere, with or without BASE_NR, other
  columns in between, later lines overriding earlier ones), and a header of this program with its table
  size. If the 64-bit entries, overridden by the common ones, and the 32-bit entries, overridden by the
  common 32-bit ones and those by the common ones, are what the two tables say, the script ends without an
  exception, and the file it writes is its head and the two tables as C text, number by number, with six
  arguments for the numbers nobody assigned.
\<close>

theorem tables_generated:
  assumes files: "list_all2 tells common_h common" "list_all2 tells common32_h common32"
      "list_all2 tells arm64_h arm64" "list_all2 tells arm_h arm"
    and size: "table_size parser_h = Some SYSCALL_TABLE_SIZE"
    and merged: "says arm64 ++ says common = table_dict syscall_tables_64"
      "says arm ++ says common32 ++ says common = table_dict syscall_tables_32"
  shows "gen_tables common_h common32_h arm64_h arm_h parser_h =
    Some (generated_head @ table_text ''syscall_tables_64'' syscall_tables_64 @ table_text ''syscall_tables_32'' syscall_tables_32)"
proof -
  let ?d64 = "dict_update (parse arm64_h) (parse common_h)"
  let ?d32 = "dict_update (dict_update (parse arm_h) (parse common32_h)) (parse common_h)"
  have d: "map_of ?d64 = table_dict syscall_tables_64" "map_of ?d32 = table_dict syscall_tables_32"
    using files merged by (simp_all add: map_of_dict_update distinct_parse parse_says)
  have e: "emit_array ''syscall_tables_64'' ?d64 64 SYSCALL_TABLE_SIZE = Some (table_text ''syscall_tables_64'' syscall_tables_64)"
    "emit_array ''syscall_tables_32'' ?d32 32 SYSCALL_TABLE_SIZE = Some (table_text ''syscall_tables_32'' syscall_tables_32)"
    using emit_array_table [OF d(1), of 64] emit_array_table [OF d(2), of 32] tables_writable
    by (simp_all add: syscall_tables_64_length syscall_tables_32_length)
  let ?keys = "map fst ?d64 @ map fst ?d32"
  have k: "set ?keys = dom (map_of ?d64) \<union> dom (map_of ?d32)" by (simp add: dom_map_of_conv_image_fst)
  have "472 \<in> set ?keys" using last_number unfolding k d by auto
  moreover have "\<forall>x \<in> set ?keys. x \<le> 472"
    unfolding k d by (auto simp: table_dict_def syscall_tables_64_length syscall_tables_32_length SYSCALL_TABLE_SIZE_def split: if_splits)
  ultimately have "fold max ?keys 0 = 472" "?keys \<noteq> []" using fold_max_at [of 472 ?keys 0] by (simp, force)
  note m = this
  show ?thesis
    unfolding gen_tables_def Let_def using m by (simp add: size e [unfolded SYSCALL_TABLE_SIZE_def] SYSCALL_TABLE_SIZE_def)
qed

text \<open>Headers as strace could have them: one line per number of a table, a blank one for a number nobody assigned.\<close>

definition header_lines :: "string \<Rightarrow> syscall_entry_t list \<Rightarrow> string list" where
  "header_lines base t = map (\<lambda>nr. case table_dict t nr of None \<Rightarrow> '' '' | Some e \<Rightarrow> strace_line base '' '' '' TF, SEN(x), '' ''}'' nr e) [0..<length t]"

definition header_entries :: "syscall_entry_t list \<Rightarrow> (nat \<times> string \<times> nat) option list" where
  "header_entries t = map (\<lambda>nr. map_option (Pair nr) (table_dict t nr)) [0..<length t]"

definition plain_name :: "syscall_entry_t \<Rightarrow> bool" where
  "plain_name e \<longleftrightarrow> (case ent_name e of None \<Rightarrow> True | Some n \<Rightarrow> n \<noteq> [] \<and> DQUOTE \<notin> set n)"

lemma header_lines_tell:
  assumes "list_all plain_name t" "base_part base"
  shows "list_all2 tells (header_lines base t) (header_entries t)"
proof (rule list_all2_all_nthI)
  fix nr assume "nr < length (header_lines base t)"
  then have n: "nr < length t" by (simp add: header_lines_def)
  with assms(1) have p: "plain_name (t ! nr)" by (simp add: list_all_length)
  show "tells (header_lines base t ! nr) (header_entries t ! nr)"
  proof (cases "table_dict t nr")
    case None
    then show ?thesis using n by (simp add: header_lines_def header_entries_def)
  next
    case (Some e)
    then have e: "fst e \<noteq> []" "DQUOTE \<notin> set (fst e)" using n p by (auto simp: table_dict_def plain_name_def)
    have "\<exists>pre b sp mid post. strace_line base '' '' '' TF, SEN(x), '' ''}'' nr e = pre @ strace_line b sp mid post nr e \<and>
        CHR ''['' \<notin> set pre \<and> base_part b \<and> list_all py_space sp \<and> DQUOTE \<notin> set mid"
      by (rule exI [of _ "[]"], rule exI [of _ base], rule exI [of _ "'' ''"], rule exI [of _ "'' TF, SEN(x), ''"], rule exI [of _ "''}''"])
        (use assms(2) in \<open>simp add: py_space_def\<close>)
    then have "tells (strace_line base '' '' '' TF, SEN(x), '' ''}'' nr e) (Some (nr, e))"
      unfolding tells.simps using e by blast
    then show ?thesis using n Some by (simp add: header_lines_def header_entries_def del: tells.simps)
  qed
qed (simp add: header_lines_def header_entries_def)

lemma says_header: "says (header_entries t) = table_dict t"
proof -
  have m: "List.map_filter g (xs @ ys) = List.map_filter g xs @ List.map_filter g ys"
    for g :: "(nat \<times> string \<times> nat) option \<Rightarrow> (nat \<times> string \<times> nat) option" and xs ys
    by (simp add: map_filter_def)
  have "map_of (rev (List.map_filter id (map (\<lambda>nr. map_option (Pair nr) (f nr)) [0..<n]))) k = (if k < n then f k else None)"
    for f :: "nat \<Rightarrow> (string \<times> nat) option" and n k
  proof (induction n)
    case (Suc n)
    then show ?case by (cases "f n") (simp_all add: m map_filter_simps less_Suc_eq)
  qed (simp add: map_filter_simps)
  then show ?thesis by (auto simp: says_def header_entries_def table_dict_def)
qed

lemma tables_plain: "list_all plain_name syscall_tables_64" "list_all plain_name syscall_tables_32"
  by (simp_all add: syscall_tables_64_def syscall_tables_64_parts syscall_tables_32_def syscall_tables_32_parts plain_name_def)

definition size_header :: string where
  "size_header = ''#define SYSCALL_MAX_ARGS 6u'' @ [CHR 0x0A] @
     ''#define SYSCALL_TABLE_SIZE 473u /* Known syscall numbers 0..472; independent of filter bitmap. */'' @ [CHR 0x0A]"

lemma tables_generated_witness:
  "gen_tables [''/* common to all */''] [] (header_lines [] syscall_tables_64) (header_lines ''BASE_NR + '' syscall_tables_32) size_header =
     Some (generated_head @ table_text ''syscall_tables_64'' syscall_tables_64 @ table_text ''syscall_tables_32'' syscall_tables_32)"
proof (rule tables_generated)
  have b: "base_part ''BASE_NR + ''" unfolding base_part_def
    by (rule disjI2, rule exI [of _ "'' ''"], rule exI [of _ "'' ''"]) (simp add: py_space_def)
  show "list_all2 tells [''/* common to all */''] [None]" "list_all2 tells [] []" by simp_all
  show "list_all2 tells (header_lines [] syscall_tables_64) (header_entries syscall_tables_64)"
    "list_all2 tells (header_lines ''BASE_NR + '' syscall_tables_32) (header_entries syscall_tables_32)"
    by (simp_all add: header_lines_tell tables_plain b base_part_def [of "[]"])
  show "table_size size_header = Some SYSCALL_TABLE_SIZE" by code_simp
  have "says [None] = Map.empty" "says [] = Map.empty" by (simp_all add: says_def map_filter_simps)
  then show "says (header_entries syscall_tables_64) ++ says [None] = table_dict syscall_tables_64"
    "says (header_entries syscall_tables_32) ++ says [] ++ says [None] = table_dict syscall_tables_32"
    by (simp_all add: says_header)
qed

end
