(* ===== verification/Spec2Isabelle.thy ===== *)
theory Spec2Isabelle
  imports Call_Counts Etrace_Argv Bpf_Smp Bpf_Endian Core_Read Pt_Regs Bpf_Helpers Xsk_Ring Skel_Loader Btf_Types Libbpf_Macros Gen_Tables
begin

text \<open>
  etrace traces the system calls of a process or of all threads with a command name on ARM64 and
  32-bit ARM Linux. A BPF program (\<open>src/mini_etrace.bpf.c\<close>) runs at the entry and the exit of every
  system call, filters by the configuration user space wrote into its maps, and sends an event per
  finished call. User space (\<open>src/mini_etrace.c\<close>) reads the command line, writes the configuration and
  a whitelist of system call numbers into the maps, attaches the two probes, polls for events and
  prints each as a line, with the user stack when asked. The line comes from the decoder
  (\<open>src/sysdecode.c\<close>), which finds the call's name in a generated table
  (\<open>src/syscall_tables_generated.c\<close>), reads the memory of the traced process, and formats every argument
  by a table of call descriptions.

  \<^bold>\<open>The decoder.\<close> \<open>Out_Buffer\<close> is \<open>struct out\<close> and its printing: a destination with a capacity, and a
  length that counts on past it. The locale \<open>text_sink\<close> is the contract every printing routine is
  proved against (what is appended does not depend on the buffer), interpreted on \<open>out_printf\<close>.
  \<open>Sd_Values\<close> and \<open>Sd_Memory\<close> hold the ABI rules (\<open>sd_normalize_retval\<close>, \<open>arm_eabi_u64\<close>, \<open>ptr_value\<close>) and
  \<open>read_mem\<close>; the locale \<open>mem_reader\<close> is the contract of the memory reader, interpreted on
  \<open>syscall_process_vm_reader\<close>. \<open>Sd_Strings\<close>, \<open>Sd_Flags\<close>, \<open>Sd_Structs\<close>, \<open>Sd_Calls\<close> and \<open>Sd_Special\<close> are the
  \<open>print_\<dots>\<close> functions in the order of the file, each with its text specification (\<open>\<dots>_text\<close>) and the
  lemma that the function renders that text. \<open>Sd_Decode\<close> is \<open>decode_with_table\<close> and
  \<open>syscall_parse_event\<close>: the line is the specification \<open>line_text\<close>, printable, cut by \<open>snprintf\<close> rules, and
  the error returns are characterised.

  \<^bold>\<open>The tables.\<close> \<open>Syscall_Entry\<close> is the entry and the lookup, \<open>Syscall_Table64\<close> and \<open>Syscall_Table32\<close> are the
  two generated arrays entry by entry, each with the proof of the contract \<open>table_ok\<close>. \<open>Call_Counts\<close>
  compares them with the decoder's own table of calls (\<open>argument_counts_agree\<close>). \<open>Gen_Tables\<close> is the script
  that writes the arrays (\<open>tools/gen_syscall_tables.py\<close>): its parser of strace's headers, the merging of the
  dictionaries, and its output; \<open>tables_generated\<close> says from which headers it writes these very tables.

  \<^bold>\<open>The BPF program.\<close> \<open>Trace_Event\<close> is the header shared with user space. \<open>Bpf_Maps\<close> has the map
  declarations and the interface to the kernel's maps: the locales \<open>bpf_array\<close> and \<open>bpf_hash\<close> with the
  laws \<open>bpf(2)\<close> documents, interpreted on an array and on an association list with the declared number
  of entries. \<open>Bpf_Trace\<close> has the two handlers, their step relation on histories of any length and
  interleaving, the abstract tracer they refine, and what reaches user space. \<open>Bpf_Smp\<close> splits the handlers
  into their accesses to the maps and interleaves them over any number of CPUs: every run has the effect
  of a sequential history (\<open>smp_serializable\<close>), so what \<open>Bpf_Trace\<close> proves holds of real concurrency too.

  \<^bold>\<open>User space.\<close> \<open>Syscall_Filter\<close> is the whitelist (locale \<open>whitelist\<close>), \<open>Etrace_Cli\<close> the option loop,
  \<open>Etrace_Argv\<close> the words of the command line before it (\<open>getopt\<close>, with \<open>POSIXLY_CORRECT\<close> as a parameter),
  \<open>Etrace_Output\<close> what is printed for an event and a stack, \<open>Etrace_Main\<close> the rest of \<open>main\<close>: its steps as
  functions on a run (what is held, what was written into the maps, what was printed, the actions in
  order), the poll loop with its callbacks and signals, the cleanup and the exit status. The theorem
  \<open>etrace_end_to_end\<close> below composes all of them on the generated tables, from the words of the command
  line: every event sent was asked for and is printed as its line, with its stack when stacks were asked for; \<open>etrace_concurrent_end_to_end\<close> says the same of handlers interleaved over the
  CPUs, and \<open>etrace_reports_selected\<close> is the converse, that no finished call the command line selects is
  missing from its ring, nor from the output when libbpf delivers it. What libbpf takes from the rings to
  the callbacks is a parameter; \<open>main_prints_delivered\<close> says what becomes of it.

  \<^bold>\<open>Bundled headers.\<close> The repository carries the headers of libbpf under \<open>aarch64-elib/include\<close>; those with
  code in them are modelled as well: \<open>Xsk_Ring\<close> (\<open>bpf/xsk.h\<close>, the wrapping ring against an unbounded
  queue), \<open>Bpf_Endian\<close> (\<open>bpf/bpf_endian.h\<close>), \<open>Pt_Regs\<close> (\<open>bpf/bpf_tracing.h\<close>: registers, argument lists
  and the functions the program macros define), \<open>Bpf_Helpers\<close> (\<open>bpf/bpf_helpers.h\<close>), \<open>Core_Read\<close>
  (\<open>bpf/bpf_core_read.h\<close>: the macros as functions from their argument lists to the calls they expand to,
  and what these calls do on a memory), \<open>Skel_Loader\<close> (\<open>bpf/skel_internal.h\<close>), \<open>Btf_Types\<close>
  (\<open>bpf/btf.h\<close>) and \<open>Libbpf_Macros\<close> (the loops and the options macro of \<open>bpf/libbpf.h\<close> and
  \<open>bpf/libbpf_common.h\<close>).

  \<^bold>\<open>Conventions.\<close> Machine integers are words of their width; C strings are lists of
  characters without NUL, character arrays are lists with it. Everything the operating system answers is a
  parameter: the record \<open>platform\<close> (\<open>malloc\<close>, \<open>strerror\<close>,
  \<open>inet_ntop\<close>), the memory reader, the maps, the record \<open>host\<close> (results of libbpf
  and of the polls), the symbolizer. Loops are recursive functions with a measure where the recursion is not
  structural (\<open>cstring_loop\<close>, \<open>filter_loop\<close>, \<open>getopt\<close>); no fuel is used; the loops of
  \<open>Libbpf_Macros\<close>, which can fault, are partial functions with \<open>None\<close> as the fault.
  The poll loop runs on a finite list of answers and yields \<open>None\<close> when the program is still
  running after the last; \<open>poll_loop_runs\<close> says exactly when it ends.

  \<^bold>\<open>Properties.\<close> The numbered claims stand before their theorems in the theories. Theorems
  without a number are further facts of a component; some record faults of the code:
  \<open>uninitialised_symbols\<close> (the stack of process 0), \<open>interrupted_run_fails\<close> (the
  exit status after a signal), \<open>stale_entry_reported\<close> (a call that never returned) and
  \<open>old_mmap_six_arguments\<close>.

  \<^bold>\<open>Not modelled.\<close> The kernel's side of the tracepoints, the verifier and libbpf itself; the symbolizer; the
  memory barriers of the ring (a barrier and its access are one step); a single access to a map that is
  itself interrupted (the kernel makes it atomic); the buffering of \<open>stdout\<close> (both streams are one text in program order); the library
  declarations of the bundled headers (\<open>libbpf.h\<close>, \<open>bpf.h\<close>, \<open>bpf_helper_defs.h\<close>, \<open>zlib.h\<close>, \<open>zconf.h\<close>,
  \<open>libelf.h\<close>, \<open>gelf.h\<close>, most of \<open>blazesym.h\<close>), which hold no code of the program; reading and writing the files of
  the table generator (they are lists of lines); the Makefile and the examples.
\<close>

section \<open>The two system call tables\<close>

abbreviation syscall_tables :: "syscall_entry_t list \<times> syscall_entry_t list" where
  "syscall_tables \<equiv> (syscall_tables_32, syscall_tables_64)"

lemma table_width: "table_ok bits t \<Longrightarrow> bits = 32 \<or> bits = 64 \<Longrightarrow> table_abi_bits (Some t) = ucast bits"
  by (cases t) (auto simp: table_ok_def entry_ok_def table_abi_bits_def SYSCALL_TABLE_SIZE_def)

lemma lookup_name_number:
  assumes "table_ok bits t" "n < SYSCALL_TABLE_SIZE"
  shows "(\<exists>e. syscall_table_lookup (word_of_nat n) (Some t) = Some e \<and> ent_name e = Some nm) \<longleftrightarrow> syscall_number nm t = int n"
proof -
  have n: "n < 473" using assms(2) by (simp add: SYSCALL_TABLE_SIZE_def)
  then have u: "unat (word_of_nat n :: s32) = n" by (simp add: unat_word_of_nat32)
  then have "sint (word_of_nat n :: s32) = int n" using n by (simp add: sint_32)
  then show ?thesis
    using assms(2) u syscall_number_ok(1) [OF assms(1), of nm n] by (auto simp: syscall_table_lookup_def split: option.split)
qed

text \<open>
  Claim C33. In both generated tables every number has at most one name and every name exactly one
  number, so looking a number up and searching its name are inverse to each other; the entries are of
  the table's own width, with at most six arguments.
\<close>

theorem tables_names_numbers:
  assumes "(t, bits) = (syscall_tables_32, 32) \<or> (t, bits) = (syscall_tables_64, 64)" "n < SYSCALL_TABLE_SIZE"
  shows "(\<exists>e. syscall_table_lookup (word_of_nat n) (Some t) = Some e \<and> ent_name e = Some nm) = (syscall_number nm t = int n) \<and>
    table_abi_bits (Some t) = ucast bits \<and> ent_abi_bits (t ! n) = bits \<and> ent_nargs (t ! n) \<le> 6"
proof -
  have ok: "table_ok bits t" "bits = 32 \<or> bits = 64"
    using assms(1) syscall_tables_32_ok syscall_tables_64_ok by auto
  moreover have "entry_ok bits (t ! n)" using ok(1) assms(2) by (simp add: table_ok_def list_all_length)
  ultimately show ?thesis
    using lookup_name_number [OF ok(1) assms(2), of nm] table_width [OF ok] by (simp add: entry_ok_def)
qed

lemma tables_names_numbers_witness:
  "(\<exists>e. syscall_table_lookup (word_of_nat 63) (Some syscall_tables_64) = Some e \<and> ent_name e = Some ''read'') =
     (syscall_number ''read'' syscall_tables_64 = int 63) \<and> table_abi_bits (Some syscall_tables_64) = 64"
  using tables_names_numbers [of syscall_tables_64 64 63 "''read''"] by (simp add: SYSCALL_TABLE_SIZE_def)

section \<open>From the command line to the line printed\<close>

text \<open>What \<open>main\<close> left in the maps when it attached the entry probe, for the calls of one task.\<close>

definition selected :: "cli \<Rightarrow> tp_env \<Rightarrow> sys_enter_ctx \<Rightarrow> bool" where
  "selected st env ctx \<longleftrightarrow>
     (case tp_comm env of None \<Rightarrow> False
      | Some comm \<Rightarrow>
          (filter_type (cli_config st) = FILTER_PID \<longrightarrow> env_pid env = target_pid (cli_config st)) \<and>
          (filter_type (cli_config st) = FILTER_COMM \<longrightarrow> comm_equal comm (target_comm (cli_config st))) \<and>
          (cli_filter st \<noteq> None \<longrightarrow> asked_for syscall_tables st (ucast (en_id ctx))))"

lemma run_whitelist:
  assumes "etrace_main P kernel_maps h syscall_tables (replicate 8 0) prog oas rest = Exits rc r"
    and "Acquire Link_enter \<in> set (r_log r)" "parse_command_line prog oas rest = (Inr st, ts)"
  shows "syscall_allowed kernel_maps (r_bitmap r) nr = asked_for syscall_tables st nr"
    and "wanted kernel_maps (cli_config st) (r_bitmap r) env ctx = selected st env ctx"
proof -
  have len: "length (replicate 8 0 :: u64 list) = SYSCALL_BITMAP_WORDS" by (simp add: header_consts)
  have none: "\<forall>n < MAX_SYSCALLS. \<not> bitmap_has kernel_maps (replicate 8 0) n" by simp
  have tables: "table_ok 32 (fst syscall_tables)" "table_ok 64 (snd syscall_tables)"
    unfolding fst_conv snd_conv by (rule syscall_tables_32_ok syscall_tables_64_ok)+
  obtain st' ts' where st': "parse_command_line prog oas rest = (Inr st', ts')"
      "\<forall>nr. syscall_allowed kernel_maps (r_bitmap r) nr = asked_for syscall_tables st' nr"
    using maps_as_asked [OF wl.whitelist_axioms len none tables assms(1,2)] by blast
  then have allowed: "\<forall>nr. syscall_allowed kernel_maps (r_bitmap r) nr = asked_for syscall_tables st nr"
    using assms(3) by simp
  then show "syscall_allowed kernel_maps (r_bitmap r) nr = asked_for syscall_tables st nr" by blast
  have "(syscall_filter_enabled (cli_config st) \<noteq> 0) = (cli_filter st \<noteq> None)"
    using accepted_ok [OF assms(3)] by (simp add: cli_ok_def)
  then show "wanted kernel_maps (cli_config st) (r_bitmap r) env ctx = selected st env ctx"
    using allowed by (simp add: wanted_def selected_def cong: option.case_cong)
qed

text \<open>The line specified for an event under the options of the command line, and the whole text of an event.\<close>

definition specified_line :: "platform \<Rightarrow> host \<Rightarrow> cli \<Rightarrow> syscall_event \<Rightarrow> string" where
  "specified_line P h st ev =
     line_text P (main_parser (h_readv h)) (event_of (if cli_enable_32 st then 32 else 64) ev)
       (Some (if cli_enable_32 st then syscall_tables_32 else syscall_tables_64))"

definition specified_text :: "platform \<Rightarrow> host \<Rightarrow> cli \<Rightarrow> syscall_event \<Rightarrow> string" where
  "specified_text P h st ev = take 1023 (specified_line P h st ev) @ NEWLINE @
     (if print_stack_enabled (cli_config st) \<noteq> 0 then event_stack_text (h_symbolize h) (h_uninit h) ev else [])"

lemma event_shown:
  assumes "platform_clean P" "0 \<le> sint (se_syscall_id ev)"
  shows "show_event P h syscall_tables st ev EVENT_SIZE = specified_text P h st ev \<and> clean (take 1023 (specified_line P h st ev))"
proof -
  let ?bits = "if cli_enable_32 st then 32 else 64" and ?t = "if cli_enable_32 st then syscall_tables_32 else syscall_tables_64"
  have t: "table_ok ?bits ?t" using syscall_tables_32_ok syscall_tables_64_ok by simp
  then have w: "table_abi_bits (Some ?t) = ?bits" using table_width [OF t] by simp
  with assms(2) have "parse_accepts ev ?t" by (simp add: parse_accepts_def)
  from handle_event_text [OF assms(1) t _ this order_refl, of "cli_enable_32 st" syscall_tables "main_parser (h_readv h)"
      "h_symbolize h" "h_uninit h" "cli_config st"]
  show ?thesis using w by (auto simp: show_event_def specified_line_def specified_text_def)
qed

lemma asked_for_listed: "cli_filter st \<noteq> None \<Longrightarrow> asked_for syscall_tables st nr \<Longrightarrow> 0 \<le> sint nr"
  by (auto simp: asked_for_def syscall_table_lookup_def split: if_splits)

lemma event_in_run:
  assumes "etrace_main P kernel_maps h syscall_tables (replicate 8 0) prog oas rest = Exits rc r"
    and "Acquire Link_enter \<in> set (r_log r)" "parse_command_line prog oas rest = (Inr st, ts)"
    and "event_from kernel_maps (cli_config st) (r_bitmap r) cs ev" "platform_clean P" "cli_filter st \<noteq> None"
  shows "asked_for syscall_tables st (se_syscall_id ev) \<and>
    (filter_type (cli_config st) = FILTER_PID \<longrightarrow> se_pid ev = target_pid (cli_config st)) \<and>
    show_event P h syscall_tables st ev EVENT_SIZE = specified_text P h st ev \<and> clean (take 1023 (specified_line P h st ev))"
proof -
  have "syscall_filter_enabled (cli_config st) \<noteq> 0"
    using accepted_ok [OF assms(3)] assms(6) by (auto simp: cli_ok_def)
  then have "asked_for syscall_tables st (se_syscall_id ev)"
      "filter_type (cli_config st) = FILTER_PID \<longrightarrow> se_pid ev = target_pid (cli_config st)"
    using event_from_filters [OF assms(4)] run_whitelist(1) [OF assms(1-3), of "se_syscall_id ev"] by simp_all
  moreover from this(1) have "0 \<le> sint (se_syscall_id ev)" by (rule asked_for_listed [OF assms(6)])
  ultimately show ?thesis using event_shown [OF assms(5), of ev h st] by blast
qed

lemma attached_main:
  assumes "etrace_argv P ops h tables bm posix prog ws = Exits rc r" "getopt posix prog ws = (os, rest)"
    and "Acquire Link_enter \<in> set (r_log r)"
  shows "etrace_main P ops h tables bm prog (options_of os) rest = Exits rc r"
proof -
  have "r_log r \<noteq> []" using assms(3) by auto
  then show ?thesis by (rule argv_main [OF assms(1,2)])
qed



lemma delivered_printed:
  assumes "etrace_main P ops h tables bm prog oas rest = Exits rc r"
    and "parse_command_line prog oas rest = (Inr st, ts)" "Poll_loop \<in> set (r_log r)" "Sample ev n \<in> set (delivered h)"
  shows "sublist (show_event P h tables st ev n) (r_text r)"
proof -
  obtain xs ys where d: "delivered h = xs @ Sample ev n # ys" using split_list [OF assms(4)] by blast
  obtain ls where "r_text r = concat ts @ lines_text ls @ banner (cli_config st) @
      concat (map (sample_text (show_event P h tables st)) (delivered h)) @ poll_failure h"
    using run_text [OF assms(1-3)] by blast
  then have "\<exists>before after. r_text r = before @ show_event P h tables st ev n @ after"
    unfolding d by (intro exI [of _ "concat ts @ lines_text ls @ banner (cli_config st) @
        concat (map (sample_text (show_event P h tables st)) xs)"] exI) (simp add: sample_text_def)
  then show ?thesis by (auto simp: sublist_def)
qed


text \<open>The run of \<open>etrace -p7 -e read\<close> on a history with one call of \<open>read\<close>.\<close>

definition read_cli :: cli where
  "read_cli = cli_init\<lparr>cli_config := (cli_config cli_init)\<lparr>filter_type := FILTER_PID, target_pid := 7,
       syscall_filter_enabled := FILTER_SYS\<rparr>, cli_have_pid := True, cli_filter := Some ''read''\<rparr>"

definition read_words :: "string list" where "read_words = [''-p7'', ''-e'', ''read'']"

lemma read_options: "getopt False ''etrace'' read_words = ([Opt (CHR ''p'') ''7'', Opt (CHR ''e'') ''read''], [])"
  by (simp add: read_words_def opt_takes_def optstring_def apfst_def)

lemma read_command_line:
  "parse_command_line ''etrace'' (options_of [Opt (CHR ''p'') ''7'', Opt (CHR ''e'') ''read'']) [] = (Inr read_cli, [])"
proof -
  have "strtol10 ''7'' = (7, False, [])"
    by (simp add: strtol10_def is_space_def is_digit_def undigits_def digit_val_def LONG_MAX_def LONG_MIN_def Let_def)
  then show ?thesis by (simp add: parse_command_line_def cli_option_def read_cli_def cli_init_def)
qed

lemma read_entry: "ent_name (syscall_tables_64 ! 63) = Some ''read''"
  by (simp add: syscall_tables_64_def syscall_tables_64_part1_def nth_append)

lemma read_asked: "asked_for syscall_tables read_cli 63"
proof -
  have "listed_names ''read'' = [''read'']"
    by (simp add: listed_names_def fields_no_comma trim_id is_blank_def COMMA_def)
  then show ?thesis
    using read_entry by (simp add: asked_for_def read_cli_def cli_init_def syscall_table_lookup_def SYSCALL_TABLE_SIZE_def)
qed

lemma read_run:
  "\<exists>r. etrace_argv demo_platform kernel_maps (demo_host (event_polls ev)) syscall_tables (replicate 8 0) False ''etrace'' read_words =
      Exits 1 r \<and> Acquire Link_enter \<in> set (r_log r) \<and> Poll_loop \<in> set (r_log r)"
proof -
  have names: "listed_names ''read'' = [''read'']"
    by (simp add: listed_names_def fields_no_comma trim_id is_blank_def COMMA_def)
  have "syscall_tables_64 ! 63 \<in> set syscall_tables_64"
    using syscall_tables_64_length by (simp add: SYSCALL_TABLE_SIZE_def)
  with read_entry have mem: "''read'' \<in> set (table_names syscall_tables_64)" unfolding set_table_names by blast
  obtain bm ls where "filter_loop demo_platform kernel_maps 1 syscall_tables_64 (replicate 8 0) [] 0 ''read'' = (0, bm, ls)"
    using wl.filter_loop_spec [OF syscall_tables_64_ok, of "replicate 8 0" demo_platform 1 "[]" 0 "''read''"] mem names
    by (auto simp: header_consts)
  then have "make_whitelist demo_platform kernel_maps (demo_host (event_polls ev)) syscall_tables read_cli (replicate 8 0) = (0, bm, ls)"
    by (simp add: make_whitelist_def parse_syscall_filter_def read_cli_def cli_init_def FILTER_SYS_def)
  from good_run [OF read_command_line this] obtain r where
    "etrace_main demo_platform kernel_maps (demo_host (event_polls ev)) syscall_tables (replicate 8 0) ''etrace''
       [(CHR ''p'', ''7''), (CHR ''e'', ''read'')] [] = Exits 1 r" "Acquire Link_enter \<in> set (r_log r)" "Poll_loop \<in> set (r_log r)"
    by auto
  moreover have "etrace_argv P kernel_maps h tables bm False ''etrace'' read_words =
      etrace_main P kernel_maps h tables bm ''etrace'' [(CHR ''p'', ''7''), (CHR ''e'', ''read'')] []" for P h tables bm
    by (rule main_on_options) (simp add: read_options)
  ultimately show ?thesis by (intro exI [of _ r]) (simp only: simp_thms)
qed

lemma read_event:
  assumes "syscall_allowed kernel_maps bm 63"
  shows "\<exists>ev. ev \<in> set (st_output (tp_run kernel_maps [demo_enter 0x700000008 1000 63, demo_exit 0x700000008 1600 63 6]
      (bpf_init (cli_config read_cli) bm []))) \<and> se_syscall_id ev = 63"
  using assms by (simp add: demo_enter_def demo_exit_def demo_env_def bpf_init_def trace_enter_def trace_exit_def
      read_cli_def cli_init_def FILTER_PID_def FILTER_COMM_def table_update_def table_delete_def INFLIGHT_ENTRIES_def
      fill_data_def fill_event_def perf_event_output_def perf_accepts_def events_map_def Let_def zero_inflight_def zero_event_def demo_pid)

lemma read_cli_simps:
  "filter_type (cli_config read_cli) = FILTER_PID" "target_pid (cli_config read_cli) = 7" "cli_filter read_cli \<noteq> None"
  by (simp_all add: read_cli_def)


lemma moved_read_keys:
  "card (call_key ` set (started moved_read)) \<le> INFLIGHT_ENTRIES"
  "of_thread 0x700000008 (started moved_read) =
     [] @ Enter (demo_env 0x700000008 1000) demo_read_enter # Exit ((demo_env 0x700000008 1600)\<lparr>tp_cpu := 1\<rparr>) demo_read_exit # []"
  by (simp_all add: moved_read_def of_thread_def INFLIGHT_ENTRIES_def demo_env_def)

lemma read_selected: "selected read_cli (demo_env 0x700000008 1000) demo_read_enter"
  using read_asked by (simp add: selected_def demo_env_def env_pid_def read_cli_def demo_pid FILTER_PID_def FILTER_COMM_def)

lemma read_moved:
  "\<exists>r s. etrace_argv demo_platform kernel_maps (demo_host (event_polls ev)) syscall_tables (replicate 8 0) False ''etrace'' read_words =
      Exits 1 r \<and> Acquire Link_enter \<in> set (r_log r) \<and> Poll_loop \<in> set (r_log r) \<and>
    smp_steps kernel_maps (smp_init (cli_config read_cli) (r_bitmap r) []) moved_read s \<and> (\<forall>cpu. sm_running s cpu = None) \<and>
    sm_ring s 1 = [moved_event (cli_config read_cli)]"
proof -
  obtain r where r: "etrace_argv demo_platform kernel_maps (demo_host (event_polls ev)) syscall_tables (replicate 8 0) False
      ''etrace'' read_words = Exits 1 r" "Acquire Link_enter \<in> set (r_log r)" "Poll_loop \<in> set (r_log r)"
    using read_run by blast
  have "wanted kernel_maps (cli_config read_cli) (r_bitmap r) (demo_env 0x700000008 1000) demo_read_enter"
    using run_whitelist(2) [OF attached_main [OF r(1) read_options r(2)] r(2) read_command_line] read_selected by simp
  from moved_read_runs [OF this] r show ?thesis by blast
qed



text \<open>
  The table of the 32-bit ABI knows the old \<open>mmap\<close> with its one argument, a pointer to a block; the
  call table of the decoder has only the row of the modern call, which prints six.
\<close>

theorem old_mmap_six_arguments:
  "ent_nargs (syscall_tables_32 ! 90) = 1 \<and> ent_name (syscall_tables_32 ! 90) = Some ''mmap'' \<and>
   (\<exists>c. find_call ''mmap'' = Some c \<and> call_nargs c = 6)"
  by (simp add: syscall_tables_32_def syscall_tables_32_part1_def nth_append find_call_def calls_def CALL_def)

end
